(* ===== verification/Go_Prelude.thy ===== *)
theory Go_Prelude
  imports Complex_Main "HOL-Library.Word" "HOL-Library.Signed_Division" "HOL-Library.Sublist"
begin

text \<open>
  Shared vocabulary of the development: the Go types the autoscaler computes with, the
  error values its functions return, and the generic lemmas on machine integers, lists
  and strings that the component theories use.

  \<^item> \<open>int32\<close> and \<open>int64\<close> are words, so that \<open>+\<close> and \<open>-\<close> wrap as in Go; \<open>sint\<close> reads
    them as two's complement and \<open><s\<close> is Go's signed comparison.
  \<^item> \<open>go_quot\<close> is Go's \<open>/\<close> on signed integers (truncation towards zero), \<open>go_int\<close> is
    the conversion \<open>int(f)\<close> of a finite \<open>float64\<close> to the 64-bit \<open>int\<close>: truncation
    towards zero where the result fits. Where it does not fit, Go leaves the result to
    the implementation; the model gives the smallest \<open>int64\<close>, as the conversion
    instruction of amd64 does, and the theorems that depend on the conversion say for
    which values they hold. A finite \<open>float64\<close> is a real number; NaN and the infinities
    are outside the model.
  \<^item> \<open>api_error\<close> lists the failures of a call to the API server; \<open>error\<close> lists the error
    values of the program, the API's among them. \<open>ProcessExit\<close> and \<open>Panic\<close> are not
    Go errors: they say that the process ended (\<open>os.Exit\<close> in \<open>log.Fatal\<close>, a run-time
    panic) and are told apart from returned errors by \<open>aborts\<close>.
  \<^item> \<open>replace_all\<close> is \<open>strings.ReplaceAll\<close> for a non-empty pattern, the only way the
    program calls it, and \<open>occurs\<close> is \<open>strings.Contains\<close>.
  \<^item> \<open>for_each\<close> is a \<open>for ... range\<close> loop whose body may end the process; its lemmas
    carry an invariant through the loop and say when it runs to the end.
\<close>

section \<open>Collections of facts\<close>

named_theorems go_arith "unfolding rules for the Go integer and float operations"
named_theorems api_defs "definitions of the cluster API calls"
named_theorems frame "fields of the world that an operation leaves unchanged"
named_theorems wf_intros "operations that preserve well-formedness of the world"

section \<open>Go values\<close>

type_synonym int32 = "32 word"
type_synonym int64 = "64 word"
type_synonym float64 = real

definition go_quot :: "'a::len word \<Rightarrow> 'a word \<Rightarrow> 'a word" where
  "go_quot a b = word_of_int (sint a sdiv sint b)"

definition int32_of_int :: "int \<Rightarrow> int32" where
  "int32_of_int n = word_of_int n"

definition max_int32 :: int where
  "max_int32 = 2147483647"

definition max_int64 :: int where
  "max_int64 = 9223372036854775807"

definition min_int64 :: int where
  "min_int64 = - 9223372036854775808"

definition go_trunc :: "float64 \<Rightarrow> int" where
  "go_trunc x = (if 0 \<le> x then \<lfloor>x\<rfloor> else - \<lfloor>- x\<rfloor>)"

definition go_int :: "float64 \<Rightarrow> int" where
  "go_int x =
     (if min_int64 \<le> go_trunc x \<and> go_trunc x \<le> max_int64 then go_trunc x else min_int64)"

text \<open>A Go map read \<open>m[k]\<close> yields the zero value for a missing key.\<close>

definition go_index :: "('k \<rightharpoonup> string) \<Rightarrow> 'k \<Rightarrow> string" where
  "go_index m k = (case m k of None \<Rightarrow> [] | Some v \<Rightarrow> v)"

section \<open>Errors\<close>

datatype api_error = NotFound | Conflict | BadRequest | Unavailable string

datatype error =
    Api api_error
  | PVCNotFound string string
  | PVCGetError string error
  | PVCUpdateError string error
  | ConfigReadError
  | ConfigParseError
  | HttpError
  | BodyReadError
  | JsonError
  | NoData string
  | ScanError
  | UnexpectedFormat
  | NoIngressData
  | NoEgressData
  | FileNotExist
  | FileError
  | YamlError
  | ProcessExit int
  | Panic string

type_synonym 'a result = "error + 'a"

text \<open>What reading and decoding a YAML file gives: the two configuration loaders share it.\<close>

datatype 'a file_outcome = Unreadable | Unparsable | Parsed 'a

fun aborts :: "error \<Rightarrow> bool" where
  "aborts (ProcessExit c) = True"
| "aborts (Panic m) = True"
| "aborts e = False"

fun is_not_found :: "error \<Rightarrow> bool" where
  "is_not_found (Api NotFound) = True"
| "is_not_found e = False"

definition is_ok :: "'a result \<Rightarrow> bool" where
  "is_ok r = (case r of Inl e \<Rightarrow> False | Inr v \<Rightarrow> True)"

section \<open>Strings\<close>

fun replace_all :: "string \<Rightarrow> string \<Rightarrow> string \<Rightarrow> string" where
  "replace_all old new [] = []"
| "replace_all old new (c # cs) =
     (if old \<noteq> [] \<and> prefix old (c # cs)
      then new @ replace_all old new (drop (length old) (c # cs))
      else c # replace_all old new cs)"

fun occurs :: "string \<Rightarrow> string \<Rightarrow> bool" where
  "occurs old [] = (old = [])"
| "occurs old (c # cs) = (prefix old (c # cs) \<or> occurs old cs)"

section \<open>Named entries of a list\<close>

text \<open>
  The API server keeps the objects of a namespace in a list; an object is found and
  replaced by its name.
\<close>

definition find_named :: "('a \<Rightarrow> string) \<Rightarrow> string \<Rightarrow> 'a list \<Rightarrow> 'a option" where
  "find_named nm n xs = find (\<lambda>x. nm x = n) xs"

definition update_named :: "('a \<Rightarrow> string) \<Rightarrow> string \<Rightarrow> ('a \<Rightarrow> 'a) \<Rightarrow> 'a list \<Rightarrow> 'a list" where
  "update_named nm n f xs = map (\<lambda>x. if nm x = n then f x else x) xs"

section \<open>Loops whose body may end the process\<close>

text \<open>
  A \<open>for ... range\<close> loop over a list whose body either goes on to the next element
  (\<open>Inr\<close>: the body ran to its end or reached a \<open>continue\<close>) or ends the process (\<open>Inl\<close>).
\<close>

fun for_each :: "('a \<Rightarrow> 's \<Rightarrow> unit result \<times> 's) \<Rightarrow> 'a list \<Rightarrow> 's \<Rightarrow> unit result \<times> 's" where
  "for_each body [] s = (Inr (), s)"
| "for_each body (x # xs) s =
     (case body x s of
        (Inl err, s1) \<Rightarrow> (Inl err, s1)
      | (Inr u, s1) \<Rightarrow> for_each body xs s1)"

section \<open>Lemmas on machine integers\<close>

lemma sint_int32_range: "- 2147483648 \<le> sint (w :: int32) \<and> sint w \<le> 2147483647"
  using sint_ge [of w] sint_lt [of w] by simp

lemma sint_int64_range:
  "- 9223372036854775808 \<le> sint (w :: int64) \<and> sint w \<le> 9223372036854775807"
  using sint_ge [of w] sint_lt [of w] by simp

lemma sint_add_in_range:
  fixes a b :: "'a::len word"
  assumes "- (2 ^ (LENGTH('a) - 1)) \<le> sint a + sint b"
    and "sint a + sint b < 2 ^ (LENGTH('a) - 1)"
  shows "sint (a + b) = sint a + sint b"
  using assms by (simp add: sint_word_ariths signed_take_bit_int_eq_self)

lemma sint_sub_in_range:
  fixes a b :: "'a::len word"
  assumes "- (2 ^ (LENGTH('a) - 1)) \<le> sint a - sint b"
    and "sint a - sint b < 2 ^ (LENGTH('a) - 1)"
  shows "sint (a - b) = sint a - sint b"
  using assms by (simp add: sint_word_ariths signed_take_bit_int_eq_self)

lemma sint_word_of_int_in_range:
  assumes "- (2 ^ (LENGTH('a::len) - 1)) \<le> k" and "k < 2 ^ (LENGTH('a) - 1)"
  shows "sint (word_of_int k :: 'a word) = k"
  using assms by (simp add: sint_sbintrunc' signed_take_bit_int_eq_self)

text \<open>An integer one wrap above the signed range reads as itself less \<open>2 ^ (n + 1)\<close>.\<close>

lemma signed_take_bit_wraps:
  assumes "2 ^ n \<le> k" and "k < 2 ^ Suc n"
  shows "signed_take_bit n (k::int) = k - 2 ^ Suc n"
proof -
  have "k + 2 ^ n = (k - 2 ^ n) + 2 ^ Suc n" by simp
  then have "take_bit (Suc n) (k + 2 ^ n) = take_bit (Suc n) (k - 2 ^ n)"
    by (simp only: take_bit_eq_mod mod_add_self2)
  also have "\<dots> = k - 2 ^ n"
    using assms by (intro take_bit_int_eq_self) simp_all
  finally show ?thesis
    by (simp add: signed_take_bit_eq_take_bit_shift)
qed

lemma sdiv_two_nonneg: "0 \<le> k \<Longrightarrow> k sdiv (2::int) = k div 2"
  by (simp add: signed_divide_int_def sgn_if)

lemma sdiv_two_neg: "k < 0 \<Longrightarrow> k sdiv (2::int) = - ((- k) div 2)"
  by (simp add: signed_divide_int_def sgn_if)

lemma sdiv_two_between: "min k 0 \<le> k sdiv (2::int) \<and> k sdiv 2 \<le> max k 0"
  by (cases "0 \<le> k") (simp_all add: sdiv_two_nonneg sdiv_two_neg)

lemma sint_go_quot_two:
  fixes a :: "'a::len word"
  assumes "3 \<le> LENGTH('a)"
  shows "sint (go_quot a 2) = sint a sdiv 2"
proof -
  have two: "sint (2 :: 'a word) = 2"
  proof -
    have "(2::int) ^ 2 \<le> 2 ^ (LENGTH('a) - 1)"
      using assms by (intro power_increasing) auto
    then have "(2::int) < 2 ^ (LENGTH('a) - 1)" by simp
    then show ?thesis
      using sint_word_of_int_in_range [of 2, where 'a = 'a] by simp
  qed
  have lo: "- (2 ^ (LENGTH('a) - 1)) \<le> sint a sdiv 2"
    using sdiv_two_between [of "sint a"] sint_ge [of a] sint_lt [of a] by linarith
  have hi: "sint a sdiv 2 < 2 ^ (LENGTH('a) - 1)"
    using sdiv_two_between [of "sint a"] sint_ge [of a] sint_lt [of a] by linarith
  show ?thesis
    unfolding go_quot_def two by (rule sint_word_of_int_in_range [OF lo hi])
qed

lemma go_trunc_nonneg [go_arith]: "0 \<le> x \<Longrightarrow> go_trunc x = \<lfloor>x\<rfloor>"
  by (simp add: go_trunc_def)

lemma go_trunc_neg [go_arith]: "x < 0 \<Longrightarrow> go_trunc x = \<lceil>x\<rceil>"
  by (simp add: go_trunc_def ceiling_def)

lemma go_trunc_abs_le: "\<bar>real_of_int (go_trunc x)\<bar> \<le> \<bar>x\<bar>"
  by (simp add: go_trunc_def)

text \<open>
  The conversion on the values that fit, which are the reals strictly between
  \<open>- 2\<^sup>6\<^sup>3 - 1\<close> and \<open>2\<^sup>6\<^sup>3\<close>, and on those that do not.
\<close>

lemma go_int_nonneg [go_arith]:
  assumes "0 \<le> x" and "x < 9223372036854775808"
  shows "go_int x = \<lfloor>x\<rfloor>"
proof -
  have "0 \<le> \<lfloor>x\<rfloor>" "\<lfloor>x\<rfloor> < 9223372036854775808"
    using assms by (simp_all add: floor_less_iff)
  with assms(1) show ?thesis
    by (simp add: go_int_def go_trunc_def min_int64_def max_int64_def)
qed

lemma go_int_neg [go_arith]:
  assumes "x < 0" and "- 9223372036854775809 < x"
  shows "go_int x = \<lceil>x\<rceil>"
proof -
  have "\<lceil>x\<rceil> \<le> 0" "- 9223372036854775809 < \<lceil>x\<rceil>"
    using assms by (simp_all add: ceiling_le_iff less_ceiling_iff)
  with assms(1) show ?thesis
    by (simp add: go_int_def go_trunc_neg min_int64_def max_int64_def)
qed

lemma go_int_too_large:
  assumes "9223372036854775808 \<le> x"
  shows "go_int x = min_int64"
proof -
  have "9223372036854775808 \<le> \<lfloor>x\<rfloor>"
    using assms by (simp add: le_floor_iff)
  with assms show ?thesis
    by (simp add: go_int_def go_trunc_def max_int64_def)
qed

lemma go_int_too_small:
  assumes "x \<le> - 9223372036854775809"
  shows "go_int x = min_int64"
proof -
  have "\<lceil>x\<rceil> \<le> - 9223372036854775809"
    using assms by (simp add: ceiling_le_iff)
  with assms show ?thesis
    by (simp add: go_int_def go_trunc_neg min_int64_def)
qed

lemma go_int_range: "min_int64 \<le> go_int x \<and> go_int x \<le> max_int64"
  by (simp add: go_int_def min_int64_def max_int64_def)

lemma go_int_of_int [simp]:
  "min_int64 \<le> k \<Longrightarrow> k \<le> max_int64 \<Longrightarrow> go_int (of_int k) = k"
  by (simp add: go_int_def go_trunc_def)

text \<open>The conversion of a numeral is computed from these.\<close>

lemmas go_int_eval = go_int_def go_trunc_def min_int64_def max_int64_def

section \<open>Lemmas on results and errors\<close>

lemma is_ok_simps [simp]: "is_ok (Inr v)" "\<not> is_ok (Inl e)"
  by (simp_all add: is_ok_def)

text \<open>
  An operation returns its result together with the world it leaves. Where both branches
  of a case on the result pass that world on, the case is a map on the result.
\<close>

lemma result_case:
  "(case r of (Inl e, w) \<Rightarrow> f e w | (Inr v, w) \<Rightarrow> g v w) =
     (case fst r of Inl e \<Rightarrow> f e (snd r) | Inr v \<Rightarrow> g v (snd r))"
  by (auto split: prod.split sum.split)

lemma result_case_snd [simp]:
  "snd (case r of (Inl e, w) \<Rightarrow> (f e, w) | (Inr v, w) \<Rightarrow> (g v, w)) = snd r"
  by (auto split: prod.split sum.split)

lemma result_case_fst [simp]:
  "fst (case r of (Inl e, w) \<Rightarrow> (f e, w) | (Inr v, w) \<Rightarrow> (g v, w)) =
     (case fst r of Inl e \<Rightarrow> f e | Inr v \<Rightarrow> g v)"
  by (auto split: prod.split sum.split)

lemma is_not_found_Api [simp]: "is_not_found (Api e) \<longleftrightarrow> e = NotFound"
  by (cases e) simp_all

lemma aborts_cases: "aborts e \<longleftrightarrow> (\<exists>c. e = ProcessExit c) \<or> (\<exists>m. e = Panic m)"
  by (cases e) simp_all

lemma go_index_simps [simp]:
  "go_index Map.empty k = []"
  "go_index (m(k \<mapsto> v)) k = v"
  "k' \<noteq> k \<Longrightarrow> go_index (m(k' \<mapsto> v)) k = go_index m k"
  by (simp_all add: go_index_def)

section \<open>Lemmas on strings\<close>

lemma occurs_Nil [simp]: "occurs [] s"
  by (cases s) simp_all

lemma occurs_iff_sublist: "occurs old s \<longleftrightarrow> (\<exists>a b. s = a @ old @ b)"
proof (induction s)
  case Nil
  then show ?case by auto
next
  case (Cons c cs)
  show ?case
  proof
    assume "occurs old (c # cs)"
    then consider "prefix old (c # cs)" | "occurs old cs" by auto
    then show "\<exists>a b. c # cs = a @ old @ b"
    proof cases
      case 1
      then obtain b where "c # cs = old @ b" by (auto simp: prefix_def)
      then have "c # cs = [] @ old @ b" by simp
      then show ?thesis by blast
    next
      case 2
      with Cons.IH obtain a b where "cs = a @ old @ b" by blast
      then have "c # cs = (c # a) @ old @ b" by simp
      then show ?thesis by blast
    qed
  next
    assume "\<exists>a b. c # cs = a @ old @ b"
    then obtain a b where ab: "c # cs = a @ old @ b" by blast
    show "occurs old (c # cs)"
    proof (cases a)
      case Nil
      with ab have "prefix old (c # cs)" by (simp add: prefix_def)
      then show ?thesis by simp
    next
      case (Cons x a')
      with ab have "cs = a' @ old @ b" by simp
      with Cons.IH have "occurs old cs" by blast
      then show ?thesis by simp
    qed
  qed
qed

lemma replace_all_absent: "\<not> occurs old s \<Longrightarrow> replace_all old new s = s"
  by (induction s) auto

lemma replace_all_empty_pattern [simp]: "replace_all [] new s = s"
  by (induction s) auto

lemma occurs_length: "occurs old s \<Longrightarrow> length old \<le> length s"
  by (induction s) (auto dest: prefix_length_le)

lemma occurs_fresh:
  assumes "old \<noteq> []" and "hd old \<notin> set a"
  shows "\<not> occurs old (a @ butlast old)"
  using assms
proof (induction a)
  case Nil
  then show ?case using occurs_length [of old "butlast old"] by (cases old) auto
next
  case (Cons x a)
  then show ?case by (cases old) (auto simp: prefix_Cons)
qed

lemma replace_all_skip:
  assumes "old \<noteq> []" and "hd old \<notin> set x"
  shows "replace_all old new (x @ s) = x @ replace_all old new s"
  using assms by (induction x) (auto simp: prefix_Cons)

lemma replace_all_fresh:
  assumes "old \<noteq> []" and "hd old \<notin> set x"
  shows "replace_all old new x = x"
  using replace_all_skip [OF assms, of new "[]"] by simp

lemma replace_all_append:
  assumes "old \<noteq> []" and "\<not> occurs old (a @ butlast old)"
  shows "replace_all old new (a @ old @ b) = a @ new @ replace_all old new b"
  using assms
proof (induction a)
  case Nil
  then show ?case by (cases old) simp_all
next
  case (Cons x a)
  have "\<not> prefix old (x # a @ old @ b)"
  proof
    assume "prefix old (x # a @ old @ b)"
    moreover have "old = butlast old @ [last old]"
      using Cons.prems(1) by simp
    then have "x # a @ old @ b = (x # a @ butlast old) @ [last old] @ b"
      by (metis append.assoc append_Cons)
    ultimately have "prefix old ((x # a @ butlast old) @ [last old] @ b)"
      by simp
    moreover have "length old \<le> length (x # a @ butlast old)"
      using Cons.prems(1) by (cases old) simp_all
    ultimately have "prefix old (x # a @ butlast old)"
      by (metis prefix_length_prefix prefixI prefix_order.order_refl)
    with Cons.prems(2) show False by simp
  qed
  with Cons show ?case by simp
qed

section \<open>Lemmas on named entries\<close>

lemma find_named_Nil [simp]: "find_named nm n [] = None"
  by (simp add: find_named_def)

lemma find_named_Cons [simp]:
  "find_named nm n (x # xs) = (if nm x = n then Some x else find_named nm n xs)"
  by (simp add: find_named_def)

lemma find_named_Some: "find_named nm n xs = Some x \<Longrightarrow> x \<in> set xs \<and> nm x = n"
  by (induction xs) (auto split: if_splits)

lemma find_named_None: "find_named nm n xs = None \<longleftrightarrow> n \<notin> nm ` set xs"
  by (induction xs) auto

lemma update_named_Nil [simp]: "update_named nm n f [] = []"
  by (simp add: update_named_def)

lemma update_named_Cons [simp]:
  "update_named nm n f (x # xs) =
     (if nm x = n then f x else x) # update_named nm n f xs"
  by (simp add: update_named_def)

lemma length_update_named [simp]: "length (update_named nm n f xs) = length xs"
  by (simp add: update_named_def)

lemma names_update_named:
  "(\<And>x. nm x = n \<Longrightarrow> nm (f x) = n) \<Longrightarrow> map nm (update_named nm n f xs) = map nm xs"
  by (induction xs) auto

lemma find_update_named_same:
  assumes "\<And>x. nm x = n \<Longrightarrow> nm (f x) = n"
  shows "find_named nm n (update_named nm n f xs) = map_option f (find_named nm n xs)"
  using assms by (induction xs) auto

lemma find_update_named_other:
  assumes "\<And>x. nm x = n \<Longrightarrow> nm (f x) = n" and "m \<noteq> n"
  shows "find_named nm m (update_named nm n f xs) = find_named nm m xs"
  using assms by (induction xs) auto

lemma update_named_absent: "n \<notin> nm ` set xs \<Longrightarrow> update_named nm n f xs = xs"
  by (induction xs) auto

lemma find_named_mid:
  "distinct (map nm (pre @ d # ds)) \<Longrightarrow> find_named nm (nm d) (pre @ d # ds) = Some d"
  by (induction pre) auto

lemma update_named_mid:
  "distinct (map nm (pre @ d # ds)) \<Longrightarrow>
     update_named nm (nm d) f (pre @ d # ds) = pre @ f d # ds"
  by (induction pre) (auto simp: update_named_absent)

section \<open>Range loops\<close>

lemma for_each_Cons:
  "for_each body (x # xs) s =
     (case fst (body x s) of
        Inl err \<Rightarrow> (Inl err, snd (body x s))
      | Inr u \<Rightarrow> for_each body xs (snd (body x s)))"
  by (cases "body x s") (simp split: sum.split)

declare for_each.simps(2) [simp del]

lemma for_each_single: "for_each body [x] s = (fst (body x s), snd (body x s))"
  by (cases "body x s") (simp add: for_each_Cons split: sum.split)

lemma for_each_invariant:
  assumes "\<And>x s. x \<in> set xs \<Longrightarrow> P s \<Longrightarrow> P (snd (body x s))" and "P s"
  shows "P (snd (for_each body xs s))"
  using assms by (induction xs arbitrary: s) (auto simp: for_each_Cons split: sum.split)

lemma for_each_continues:
  assumes "\<And>x s. x \<in> set xs \<Longrightarrow> P s \<Longrightarrow> fst (body x s) = Inr () \<and> P (snd (body x s))" and "P s"
  shows "fst (for_each body xs s) = Inr ()"
  using assms by (induction xs arbitrary: s) (auto simp: for_each_Cons)

lemma for_each_aborts:
  assumes "fst (for_each body xs s) = Inl err"
  shows "\<exists>x \<in> set xs. \<exists>s'. fst (body x s') = Inl err"
  using assms by (induction xs arbitrary: s) (auto simp: for_each_Cons split: sum.splits)

end
