(* ===== verification/Settings.thy ===== *)
theory Settings
  imports Go_Prelude
begin

text \<open>
  The configuration of the autoscaler, \<open>src/config/config.go\<close>: the structs that
  \<open>config.yaml\<close> is decoded into, and \<open>LoadConfig\<close>.

  \<open>AutoscalerConfig\<close> is the struct of the source with its nested structs; the two
  anonymous structs of \<open>Thresholds\<close> are the records \<open>DiskUsageThresholds\<close> and
  \<open>NetworkUsageThresholds\<close>, and the innermost one is \<open>IngressThresholds\<close>. The integers
  are Go's \<open>int\<close>, modelled as \<open>int\<close>. \<open>Prometheus_URL\<close>, \<open>DiskUsage_Resize\<close> and
  \<open>Ingress_Scale\<close> abbreviate the three paths that \<open>main\<close> reads.

  \<open>config_LoadConfig\<close> is \<open>LoadConfig\<close> of this package (the metrics package has a
  function of the same name). Reading the file and decoding YAML are outside the
  program: the argument is their outcome. A decoder that succeeds leaves the fields that
  the file does not mention at the zero value \<open>zero_config\<close> of the variable it fills.
\<close>

section \<open>Definitions\<close>

record PrometheusConfig =
  URL :: string

record DiskUsageThresholds =
  Resize :: int

record IngressThresholds =
  Scale :: int

record NetworkUsageThresholds =
  Ingress :: IngressThresholds

record Thresholds =
  DiskUsage :: DiskUsageThresholds
  NetworkUsage :: NetworkUsageThresholds

record AutoscalerConfig =
  DesiredReplicaCount :: int
  Interval :: int
  Prometheus :: PrometheusConfig
  Thresholds :: Thresholds

abbreviation Prometheus_URL :: "AutoscalerConfig \<Rightarrow> string" where
  "Prometheus_URL config \<equiv> URL (Prometheus config)"

abbreviation DiskUsage_Resize :: "AutoscalerConfig \<Rightarrow> int" where
  "DiskUsage_Resize config \<equiv> Resize (DiskUsage (Thresholds config))"

abbreviation Ingress_Scale :: "AutoscalerConfig \<Rightarrow> int" where
  "Ingress_Scale config \<equiv> Scale (Ingress (NetworkUsage (Thresholds config)))"

text \<open>The value of \<open>var config AutoscalerConfig\<close> before the decoder has filled it.\<close>

definition zero_config :: AutoscalerConfig where
  "zero_config =
     \<lparr>DesiredReplicaCount = 0, Interval = 0, Prometheus = \<lparr>URL = []\<rparr>,
      Thresholds = \<lparr>DiskUsage = \<lparr>Resize = 0\<rparr>,
                    NetworkUsage = \<lparr>Ingress = \<lparr>Scale = 0\<rparr>\<rparr>\<rparr>\<rparr>"

definition config_LoadConfig :: "(AutoscalerConfig \<Rightarrow> AutoscalerConfig) file_outcome \<Rightarrow> AutoscalerConfig result" where
  "config_LoadConfig decoded =
     (case decoded of
        Unreadable \<Rightarrow> Inl FileError
      | Unparsable \<Rightarrow> Inl YamlError
      | Parsed fill \<Rightarrow> Inr (fill zero_config))"

section \<open>Example configuration\<close>

text \<open>
  The configuration of the scenarios: three replicas, a cycle every five minutes, a
  resize above 80 percent and a rescale above 1000 bytes per second.
\<close>

definition settings :: AutoscalerConfig where
  "settings =
     \<lparr>DesiredReplicaCount = 3, Interval = 5, Prometheus = \<lparr>URL = ''http://prom''\<rparr>,
      Thresholds = \<lparr>DiskUsage = \<lparr>Resize = 80\<rparr>,
                    NetworkUsage = \<lparr>Ingress = \<lparr>Scale = 1000\<rparr>\<rparr>\<rparr>\<rparr>"

text \<open>A file that sets every key to the value of \<open>settings\<close>, and one that sets only the URL.\<close>

definition settings_yaml :: "AutoscalerConfig \<Rightarrow> AutoscalerConfig" where
  "settings_yaml config = settings"

definition url_only_yaml :: "AutoscalerConfig \<Rightarrow> AutoscalerConfig" where
  "url_only_yaml config = config\<lparr>Prometheus := \<lparr>URL = ''http://prom''\<rparr>\<rparr>"

section \<open>Lemmas\<close>

lemma settings_fields [simp]:
  "DesiredReplicaCount settings = 3" "Interval settings = 5"
  "Prometheus_URL settings = ''http://prom''"
  "DiskUsage_Resize settings = 80" "Ingress_Scale settings = 1000"
  by (simp_all add: settings_def)

lemma zero_config_fields [simp]:
  "DesiredReplicaCount zero_config = 0" "Interval zero_config = 0"
  "Prometheus_URL zero_config = []"
  "DiskUsage_Resize zero_config = 0" "Ingress_Scale zero_config = 0"
  by (simp_all add: zero_config_def)

lemma config_LoadConfig_simps [simp]:
  "config_LoadConfig Unreadable = Inl FileError"
  "config_LoadConfig Unparsable = Inl YamlError"
  "config_LoadConfig (Parsed fill) = Inr (fill zero_config)"
  by (simp_all add: config_LoadConfig_def)

lemma config_LoadConfig_ok:
  "is_ok (config_LoadConfig decoded) \<longleftrightarrow> (\<exists>fill. decoded = Parsed fill)"
  by (cases decoded) (simp_all add: is_ok_def)

lemma config_LoadConfig_never_aborts:
  "config_LoadConfig decoded = Inl err \<Longrightarrow> \<not> aborts err"
  by (cases decoded) auto

end
