(* ===== verification/Logger.thy ===== *)
theory Logger
  imports Go_Prelude
begin

text \<open>
  The logger of \<open>src/pkg/log/logger.go\<close>. \<open>Init\<close> removes the old log file, opens a new
  one and sets the two package variables \<open>FileLogger\<close> and \<open>ConsoleLogger\<close>; every logging
  function formats one line and prints it to both. The model keeps the sequence of lines
  once, since both sinks receive the same lines in the same order (the console copy only
  adds colour codes). A line is its level, the time stamp (seconds of the model's clock)
  and the format string; the arguments that \<open>fmt.Sprintf\<close> substitutes are not modelled.
  The characters of a line, with the tag and the mark of its level, the layout of the time
  stamp and the colour codes of the console, are given by \<open>msgFormatted\<close>, \<open>file_text\<close> and
  \<open>console_text\<close>.

  What matters to the callers is in the result types: \<open>Error\<close> logs and returns \<open>nil\<close>
  (so \<open>return log.Error(...)\<close> reports success), and \<open>Fatal\<close> logs and ends the process
  with exit status 1.
\<close>

section \<open>Lines and the logger state\<close>

datatype level = INFO | WARNING | ERROR | FATAL

record log_line =
  line_level :: level
  line_time :: nat
  line_format :: string

type_synonym logger = "log_line list"

section \<open>The functions of the package\<close>

text \<open>
  \<open>Init\<close>: the two arguments are the results of \<open>os.Remove\<close> and \<open>os.OpenFile\<close>. A failed
  removal other than "file does not exist", or a failed open, prints to standard output
  and returns with both loggers still \<open>nil\<close> (the result \<open>None\<close>).
\<close>

definition log_Init :: "error option \<Rightarrow> error option \<Rightarrow> logger option \<times> string list" where
  "log_Init removed opened =
     (if removed \<noteq> None \<and> removed \<noteq> Some FileNotExist
      then (None, [''Failed to delete old log file: %v''])
      else if opened \<noteq> None
      then (None, [''Failed to open log file: %v''])
      else (Some [], []))"

definition format_line :: "level \<Rightarrow> nat \<Rightarrow> string \<Rightarrow> log_line" where
  "format_line l t msg = \<lparr>line_level = l, line_time = t, line_format = msg\<rparr>"

definition log_Info :: "nat \<Rightarrow> string \<Rightarrow> logger \<Rightarrow> logger" where
  "log_Info t msg lg = lg @ [format_line INFO t msg]"

definition log_Warning :: "nat \<Rightarrow> string \<Rightarrow> logger \<Rightarrow> logger" where
  "log_Warning t msg lg = lg @ [format_line WARNING t msg]"

definition log_Error :: "nat \<Rightarrow> string \<Rightarrow> logger \<Rightarrow> error option \<times> logger" where
  "log_Error t msg lg = (None, lg @ [format_line ERROR t msg])"

definition log_Fatal :: "nat \<Rightarrow> string \<Rightarrow> logger \<Rightarrow> error \<times> logger" where
  "log_Fatal t msg lg = (ProcessExit 1, lg @ [format_line FATAL t msg])"

section \<open>The text of a line\<close>

text \<open>
  The characters that the two sinks receive. The escape sequences are the constants of the
  package; \<open>currentTimestamp\<close> prints a time of day in the layout \<open>2006/01/02 15:04:05\<close>
  (the model takes the calendar fields as they are, and years of four digits);
  \<open>msgFormatted\<close> is the line that \<open>fmt.Sprintf\<close> builds in each of the four functions from
  the tag of the level, the time stamp, the expanded message and the mark of the level, whose
  bytes are the UTF-8 encoding of the source's character. The file receives that line, the
  console the same line between the colour of the level and \<open>Reset\<close>; \<open>Println\<close> ends both
  with a newline.
\<close>

definition Reset :: string where
  "Reset = CHR 0x1B # ''[0m''"

definition BrightRed :: string where
  "BrightRed = CHR 0x1B # ''[1;31m''"

definition BrightGreen :: string where
  "BrightGreen = CHR 0x1B # ''[1;32m''"

definition BrightYellow :: string where
  "BrightYellow = CHR 0x1B # ''[1;33m''"

definition BrightBlue :: string where
  "BrightBlue = CHR 0x1B # ''[1;34m''"

record clock_time =
  t_year :: nat
  t_month :: nat
  t_day :: nat
  t_hour :: nat
  t_minute :: nat
  t_second :: nat

definition digit :: "nat \<Rightarrow> char" where
  "digit n = ''0123456789'' ! (n mod 10)"

definition digits2 :: "nat \<Rightarrow> string" where
  "digits2 n = [digit (n div 10), digit n]"

definition digits4 :: "nat \<Rightarrow> string" where
  "digits4 n = [digit (n div 1000), digit (n div 100), digit (n div 10), digit n]"

definition currentTimestamp :: "clock_time \<Rightarrow> string" where
  "currentTimestamp t =
     digits4 (t_year t) @ ''/'' @ digits2 (t_month t) @ ''/'' @ digits2 (t_day t) @ '' '' @
     digits2 (t_hour t) @ '':'' @ digits2 (t_minute t) @ '':'' @ digits2 (t_second t)"

fun level_tag :: "level \<Rightarrow> string" where
  "level_tag INFO = ''[INFO]   ''"
| "level_tag WARNING = ''[WARNING] ''"
| "level_tag ERROR = ''[ERROR]  ''"
| "level_tag FATAL = ''[FATAL]  ''"

fun level_mark :: "level \<Rightarrow> string" where
  "level_mark INFO = [CHR 0xF0, CHR 0x9F, CHR 0x98, CHR 0x8A]"
| "level_mark WARNING = [CHR 0xE2, CHR 0x9A, CHR 0xA0, CHR 0xEF, CHR 0xB8, CHR 0x8F]"
| "level_mark ERROR = [CHR 0xE2, CHR 0x9D, CHR 0x8C]"
| "level_mark FATAL = [CHR 0xF0, CHR 0x9F, CHR 0x92, CHR 0x80]"

fun level_colour :: "level \<Rightarrow> string" where
  "level_colour INFO = BrightGreen"
| "level_colour WARNING = BrightYellow"
| "level_colour ERROR = BrightRed"
| "level_colour FATAL = BrightRed"

definition msgFormatted :: "level \<Rightarrow> string \<Rightarrow> string \<Rightarrow> string" where
  "msgFormatted l stamp msg = level_tag l @ stamp @ '' - '' @ msg @ '' '' @ level_mark l"

definition Println :: "string \<Rightarrow> string" where
  "Println s = s @ [CHR 0x0A]"

definition console_text :: "level \<Rightarrow> string \<Rightarrow> string \<Rightarrow> string" where
  "console_text l stamp msg = Println (level_colour l @ msgFormatted l stamp msg @ Reset)"

definition file_text :: "level \<Rightarrow> string \<Rightarrow> string \<Rightarrow> string" where
  "file_text l stamp msg = Println (msgFormatted l stamp msg)"

text \<open>
  The text of a recorded line in the file, for a calendar that turns the seconds of the
  model's clock into a time of day.
\<close>

definition rendered :: "(nat \<Rightarrow> clock_time) \<Rightarrow> log_line \<Rightarrow> string" where
  "rendered calendar entry =
     file_text (line_level entry) (currentTimestamp (calendar (line_time entry))) (line_format entry)"

text \<open>The line without the colour codes that the console adds.\<close>

definition uncoloured :: "string \<Rightarrow> string" where
  "uncoloured s = Println (take (length s - 12) (drop 7 s))"

section \<open>Reading a log\<close>

definition at_level :: "level \<Rightarrow> logger \<Rightarrow> logger" where
  "at_level l lg = filter (\<lambda>x. line_level x = l) lg"

definition logged :: "level \<Rightarrow> string \<Rightarrow> logger \<Rightarrow> bool" where
  "logged l msg lg = list_ex (\<lambda>x. line_level x = l \<and> line_format x = msg) lg"

section \<open>Lemmas\<close>

lemmas log_defs = log_Info_def log_Warning_def log_Error_def log_Fatal_def format_line_def

lemma log_Error_returns_nil [simp]: "fst (log_Error t msg lg) = None"
  by (simp add: log_Error_def)

lemma log_Fatal_exits [simp]: "fst (log_Fatal t msg lg) = ProcessExit 1"
  by (simp add: log_Fatal_def)

lemma log_Fatal_aborts: "aborts (fst (log_Fatal t msg lg))"
  by simp

lemma log_Init_ready:
  "fst (log_Init removed opened) = Some lg \<longleftrightarrow>
     (removed = None \<or> removed = Some FileNotExist) \<and> opened = None \<and> lg = []"
  by (auto simp: log_Init_def)

lemma log_grows [simp]:
  "prefix lg (log_Info t msg lg)"
  "prefix lg (log_Warning t msg lg)"
  "prefix lg (snd (log_Error t msg lg))"
  "prefix lg (snd (log_Fatal t msg lg))"
  by (simp_all add: log_defs)

lemma logged_append [simp]: "logged l msg (xs @ ys) \<longleftrightarrow> logged l msg xs \<or> logged l msg ys"
  by (simp add: logged_def list_ex_iff) blast

lemma logged_Nil [simp]: "\<not> logged l msg []"
  by (simp add: logged_def)

lemma logged_single [simp]:
  "logged l msg [format_line l' t msg'] \<longleftrightarrow> l = l' \<and> msg = msg'"
  by (auto simp: logged_def format_line_def)

lemma logged_mono: "prefix xs ys \<Longrightarrow> logged l msg xs \<Longrightarrow> logged l msg ys"
  by (auto simp: prefix_def)

lemma logged_Info [simp]:
  "logged l msg (log_Info t m lg) \<longleftrightarrow> logged l msg lg \<or> (l = INFO \<and> msg = m)"
  by (simp add: log_Info_def)

lemma logged_Warning [simp]:
  "logged l msg (log_Warning t m lg) \<longleftrightarrow> logged l msg lg \<or> (l = WARNING \<and> msg = m)"
  by (simp add: log_Warning_def)

lemma logged_Error [simp]:
  "logged l msg (snd (log_Error t m lg)) \<longleftrightarrow> logged l msg lg \<or> (l = ERROR \<and> msg = m)"
  by (simp add: log_Error_def)

lemma logged_Fatal [simp]:
  "logged l msg (snd (log_Fatal t m lg)) \<longleftrightarrow> logged l msg lg \<or> (l = FATAL \<and> msg = m)"
  by (simp add: log_Fatal_def)

lemma at_level_append [simp]: "at_level l (xs @ ys) = at_level l xs @ at_level l ys"
  by (simp add: at_level_def)

lemma at_level_single [simp]:
  "at_level l [format_line l' t msg] = (if l = l' then [format_line l' t msg] else [])"
  by (auto simp: at_level_def format_line_def)

lemma logged_Cons [simp]:
  "logged l msg (format_line l' t msg' # lg) \<longleftrightarrow> (l = l' \<and> msg = msg') \<or> logged l msg lg"
  by (auto simp: logged_def format_line_def)

section \<open>The text of a line\<close>

lemmas colour_defs = Reset_def BrightRed_def BrightGreen_def BrightYellow_def BrightBlue_def

lemma length_colours [simp]:
  "length Reset = 4" "length (level_colour l) = 7"
  by (cases l; simp add: colour_defs)+

lemma length_digits [simp]: "length (digits2 n) = 2" "length (digits4 n) = 4"
  by (simp_all add: digits2_def digits4_def)

lemma length_currentTimestamp [simp]: "length (currentTimestamp t) = 19"
  by (simp add: currentTimestamp_def)

lemma currentTimestamp_example:
  "currentTimestamp \<lparr>t_year = 2024, t_month = 3, t_day = 9, t_hour = 7, t_minute = 5,
     t_second = 0\<rparr> = ''2024/03/09 07:05:00''"
  by (simp add: currentTimestamp_def digits2_def digits4_def digit_def)

text \<open>The tag of a warning is one character longer than the others.\<close>

lemma length_level_tag: "length (level_tag l) = (if l = WARNING then 10 else 9)"
  by (cases l) simp_all

lemma level_tag_inject [simp]: "level_tag l @ s = level_tag l' @ s' \<longleftrightarrow> l = l' \<and> s = s'"
  by (cases l; cases l'; simp)

text \<open>
  A line determines its level, its time stamp and its message: no two calls of the logging
  functions at different levels, times or with different messages write the same line.
\<close>

lemma msgFormatted_inject:
  assumes "length stamp = length stamp'"
  shows "msgFormatted l stamp msg = msgFormatted l' stamp' msg' \<longleftrightarrow>
           l = l' \<and> stamp = stamp' \<and> msg = msg'"
  using assms by (auto simp: msgFormatted_def)

lemma file_text_inject:
  "file_text l (currentTimestamp t) msg = file_text l' (currentTimestamp t') msg' \<longleftrightarrow>
     l = l' \<and> currentTimestamp t = currentTimestamp t' \<and> msg = msg'"
  by (simp add: file_text_def Println_def msgFormatted_inject)

text \<open>The console shows the line of the file, in colour.\<close>

lemma uncoloured_console_text: "uncoloured (console_text l stamp msg) = file_text l stamp msg"
  by (simp add: uncoloured_def console_text_def file_text_def Println_def)

lemma rendered_format_line:
  "rendered calendar (format_line l t msg) = file_text l (currentTimestamp (calendar t)) msg"
  by (simp add: rendered_def format_line_def)

lemma rendered_inject:
  "rendered calendar entry = rendered calendar entry' \<longleftrightarrow>
     line_level entry = line_level entry' \<and> line_format entry = line_format entry' \<and>
     currentTimestamp (calendar (line_time entry)) = currentTimestamp (calendar (line_time entry'))"
  by (auto simp: rendered_def file_text_inject)

end
