(* ===== verification/Cluster.thy ===== *)
theory Cluster
  imports Logger
begin

text \<open>
  The world the autoscaler runs in: the objects of the Kubernetes cluster that the
  sources read and write through \<open>client-go\<close>, the clock, the log, and what the
  environment does on its own.

  \<^item> \<open>deployment\<close>, \<open>pvc\<close>, \<open>pod\<close>, \<open>scale\<close> and \<open>volume\<close> carry the fields of the API
    objects that the sources touch, under the API's names. \<open>spec_replicas\<close> is a pointer
    in Go (\<open>*int32\<close>) and \<open>requests\<close> a map that may be \<open>nil\<close>: both are options, and
    \<open>wf_world\<close> says that the API server never hands out \<open>None\<close>.
  \<^item> Each call of the API is one definition (\<open>list_deployments\<close>, \<open>get_scale\<close>,
    \<open>update_scale\<close>, \<open>get_pvc\<close>, \<open>update_pvc\<close>, ...). A call is appended to \<open>calls\<close>, so
    that theorems can count attempts, and it consumes the head of \<open>faults\<close>: \<open>Some e\<close>
    makes this call fail with \<open>Api e\<close> without touching the cluster, \<open>None\<close> or an empty
    list lets it go through. A call on an object that does not exist fails with
    \<open>Api NotFound\<close>.
  \<^item> Calls take no time. Time passes in \<open>sleep\<close> (\<open>time.Sleep\<close> and the ticks of a
    \<open>time.Ticker\<close>), which also lets the environment act: the entries of \<open>timeline\<close>
    that have become due are applied in order (a volume gets bound, replicas become
    ready, an object is deleted). On a timeline in the order of its times (\<open>scheduled\<close>)
    two sleeps in a row are one sleep of their sum.
  \<^item> \<open>info\<close>, \<open>warning\<close>, \<open>error_nil\<close> and \<open>fatal\<close> are the logger's functions on the
    world's log, stamped with the world's clock.
\<close>

section \<open>API objects\<close>

type_synonym labels = "string \<rightharpoonup> string"

record volume =
  volume_name :: string
  claim_name :: "string option"

record deployment =
  dep_name :: string
  dep_annotations :: labels
  spec_replicas :: "int32 option"
  spec_selector :: "(string \<times> string) list"
  template_annotations :: labels
  template_volumes :: "volume list"
  status_replicas :: int32
  ready_replicas :: int32

record pod =
  pod_name :: string
  pod_namespace :: string
  pod_labels :: labels

record pvc =
  pvc_name :: string
  requests :: "(string \<rightharpoonup> int64) option"
  phase :: string

record scale =
  scale_name :: string
  scale_replicas :: int32

definition ResourceStorage :: string where
  "ResourceStorage = ''storage''"

definition ClaimBound :: string where
  "ClaimBound = ''Bound''"

section \<open>The world\<close>

datatype api_call =
    ListNamespaces
  | ListDeployments string
  | GetDeployment string string
  | UpdateDeployment string string
  | GetScale string string
  | UpdateScale string string int32
  | GetPVC string string
  | UpdatePVC string string
  | ListPods string

datatype env_event =
    SetPhase string string string
  | SetReady string string int32
  | RemovePVC string string
  | RemoveDeployment string string

record world =
  namespaces :: "string list"
  deployments :: "string \<Rightarrow> deployment list"
  pvcs :: "string \<times> string \<rightharpoonup> pvc"
  pods :: "string \<Rightarrow> pod list"
  faults :: "api_error option list"
  timeline :: "(nat \<times> env_event) list"
  now :: nat
  calls :: "api_call list"
  logs :: logger

section \<open>Logging on the world\<close>

definition info :: "string \<Rightarrow> world \<Rightarrow> world" where
  "info msg w = w\<lparr>logs := log_Info (now w) msg (logs w)\<rparr>"

definition warning :: "string \<Rightarrow> world \<Rightarrow> world" where
  "warning msg w = w\<lparr>logs := log_Warning (now w) msg (logs w)\<rparr>"

definition error_nil :: "string \<Rightarrow> world \<Rightarrow> error option \<times> world" where
  "error_nil msg w =
     (fst (log_Error (now w) msg (logs w)), w\<lparr>logs := snd (log_Error (now w) msg (logs w))\<rparr>)"

definition fatal :: "string \<Rightarrow> world \<Rightarrow> error \<times> world" where
  "fatal msg w =
     (fst (log_Fatal (now w) msg (logs w)), w\<lparr>logs := snd (log_Fatal (now w) msg (logs w))\<rparr>)"

section \<open>The environment and the clock\<close>

fun apply_event :: "env_event \<Rightarrow> world \<Rightarrow> world" where
  "apply_event (SetPhase ns n ph) w =
     w\<lparr>pvcs := (pvcs w)((ns, n) := map_option (\<lambda>p. p\<lparr>phase := ph\<rparr>) (pvcs w (ns, n)))\<rparr>"
| "apply_event (SetReady ns n r) w =
     w\<lparr>deployments := (deployments w)
         (ns := update_named dep_name n (\<lambda>d. d\<lparr>ready_replicas := r, status_replicas := r\<rparr>)
                  (deployments w ns))\<rparr>"
| "apply_event (RemovePVC ns n) w = w\<lparr>pvcs := (pvcs w)((ns, n) := None)\<rparr>"
| "apply_event (RemoveDeployment ns n) w =
     w\<lparr>deployments := (deployments w)
         (ns := filter (\<lambda>d. dep_name d \<noteq> n) (deployments w ns))\<rparr>"

definition due :: "nat \<Rightarrow> (nat \<times> env_event) list \<Rightarrow> env_event list" where
  "due t evs = map snd (filter (\<lambda>e. fst e \<le> t) evs)"

definition pending :: "nat \<Rightarrow> (nat \<times> env_event) list \<Rightarrow> (nat \<times> env_event) list" where
  "pending t evs = filter (\<lambda>e. t < fst e) evs"

definition sleep :: "nat \<Rightarrow> world \<Rightarrow> world" where
  "sleep d w =
     fold apply_event (due (now w + d) (timeline w))
       (w\<lparr>now := now w + d, timeline := pending (now w + d) (timeline w)\<rparr>)"

section \<open>The calls of the API\<close>

definition fault_of :: "world \<Rightarrow> api_error option" where
  "fault_of w = (case faults w of [] \<Rightarrow> None | f # fs \<Rightarrow> f)"

definition called :: "api_call \<Rightarrow> world \<Rightarrow> world" where
  "called c w = w\<lparr>calls := calls w @ [c], faults := tl (faults w)\<rparr>"

definition api_read :: "api_call \<Rightarrow> (world \<Rightarrow> 'a result) \<Rightarrow> world \<Rightarrow> 'a result \<times> world" where
  "api_read c f w =
     (case fault_of w of
        Some e \<Rightarrow> (Inl (Api e), called c w)
      | None \<Rightarrow> (f w, called c w))"

definition list_namespaces :: "world \<Rightarrow> string list result \<times> world" where
  "list_namespaces = api_read ListNamespaces (\<lambda>w. Inr (namespaces w))"

definition list_deployments :: "string \<Rightarrow> world \<Rightarrow> deployment list result \<times> world" where
  "list_deployments ns = api_read (ListDeployments ns) (\<lambda>w. Inr (deployments w ns))"

definition get_deployment :: "string \<Rightarrow> string \<Rightarrow> world \<Rightarrow> deployment result \<times> world" where
  "get_deployment ns n =
     api_read (GetDeployment ns n)
       (\<lambda>w. case find_named dep_name n (deployments w ns) of
               None \<Rightarrow> Inl (Api NotFound)
             | Some d \<Rightarrow> Inr d)"

definition scale_of :: "deployment \<Rightarrow> scale" where
  "scale_of d =
     \<lparr>scale_name = dep_name d,
      scale_replicas = (case spec_replicas d of None \<Rightarrow> 0 | Some r \<Rightarrow> r)\<rparr>"

definition get_scale :: "string \<Rightarrow> string \<Rightarrow> world \<Rightarrow> scale result \<times> world" where
  "get_scale ns n =
     api_read (GetScale ns n)
       (\<lambda>w. case find_named dep_name n (deployments w ns) of
               None \<Rightarrow> Inl (Api NotFound)
             | Some d \<Rightarrow> Inr (scale_of d))"

definition get_pvc :: "string \<Rightarrow> string \<Rightarrow> world \<Rightarrow> pvc result \<times> world" where
  "get_pvc ns n =
     api_read (GetPVC ns n)
       (\<lambda>w. case pvcs w (ns, n) of
               None \<Rightarrow> Inl (Api NotFound)
             | Some p \<Rightarrow> Inr p)"

definition selects :: "(string \<times> string) list \<Rightarrow> labels \<Rightarrow> bool" where
  "selects sel ls = list_all (\<lambda>kv. ls (fst kv) = Some (snd kv)) sel"

text \<open>
  A list of pods carries a label selector as a string. \<open>Some sel\<close> is a string that the
  server parses into the requirements \<open>sel\<close>, \<open>None\<close> one that it does not parse: the
  request is refused.
\<close>

definition list_pods ::
  "string \<Rightarrow> (string \<times> string) list option \<Rightarrow> world \<Rightarrow> pod list result \<times> world" where
  "list_pods ns selector =
     api_read (ListPods ns)
       (\<lambda>w. case selector of
               None \<Rightarrow> Inl (Api BadRequest)
             | Some sel \<Rightarrow> Inr (filter (\<lambda>p. selects sel (pod_labels p)) (pods w ns)))"

definition set_replicas :: "string \<Rightarrow> string \<Rightarrow> int32 \<Rightarrow> world \<Rightarrow> world" where
  "set_replicas ns n r w =
     w\<lparr>deployments := (deployments w)
         (ns := update_named dep_name n (\<lambda>d. d\<lparr>spec_replicas := Some r\<rparr>) (deployments w ns))\<rparr>"

definition update_scale :: "string \<Rightarrow> string \<Rightarrow> scale \<Rightarrow> world \<Rightarrow> scale result \<times> world" where
  "update_scale ns n sc w =
     (case fault_of w of
        Some e \<Rightarrow> (Inl (Api e), called (UpdateScale ns n (scale_replicas sc)) w)
      | None \<Rightarrow>
          (case find_named dep_name n (deployments w ns) of
             None \<Rightarrow> (Inl (Api NotFound), called (UpdateScale ns n (scale_replicas sc)) w)
           | Some d \<Rightarrow>
               (Inr sc,
                set_replicas ns n (scale_replicas sc)
                  (called (UpdateScale ns n (scale_replicas sc)) w))))"

definition put_deployment :: "string \<Rightarrow> deployment \<Rightarrow> world \<Rightarrow> world" where
  "put_deployment ns d w =
     w\<lparr>deployments := (deployments w)
         (ns := update_named dep_name (dep_name d)
                  (\<lambda>old. d\<lparr>status_replicas := status_replicas old,
                            ready_replicas := ready_replicas old\<rparr>)
                  (deployments w ns))\<rparr>"

definition update_deployment :: "string \<Rightarrow> deployment \<Rightarrow> world \<Rightarrow> deployment result \<times> world" where
  "update_deployment ns d w =
     (case fault_of w of
        Some e \<Rightarrow> (Inl (Api e), called (UpdateDeployment ns (dep_name d)) w)
      | None \<Rightarrow>
          (case find_named dep_name (dep_name d) (deployments w ns) of
             None \<Rightarrow> (Inl (Api NotFound), called (UpdateDeployment ns (dep_name d)) w)
           | Some old \<Rightarrow>
               (Inr d, put_deployment ns d (called (UpdateDeployment ns (dep_name d)) w))))"

definition put_pvc :: "string \<Rightarrow> pvc \<Rightarrow> world \<Rightarrow> world" where
  "put_pvc ns p w =
     w\<lparr>pvcs := (pvcs w)((ns, pvc_name p) :=
         map_option (\<lambda>old. p\<lparr>phase := phase old\<rparr>) (pvcs w (ns, pvc_name p)))\<rparr>"

definition update_pvc :: "string \<Rightarrow> pvc \<Rightarrow> world \<Rightarrow> pvc result \<times> world" where
  "update_pvc ns p w =
     (case fault_of w of
        Some e \<Rightarrow> (Inl (Api e), called (UpdatePVC ns (pvc_name p)) w)
      | None \<Rightarrow>
          (case pvcs w (ns, pvc_name p) of
             None \<Rightarrow> (Inl (Api NotFound), called (UpdatePVC ns (pvc_name p)) w)
           | Some old \<Rightarrow> (Inr p, put_pvc ns p (called (UpdatePVC ns (pvc_name p)) w))))"

section \<open>Reading the world\<close>

definition storage_request :: "pvc \<Rightarrow> int64" where
  "storage_request p =
     (case requests p of
        None \<Rightarrow> 0
      | Some m \<Rightarrow> (case m ResourceStorage of None \<Rightarrow> 0 | Some q \<Rightarrow> q))"

definition claim_size :: "world \<Rightarrow> string \<Rightarrow> string \<Rightarrow> int64 option" where
  "claim_size w ns n = map_option storage_request (pvcs w (ns, n))"

definition replicas_of :: "world \<Rightarrow> string \<Rightarrow> string \<Rightarrow> int32 option" where
  "replicas_of w ns n =
     Option.bind (find_named dep_name n (deployments w ns)) spec_replicas"

definition is_update_scale :: "api_call \<Rightarrow> bool" where
  "is_update_scale c = (case c of UpdateScale ns n r \<Rightarrow> True | _ \<Rightarrow> False)"

definition is_write :: "api_call \<Rightarrow> bool" where
  "is_write c =
     (case c of
        UpdateScale ns n r \<Rightarrow> True
      | UpdateDeployment ns n \<Rightarrow> True
      | UpdatePVC ns n \<Rightarrow> True
      | _ \<Rightarrow> False)"

text \<open>The next \<open>k\<close> calls of the API go through.\<close>

definition no_fault :: "nat \<Rightarrow> world \<Rightarrow> bool" where
  "no_fault k w = list_all (\<lambda>f. f = None) (take k (faults w))"

text \<open>The calls made between two worlds of one run.\<close>

definition calls_since :: "world \<Rightarrow> world \<Rightarrow> api_call list" where
  "calls_since w w' = drop (length (calls w)) (calls w')"

definition logs_since :: "world \<Rightarrow> world \<Rightarrow> logger" where
  "logs_since w w' = drop (length (logs w)) (logs w')"

section \<open>Well-formed worlds\<close>

definition wf_deployments :: "deployment list \<Rightarrow> bool" where
  "wf_deployments ds \<longleftrightarrow>
     distinct (map dep_name ds) \<and> list_all (\<lambda>d. spec_replicas d \<noteq> None) ds"

definition wf_pvc :: "string \<Rightarrow> pvc \<Rightarrow> bool" where
  "wf_pvc n p \<longleftrightarrow> pvc_name p = n \<and> requests p \<noteq> None"

definition wf_world :: "world \<Rightarrow> bool" where
  "wf_world w \<longleftrightarrow>
     (\<forall>ns. wf_deployments (deployments w ns)) \<and>
     (\<forall>ns n p. pvcs w (ns, n) = Some p \<longrightarrow> wf_pvc n p)"

text \<open>The timeline lists the actions of the environment in the order of their times.\<close>

definition scheduled :: "world \<Rightarrow> bool" where
  "scheduled w \<longleftrightarrow> sorted (map fst (timeline w))"

section \<open>Example worlds\<close>

text \<open>
  A cluster with one namespace \<open>ns1\<close>, one enabled deployment \<open>web\<close> with two replicas
  that mounts the claim \<open>data-pvc\<close> of 10Gi, and one pod. It is the cluster of the
  scenarios of the specification and instantiates the theorems below.
\<close>

definition web :: deployment where
  "web = \<lparr>dep_name = ''web'',
           dep_annotations = [''autoscaler/enabled'' \<mapsto> ''true''],
           spec_replicas = Some 2,
           spec_selector = [(''app'', ''web'')],
           template_annotations = Map.empty,
           template_volumes = [\<lparr>volume_name = ''data'', claim_name = Some ''data-pvc''\<rparr>],
           status_replicas = 2,
           ready_replicas = 2\<rparr>"

definition data_pvc :: pvc where
  "data_pvc = \<lparr>pvc_name = ''data-pvc'',
                requests = Some [ResourceStorage \<mapsto> 10737418240],
                phase = ClaimBound\<rparr>"

definition web_pod :: pod where
  "web_pod = \<lparr>pod_name = ''web-0'', pod_namespace = ''ns1'',
               pod_labels = [''app'' \<mapsto> ''web'']\<rparr>"

definition world0 :: world where
  "world0 = \<lparr>namespaces = [''ns1''],
              deployments = (\<lambda>ns. if ns = ''ns1'' then [web] else []),
              pvcs = [(''ns1'', ''data-pvc'') \<mapsto> data_pvc],
              pods = (\<lambda>ns. if ns = ''ns1'' then [web_pod] else []),
              faults = [],
              timeline = [],
              now = 0,
              calls = [],
              logs = []\<rparr>"

lemmas world0_defs = world0_def web_def data_pvc_def web_pod_def ResourceStorage_def
  ClaimBound_def

section \<open>Lemmas: logging changes the log only\<close>

lemmas logging_defs = info_def warning_def error_nil_def fatal_def

lemma info_frame [simp, frame]:
  "namespaces (info msg w) = namespaces w"
  "deployments (info msg w) = deployments w"
  "pvcs (info msg w) = pvcs w"
  "pods (info msg w) = pods w"
  "faults (info msg w) = faults w"
  "timeline (info msg w) = timeline w"
  "now (info msg w) = now w"
  "calls (info msg w) = calls w"
  by (simp_all add: info_def)

lemma warning_frame [simp, frame]:
  "namespaces (warning msg w) = namespaces w"
  "deployments (warning msg w) = deployments w"
  "pvcs (warning msg w) = pvcs w"
  "pods (warning msg w) = pods w"
  "faults (warning msg w) = faults w"
  "timeline (warning msg w) = timeline w"
  "now (warning msg w) = now w"
  "calls (warning msg w) = calls w"
  by (simp_all add: warning_def)

lemma error_nil_frame [simp, frame]:
  "fst (error_nil msg w) = None"
  "namespaces (snd (error_nil msg w)) = namespaces w"
  "deployments (snd (error_nil msg w)) = deployments w"
  "pvcs (snd (error_nil msg w)) = pvcs w"
  "pods (snd (error_nil msg w)) = pods w"
  "faults (snd (error_nil msg w)) = faults w"
  "timeline (snd (error_nil msg w)) = timeline w"
  "now (snd (error_nil msg w)) = now w"
  "calls (snd (error_nil msg w)) = calls w"
  by (simp_all add: error_nil_def)

lemma fatal_frame [simp, frame]:
  "fst (fatal msg w) = ProcessExit 1"
  "namespaces (snd (fatal msg w)) = namespaces w"
  "deployments (snd (fatal msg w)) = deployments w"
  "pvcs (snd (fatal msg w)) = pvcs w"
  "pods (snd (fatal msg w)) = pods w"
  "faults (snd (fatal msg w)) = faults w"
  "timeline (snd (fatal msg w)) = timeline w"
  "now (snd (fatal msg w)) = now w"
  "calls (snd (fatal msg w)) = calls w"
  by (simp_all add: fatal_def)

lemma logs_logging [simp]:
  "logs (info msg w) = logs w @ [format_line INFO (now w) msg]"
  "logs (warning msg w) = logs w @ [format_line WARNING (now w) msg]"
  "logs (snd (error_nil msg w)) = logs w @ [format_line ERROR (now w) msg]"
  "logs (snd (fatal msg w)) = logs w @ [format_line FATAL (now w) msg]"
  by (simp_all add: logging_defs log_defs)

section \<open>Lemmas: the API\<close>

lemma called_frame [simp, frame]:
  "namespaces (called c w) = namespaces w"
  "deployments (called c w) = deployments w"
  "pvcs (called c w) = pvcs w"
  "pods (called c w) = pods w"
  "timeline (called c w) = timeline w"
  "now (called c w) = now w"
  "logs (called c w) = logs w"
  by (simp_all add: called_def)

lemma called_calls [simp]: "calls (called c w) = calls w @ [c]"
  by (simp add: called_def)

lemma called_faults [simp]: "faults (called c w) = tl (faults w)"
  by (simp add: called_def)

lemma fault_of_simps [simp]:
  "faults w = [] \<Longrightarrow> fault_of w = None"
  "faults w = f # fs \<Longrightarrow> fault_of w = f"
  by (simp_all add: fault_of_def)

lemma fault_of_logging [simp]:
  "fault_of (info msg w) = fault_of w"
  "fault_of (warning msg w) = fault_of w"
  "fault_of (snd (error_nil msg w)) = fault_of w"
  "fault_of (snd (fatal msg w)) = fault_of w"
  by (simp_all add: fault_of_def)

lemma fault_of_called: "fault_of (called c w) = (case tl (faults w) of [] \<Rightarrow> None | f # fs \<Rightarrow> f)"
  by (simp add: fault_of_def)

lemma no_fault_0 [simp]: "no_fault 0 w"
  by (simp add: no_fault_def)

lemma no_fault_Suc:
  "no_fault (Suc k) w \<longleftrightarrow> fault_of w = None \<and> no_fault k (called c w)"
  by (cases "faults w") (simp_all add: no_fault_def fault_of_def)

lemma no_fault_empty [simp]: "faults w = [] \<Longrightarrow> no_fault k w"
  by (simp add: no_fault_def)

lemma no_fault_first: "no_fault (Suc k) w \<Longrightarrow> fault_of w = None"
  by (cases "faults w") (simp_all add: no_fault_def fault_of_def)

lemma no_fault_next: "no_fault (Suc k) w \<Longrightarrow> no_fault k (called c w)"
  using no_fault_Suc by blast

lemma no_fault_logging [simp]:
  "no_fault k (info msg w) = no_fault k w"
  "no_fault k (warning msg w) = no_fault k w"
  "no_fault k (snd (error_nil msg w)) = no_fault k w"
  "no_fault k (snd (fatal msg w)) = no_fault k w"
  by (simp_all add: no_fault_def)

lemma storage_request_phase [simp]: "storage_request (p\<lparr>phase := ph\<rparr>) = storage_request p"
  by (simp add: storage_request_def)

lemma calls_since_self [simp]: "calls_since w w = []"
  by (simp add: calls_since_def)

lemma calls_since_append [simp]: "calls w' = calls w @ cs \<Longrightarrow> calls_since w w' = cs"
  by (simp add: calls_since_def)

lemma logs_since_append [simp]: "logs w' = logs w @ ls \<Longrightarrow> logs_since w w' = ls"
  by (simp add: logs_since_def)

lemma api_read_world [simp]: "snd (api_read c f w) = called c w"
  by (simp add: api_read_def split: option.split)

lemma api_read_result [simp]:
  "fst (api_read c f w) = (case fault_of w of Some e \<Rightarrow> Inl (Api e) | None \<Rightarrow> f w)"
  by (simp add: api_read_def split: option.split)

lemmas read_defs [api_defs] = list_namespaces_def list_deployments_def get_deployment_def
  get_scale_def get_pvc_def list_pods_def

lemma read_world [simp]:
  "snd (list_namespaces w) = called ListNamespaces w"
  "snd (list_deployments ns w) = called (ListDeployments ns) w"
  "snd (get_deployment ns n w) = called (GetDeployment ns n) w"
  "snd (get_scale ns n w) = called (GetScale ns n) w"
  "snd (get_pvc ns n w) = called (GetPVC ns n) w"
  "snd (list_pods ns sel w) = called (ListPods ns) w"
  by (simp_all add: read_defs)

lemma set_replicas_frame [simp, frame]:
  "namespaces (set_replicas ns n r w) = namespaces w"
  "pvcs (set_replicas ns n r w) = pvcs w"
  "pods (set_replicas ns n r w) = pods w"
  "faults (set_replicas ns n r w) = faults w"
  "timeline (set_replicas ns n r w) = timeline w"
  "now (set_replicas ns n r w) = now w"
  "calls (set_replicas ns n r w) = calls w"
  "logs (set_replicas ns n r w) = logs w"
  by (simp_all add: set_replicas_def)

lemma put_deployment_frame [simp, frame]:
  "namespaces (put_deployment ns d w) = namespaces w"
  "pvcs (put_deployment ns d w) = pvcs w"
  "pods (put_deployment ns d w) = pods w"
  "faults (put_deployment ns d w) = faults w"
  "timeline (put_deployment ns d w) = timeline w"
  "now (put_deployment ns d w) = now w"
  "calls (put_deployment ns d w) = calls w"
  "logs (put_deployment ns d w) = logs w"
  by (simp_all add: put_deployment_def)

lemma put_pvc_frame [simp, frame]:
  "namespaces (put_pvc ns p w) = namespaces w"
  "deployments (put_pvc ns p w) = deployments w"
  "pods (put_pvc ns p w) = pods w"
  "faults (put_pvc ns p w) = faults w"
  "timeline (put_pvc ns p w) = timeline w"
  "now (put_pvc ns p w) = now w"
  "calls (put_pvc ns p w) = calls w"
  "logs (put_pvc ns p w) = logs w"
  by (simp_all add: put_pvc_def)

lemma update_scale_frame [simp, frame]:
  "namespaces (snd (update_scale ns n sc w)) = namespaces w"
  "pvcs (snd (update_scale ns n sc w)) = pvcs w"
  "pods (snd (update_scale ns n sc w)) = pods w"
  "faults (snd (update_scale ns n sc w)) = tl (faults w)"
  "timeline (snd (update_scale ns n sc w)) = timeline w"
  "now (snd (update_scale ns n sc w)) = now w"
  "calls (snd (update_scale ns n sc w)) = calls w @ [UpdateScale ns n (scale_replicas sc)]"
  "logs (snd (update_scale ns n sc w)) = logs w"
  by (simp_all add: update_scale_def split: option.split)

lemma update_pvc_frame [simp, frame]:
  "namespaces (snd (update_pvc ns p w)) = namespaces w"
  "deployments (snd (update_pvc ns p w)) = deployments w"
  "pods (snd (update_pvc ns p w)) = pods w"
  "faults (snd (update_pvc ns p w)) = tl (faults w)"
  "timeline (snd (update_pvc ns p w)) = timeline w"
  "now (snd (update_pvc ns p w)) = now w"
  "calls (snd (update_pvc ns p w)) = calls w @ [UpdatePVC ns (pvc_name p)]"
  "logs (snd (update_pvc ns p w)) = logs w"
  by (simp_all add: update_pvc_def split: option.split)

lemma update_deployment_frame [simp, frame]:
  "namespaces (snd (update_deployment ns d w)) = namespaces w"
  "pvcs (snd (update_deployment ns d w)) = pvcs w"
  "pods (snd (update_deployment ns d w)) = pods w"
  "faults (snd (update_deployment ns d w)) = tl (faults w)"
  "timeline (snd (update_deployment ns d w)) = timeline w"
  "now (snd (update_deployment ns d w)) = now w"
  "calls (snd (update_deployment ns d w)) = calls w @ [UpdateDeployment ns (dep_name d)]"
  "logs (snd (update_deployment ns d w)) = logs w"
  by (simp_all add: update_deployment_def split: option.split)

lemma update_scale_ok:
  assumes "fault_of w = None"
    and "find_named dep_name n (deployments w ns) = Some d"
  shows "update_scale ns n sc w =
           (Inr sc, set_replicas ns n (scale_replicas sc)
                      (called (UpdateScale ns n (scale_replicas sc)) w))"
  using assms by (simp add: update_scale_def)

lemma update_scale_fault:
  assumes "fault_of w = Some e"
  shows "update_scale ns n sc w = (Inl (Api e), called (UpdateScale ns n (scale_replicas sc)) w)"
  using assms by (simp add: update_scale_def)

lemma update_scale_missing:
  assumes "fault_of w = None" and "find_named dep_name n (deployments w ns) = None"
  shows "update_scale ns n sc w =
           (Inl (Api NotFound), called (UpdateScale ns n (scale_replicas sc)) w)"
  using assms by (simp add: update_scale_def)

lemma update_scale_failed_deployments:
  "fst (update_scale ns n sc w) = Inl e \<Longrightarrow>
     deployments (snd (update_scale ns n sc w)) = deployments w"
  by (auto simp: update_scale_def split: option.splits)

lemma deployments_set_replicas:
  "deployments (set_replicas ns n r w) ns' =
     (if ns' = ns
      then update_named dep_name n (\<lambda>d. d\<lparr>spec_replicas := Some r\<rparr>) (deployments w ns)
      else deployments w ns')"
  by (simp add: set_replicas_def)

lemma pvcs_put_pvc:
  "pvcs (put_pvc ns p w) k =
     (if k = (ns, pvc_name p)
      then map_option (\<lambda>old. p\<lparr>phase := phase old\<rparr>) (pvcs w k)
      else pvcs w k)"
  by (simp add: put_pvc_def)

section \<open>Lemmas: the clock and the environment\<close>

lemma apply_event_frame [simp, frame]:
  "namespaces (apply_event e w) = namespaces w"
  "pods (apply_event e w) = pods w"
  "faults (apply_event e w) = faults w"
  "timeline (apply_event e w) = timeline w"
  "now (apply_event e w) = now w"
  "calls (apply_event e w) = calls w"
  "logs (apply_event e w) = logs w"
  by (cases e; simp)+

lemma fold_apply_event_frame [simp, frame]:
  "namespaces (fold apply_event es w) = namespaces w"
  "pods (fold apply_event es w) = pods w"
  "faults (fold apply_event es w) = faults w"
  "timeline (fold apply_event es w) = timeline w"
  "now (fold apply_event es w) = now w"
  "calls (fold apply_event es w) = calls w"
  "logs (fold apply_event es w) = logs w"
  by (induction es arbitrary: w; simp)+

lemma sleep_frame [simp, frame]:
  "namespaces (sleep d w) = namespaces w"
  "pods (sleep d w) = pods w"
  "faults (sleep d w) = faults w"
  "calls (sleep d w) = calls w"
  "logs (sleep d w) = logs w"
  by (simp_all add: sleep_def)

lemma now_sleep [simp]: "now (sleep d w) = now w + d"
  by (simp add: sleep_def)

lemma timeline_sleep [simp]: "timeline (sleep d w) = pending (now w + d) (timeline w)"
  by (simp add: sleep_def)

lemma sleep_quiet [simp]:
  "timeline w = [] \<Longrightarrow> sleep d w = w\<lparr>now := now w + d\<rparr>"
  by (simp add: sleep_def due_def pending_def)

lemma due_Nil [simp]: "due t [] = []"
  by (simp add: due_def)

lemma pending_Nil [simp]: "pending t [] = []"
  by (simp add: pending_def)

lemma due_Cons [simp]:
  "due t (e # es) = (if fst e \<le> t then snd e # due t es else due t es)"
  by (simp add: due_def)

lemma pending_Cons [simp]:
  "pending t (e # es) = (if t < fst e then e # pending t es else pending t es)"
  by (simp add: pending_def)

lemma pending_pending: "t \<le> t' \<Longrightarrow> pending t' (pending t evs) = pending t' evs"
  by (induction evs) auto

text \<open>
  With a timeline in the order of its times, sleeping in two pieces is sleeping once: the
  clock of the model does not depend on how the program divides its waiting.
\<close>

lemma due_split:
  assumes "sorted (map fst evs)" and "t \<le> t'"
  shows "due t' evs = due t evs @ due t' (pending t evs)"
  using assms
proof (induction evs)
  case Nil
  show ?case by simp
next
  case (Cons e evs)
  show ?case
  proof (cases "fst e \<le> t")
    case True
    with Cons show ?thesis by simp
  next
    case False
    with Cons.prems have "\<forall>x \<in> set evs. t < fst x"
      by force
    then have "due t evs = []" "pending t evs = evs"
      by (simp_all add: due_def pending_def filter_empty_conv filter_id_conv not_le)
    with False Cons.prems show ?thesis by simp
  qed
qed

lemma apply_event_clock:
  "apply_event e (w\<lparr>now := t, timeline := evs\<rparr>) = (apply_event e w)\<lparr>now := t, timeline := evs\<rparr>"
  by (cases e) simp_all

lemma fold_apply_event_clock:
  "fold apply_event es (w\<lparr>now := t, timeline := evs\<rparr>) =
     (fold apply_event es w)\<lparr>now := t, timeline := evs\<rparr>"
  by (induction es arbitrary: w) (simp_all add: apply_event_clock)

lemma sleep_eq:
  "sleep d w =
     (fold apply_event (due (now w + d) (timeline w)) w)
       \<lparr>now := now w + d, timeline := pending (now w + d) (timeline w)\<rparr>"
  by (simp add: sleep_def fold_apply_event_clock)

lemma sleep_add:
  assumes "scheduled w"
  shows "sleep b (sleep a w) = sleep (a + b) w"
proof -
  let ?es1 = "due (now w + a) (timeline w)"
  let ?es2 = "due (now w + a + b) (pending (now w + a) (timeline w))"
  have "sleep b (sleep a w) =
          (fold apply_event ?es2 (sleep a w))
            \<lparr>now := now w + a + b, timeline := pending (now w + a + b) (timeline w)\<rparr>"
    by (simp add: sleep_eq [of b] pending_pending)
  also have "fold apply_event ?es2 (sleep a w) =
      (fold apply_event (?es1 @ ?es2) w)
        \<lparr>now := now w + a, timeline := pending (now w + a) (timeline w)\<rparr>"
    by (simp add: sleep_eq [of a] fold_apply_event_clock)
  also have "?es1 @ ?es2 = due (now w + a + b) (timeline w)"
    using assms by (intro due_split [symmetric]) (simp_all add: scheduled_def)
  finally show ?thesis
    by (simp add: sleep_eq [of "a + b"] add.assoc)
qed

lemma scheduled_sleep [simp]: "scheduled w \<Longrightarrow> scheduled (sleep d w)"
  by (simp add: scheduled_def pending_def sorted_filter)

lemma scheduled_books [simp]:
  "scheduled (info msg w) = scheduled w"
  "scheduled (called c w) = scheduled w"
  "scheduled (snd (error_nil msg w)) = scheduled w"
  by (simp_all add: scheduled_def)

section \<open>Lemmas: well-formed worlds\<close>

lemma wf_deployments_Nil [simp]: "wf_deployments []"
  by (simp add: wf_deployments_def)

lemma wf_deployments_update:
  assumes wf: "wf_deployments ds" and nm: "\<And>d. dep_name d = n \<Longrightarrow> dep_name (f d) = n"
    and rep: "\<And>d. spec_replicas d \<noteq> None \<Longrightarrow> spec_replicas (f d) \<noteq> None"
  shows "wf_deployments (update_named dep_name n f ds)"
proof -
  have "map dep_name (update_named dep_name n f ds) = map dep_name ds"
    by (rule names_update_named) (rule nm)
  moreover have "list_all (\<lambda>d. spec_replicas d \<noteq> None) (update_named dep_name n f ds)"
    using wf rep by (induction ds) (auto simp: wf_deployments_def)
  ultimately show ?thesis
    using wf by (simp add: wf_deployments_def)
qed

lemma wf_deployments_filter: "wf_deployments ds \<Longrightarrow> wf_deployments (filter P ds)"
  by (auto simp: wf_deployments_def list_all_iff distinct_map_filter)

lemma wf_world_logs [simp, wf_intros]:
  "wf_world (info msg w) = wf_world w"
  "wf_world (warning msg w) = wf_world w"
  "wf_world (snd (error_nil msg w)) = wf_world w"
  "wf_world (snd (fatal msg w)) = wf_world w"
  by (simp_all add: wf_world_def)

lemma wf_world_called [simp, wf_intros]: "wf_world (called c w) = wf_world w"
  by (simp add: wf_world_def)

lemma wf_world_apply_event [wf_intros]: "wf_world w \<Longrightarrow> wf_world (apply_event e w)"
  by (cases e)
    (auto simp: wf_world_def wf_pvc_def intro!: wf_deployments_update wf_deployments_filter
      split: if_splits)

lemma wf_world_fold_events [wf_intros]: "wf_world w \<Longrightarrow> wf_world (fold apply_event es w)"
  by (induction es arbitrary: w) (simp_all add: wf_world_apply_event)

lemma wf_world_clock: "wf_world (w\<lparr>now := t, timeline := evs\<rparr>) = wf_world w"
  by (simp add: wf_world_def)

lemma wf_world_sleep [wf_intros]: "wf_world w \<Longrightarrow> wf_world (sleep d w)"
  unfolding sleep_def by (rule wf_world_fold_events) (simp add: wf_world_clock)

lemma wf_world_set_replicas [wf_intros]: "wf_world w \<Longrightarrow> wf_world (set_replicas ns n r w)"
  by (auto simp: wf_world_def set_replicas_def intro!: wf_deployments_update)

lemma wf_world_update_scale [wf_intros]:
  "wf_world w \<Longrightarrow> wf_world (snd (update_scale ns n sc w))"
  by (simp add: update_scale_def wf_world_set_replicas split: option.split)

lemma wf_world_put_deployment [wf_intros]:
  "wf_world w \<Longrightarrow> spec_replicas d \<noteq> None \<Longrightarrow> wf_world (put_deployment ns d w)"
  by (auto simp: wf_world_def put_deployment_def intro!: wf_deployments_update)

lemma wf_world_update_deployment [wf_intros]:
  "wf_world w \<Longrightarrow> spec_replicas d \<noteq> None \<Longrightarrow> wf_world (snd (update_deployment ns d w))"
  by (simp add: update_deployment_def wf_world_put_deployment split: option.split)

lemma wf_world_put_pvc [wf_intros]:
  "wf_world w \<Longrightarrow> requests p \<noteq> None \<Longrightarrow> wf_world (put_pvc ns p w)"
  by (auto simp: wf_world_def put_pvc_def wf_pvc_def)

lemma wf_world_update_pvc [wf_intros]:
  "wf_world w \<Longrightarrow> requests p \<noteq> None \<Longrightarrow> wf_world (snd (update_pvc ns p w))"
  by (simp add: update_pvc_def wf_world_put_pvc split: option.split)

lemma wf_world_pvcD:
  assumes "wf_world w" and "pvcs w (ns, n) = Some p"
  obtains m where "pvc_name p = n" and "requests p = Some m"
  using assms unfolding wf_world_def wf_pvc_def by blast

lemma wf_world_deploymentD:
  assumes "wf_world w" and "d \<in> set (deployments w ns)"
  obtains r where "spec_replicas d = Some r"
  using assms unfolding wf_world_def wf_deployments_def list_all_iff by blast

lemma wf_world_distinct: "wf_world w \<Longrightarrow> distinct (map dep_name (deployments w ns))"
  unfolding wf_world_def wf_deployments_def by blast

lemma wf_world0: "wf_world world0"
  by (simp add: wf_world_def wf_deployments_def wf_pvc_def world0_defs)

lemma world0_fields [simp]:
  "namespaces world0 = [''ns1'']" "faults world0 = []" "timeline world0 = []"
  "now world0 = 0" "calls world0 = []" "logs world0 = []"
  "find_named dep_name ''web'' (deployments world0 ''ns1'') = Some web"
  "pvcs world0 (''ns1'', ''data-pvc'') = Some data_pvc"
  by (simp_all add: world0_defs)

end
