(* ===== verification/PVC.thy ===== *)
theory PVC
  imports Cluster
begin

text \<open>
  The storage actuator, \<open>src/pkg/kubernetes/pvc\<close>: \<open>ResizePVC\<close> (\<open>resize.go\<close>) reads a
  claim, raises its storage request by one half and writes it back with one update;
  \<open>CheckPVCExists\<close> (\<open>check_exists.go\<close>) reports whether a claim exists.

  \<open>new_size\<close> is the arithmetic of \<open>ResizePVC\<close> at its width: \<open>int64\<close> addition wraps and
  \<open>/\<close> truncates. The lemmas give its value where it does not overflow, show that in
  that range a resize never shrinks a claim, and show that beyond it the new size is
  negative. \<open>ResizePVC\<close> itself is characterised on each of its branches: success, claim
  not found, failed read, failed update (never retried), and the write to a \<open>nil\<close>
  request map.
\<close>

section \<open>Definitions\<close>

definition new_size :: "int64 \<Rightarrow> int64" where
  "new_size currentSizeValue = currentSizeValue + go_quot currentSizeValue 2"

definition with_storage :: "int64 \<Rightarrow> pvc \<Rightarrow> (string \<rightharpoonup> int64) \<Rightarrow> pvc" where
  "with_storage q p m = p\<lparr>requests := Some (m(ResourceStorage \<mapsto> q))\<rparr>"

definition ResizePVC :: "string \<Rightarrow> string \<Rightarrow> world \<Rightarrow> unit result \<times> world" where
  "ResizePVC pvcName namespace w =
     (case get_pvc namespace pvcName w of
        (Inl e, w1) \<Rightarrow>
          if is_not_found e then (Inl (PVCNotFound pvcName namespace), w1)
          else (Inl (PVCGetError pvcName e), w1)
      | (Inr p, w1) \<Rightarrow>
          (case requests p of
             None \<Rightarrow> (Inl (Panic ''assignment to entry in nil map''), w1)
           | Some m \<Rightarrow>
               (case update_pvc namespace (with_storage (new_size (storage_request p)) p m) w1 of
                  (Inl e, w2) \<Rightarrow> (Inl (PVCUpdateError pvcName e), w2)
                | (Inr p', w2) \<Rightarrow> (Inr (), w2))))"

definition CheckPVCExists :: "string \<Rightarrow> string \<Rightarrow> world \<Rightarrow> bool result \<times> world" where
  "CheckPVCExists pvcName namespace w =
     (case get_pvc namespace pvcName (info ''Checking if PVC %s exists in namespace %s'' w) of
        (Inl e, w1) \<Rightarrow>
          if is_not_found e then (Inr False, info ''PVC %s not found in namespace %s'' w1)
          else (Inl e, snd (error_nil ''Error checking PVC %s in namespace %s: %v'' w1))
      | (Inr p, w1) \<Rightarrow> (Inr True, info ''PVC %s exists in namespace %s'' w1))"

text \<open>The largest size that a resize does not overflow.\<close>

definition max_resizable :: int where
  "max_resizable = 6148914691236517205"

section \<open>The arithmetic of a resize\<close>

lemma sint_new_size:
  assumes "0 \<le> sint s" and "sint s \<le> max_resizable"
  shows "sint (new_size s) = sint s + sint s div 2"
proof -
  have q: "sint (go_quot s 2) = sint s div 2"
    using assms(1) by (simp add: sint_go_quot_two sdiv_two_nonneg)
  have "sint s + sint s div 2 < 2 ^ (LENGTH(64) - 1)"
    using assms by (simp add: max_resizable_def)
  moreover have "- (2 ^ (LENGTH(64) - 1)) \<le> sint s + sint s div 2"
    using assms(1) by simp
  ultimately show ?thesis
    unfolding new_size_def using sint_add_in_range [of s "go_quot s 2"] q by simp
qed

lemma new_size_grows:
  assumes "0 \<le> sint s" and "sint s \<le> max_resizable"
  shows "s \<le>s new_size s"
  using assms by (simp add: word_sle_eq sint_new_size)

lemma new_size_strictly_grows:
  assumes "2 \<le> sint s" and "sint s \<le> max_resizable"
  shows "s <s new_size s"
  using assms by (simp add: word_sless_alt sint_new_size)

lemma new_size_overflows:
  assumes "max_resizable < sint s"
  shows "sint (new_size s) < 0"
proof -
  have r: "sint s < 2 ^ 63"
    using sint_int64_range [of s] by simp
  have q: "sint (go_quot s 2) = sint s div 2"
    using assms by (simp add: sint_go_quot_two sdiv_two_nonneg max_resizable_def)
  have "sint (new_size s) = signed_take_bit 63 (sint s + sint s div 2)"
    by (simp add: new_size_def sint_word_ariths q)
  also have "\<dots> = sint s + sint s div 2 - 2 ^ Suc 63"
    using assms r by (intro signed_take_bit_wraps) (simp_all add: max_resizable_def)
  finally show ?thesis using r by simp
qed

lemma new_size_small: "new_size 0 = 0" "new_size 1 = 1"
  by (simp_all add: new_size_def go_quot_def signed_divide_int_def)

section \<open>Unfolding \<open>ResizePVC\<close> branch by branch\<close>

lemma ResizePVC_read_fault:
  assumes "fault_of w = Some e"
  shows "ResizePVC n ns w =
           (Inl (if e = NotFound then PVCNotFound n ns else PVCGetError n (Api e)),
            called (GetPVC ns n) w)"
  using assms by (cases e) (simp_all add: ResizePVC_def get_pvc_def api_read_def)

lemma ResizePVC_missing:
  assumes "fault_of w = None" and "pvcs w (ns, n) = None"
  shows "ResizePVC n ns w = (Inl (PVCNotFound n ns), called (GetPVC ns n) w)"
  using assms by (simp add: ResizePVC_def get_pvc_def api_read_def)

lemma ResizePVC_nil_map:
  assumes "fault_of w = None" and "pvcs w (ns, n) = Some p" and "requests p = None"
  shows "ResizePVC n ns w =
           (Inl (Panic ''assignment to entry in nil map''), called (GetPVC ns n) w)"
  using assms by (simp add: ResizePVC_def get_pvc_def api_read_def)

lemma ResizePVC_write:
  assumes "fault_of w = None" and "pvcs w (ns, n) = Some p" and "requests p = Some m"
  shows "ResizePVC n ns w =
           (case update_pvc ns (with_storage (new_size (storage_request p)) p m)
                   (called (GetPVC ns n) w) of
              (Inl e, w2) \<Rightarrow> (Inl (PVCUpdateError n e), w2)
            | (Inr p', w2) \<Rightarrow> (Inr (), w2))"
  using assms by (simp add: ResizePVC_def get_pvc_def api_read_def)

lemma with_storage_simps [simp]:
  "pvc_name (with_storage q p m) = pvc_name p"
  "phase (with_storage q p m) = phase p"
  "requests (with_storage q p m) \<noteq> None"
  "storage_request (with_storage q p m) = q"
  by (simp_all add: with_storage_def storage_request_def)

lemma ResizePVC_cases:
  obtains (read_fault) e where "fault_of w = Some e"
  | (missing) "fault_of w = None" "pvcs w (ns, n) = None"
  | (nil_map) p where "fault_of w = None" "pvcs w (ns, n) = Some p" "requests p = None"
  | (stored) p m where "fault_of w = None" "pvcs w (ns, n) = Some p" "requests p = Some m"
  by (cases "fault_of w"; cases "pvcs w (ns, n)"; force)

section \<open>What a resize leaves alone\<close>

lemma ResizePVC_frame [simp, frame]:
  "namespaces (snd (ResizePVC n ns w)) = namespaces w"
  "deployments (snd (ResizePVC n ns w)) = deployments w"
  "pods (snd (ResizePVC n ns w)) = pods w"
  "timeline (snd (ResizePVC n ns w)) = timeline w"
  "now (snd (ResizePVC n ns w)) = now w"
  "logs (snd (ResizePVC n ns w)) = logs w"
  by (cases rule: ResizePVC_cases [where w = w and ns = ns and n = n];
      simp add: ResizePVC_read_fault ResizePVC_missing ResizePVC_nil_map ResizePVC_write
        update_pvc_def split: option.split)+

lemma ResizePVC_other_claims:
  assumes "k \<noteq> (ns, n)" and "wf_world w"
  shows "pvcs (snd (ResizePVC n ns w)) k = pvcs w k"
proof (cases rule: ResizePVC_cases [where w = w and ns = ns and n = n])
  case (stored p m)
  from assms(2) stored(2) have "pvc_name p = n"
    by (rule wf_world_pvcD)
  with stored assms(1) show ?thesis
    by (simp add: ResizePVC_write update_pvc_def pvcs_put_pvc split: option.split)
qed (simp_all add: ResizePVC_read_fault ResizePVC_missing ResizePVC_nil_map)

lemma wf_world_ResizePVC [wf_intros]:
  assumes "wf_world w"
  shows "wf_world (snd (ResizePVC n ns w))"
proof (cases rule: ResizePVC_cases [where w = w and ns = ns and n = n])
  case (stored p m)
  have "wf_world (snd (update_pvc ns (with_storage (new_size (storage_request p)) p m)
          (called (GetPVC ns n) w)))"
    using assms by (intro wf_world_update_pvc) simp_all
  with stored show ?thesis
    by (simp add: ResizePVC_write)
qed (simp_all add: assms ResizePVC_read_fault ResizePVC_missing ResizePVC_nil_map)

lemma ResizePVC_calls:
  "calls (snd (ResizePVC n ns w)) = calls w @ [GetPVC ns n] \<or>
   (\<exists>n'. calls (snd (ResizePVC n ns w)) = calls w @ [GetPVC ns n, UpdatePVC ns n'])"
proof (cases rule: ResizePVC_cases [where w = w and ns = ns and n = n])
  case (stored p m)
  then show ?thesis
    by (simp add: ResizePVC_write)
qed (simp_all add: ResizePVC_read_fault ResizePVC_missing ResizePVC_nil_map)

lemma ResizePVC_failed_claims:
  assumes "fst (ResizePVC n ns w) = Inl e"
  shows "pvcs (snd (ResizePVC n ns w)) = pvcs w"
proof (cases rule: ResizePVC_cases [where w = w and ns = ns and n = n])
  case (stored p m)
  with assms show ?thesis
    by (auto simp: ResizePVC_write update_pvc_def split: option.splits)
qed (simp_all add: ResizePVC_read_fault ResizePVC_missing ResizePVC_nil_map)

lemma ResizePVC_stored:
  assumes "wf_world w" and "no_fault 2 w" and "pvcs w (ns, n) = Some p"
  obtains m where "requests p = Some m"
    and "ResizePVC n ns w =
           (Inr (), put_pvc ns (with_storage (new_size (storage_request p)) p m)
                      (called (UpdatePVC ns n) (called (GetPVC ns n) w)))"
proof -
  from assms(1,3) obtain m where nm: "pvc_name p = n" and m: "requests p = Some m"
    by (rule wf_world_pvcD)
  have "fault_of w = None" "fault_of (called (GetPVC ns n) w) = None"
    using assms(2) no_fault_Suc [of 1 w "GetPVC ns n"]
      no_fault_Suc [of 0 "called (GetPVC ns n) w" "GetPVC ns n"]
    by (simp_all add: numeral_2_eq_2)
  with assms(3) m nm have "ResizePVC n ns w =
           (Inr (), put_pvc ns (with_storage (new_size (storage_request p)) p m)
                      (called (UpdatePVC ns n) (called (GetPVC ns n) w)))"
    by (simp add: ResizePVC_write update_pvc_def)
  with m show ?thesis by (rule that)
qed

section \<open>Properties\<close>

text \<open>
  C6 (resize amount). For a current size \<open>s\<close> between 0 and \<open>max_resizable\<close> the new size
  computed by \<open>ResizePVC\<close> is \<open>s + s / 2\<close> with integer division, read as a signed 64-bit
  value, and it is never smaller than \<open>s\<close>: in this range a resize only grows a claim.
\<close>

theorem resize_amount:
  assumes "0 \<le> sint s" and "sint s \<le> max_resizable"
  shows "sint (new_size s) = sint s + sint s div 2 \<and> s \<le>s new_size s"
  using assms by (simp add: sint_new_size new_size_grows)

theorem resize_amount_witness:
  "sint (new_size 100) = 150 \<and> sint (new_size 3) = 4 \<and> (100 :: int64) \<le>s new_size 100"
  using resize_amount [of 100] resize_amount [of 3] by (simp add: max_resizable_def)

text \<open>
  C5 (successful resize). In a well-formed world where the next two API calls go through
  and the claim exists, \<open>ResizePVC\<close> returns no error, the claim's storage request
  becomes \<open>new_size\<close> of the old one, its phase is as before, and exactly one read and one
  update of that claim were issued.
\<close>

theorem ResizePVC_success:
  assumes "wf_world w" and "no_fault 2 w" and "pvcs w (ns, n) = Some p"
  shows "fst (ResizePVC n ns w) = Inr () \<and>
         claim_size (snd (ResizePVC n ns w)) ns n = Some (new_size (storage_request p)) \<and>
         map_option phase (pvcs (snd (ResizePVC n ns w)) (ns, n)) = Some (phase p) \<and>
         calls_since w (snd (ResizePVC n ns w)) = [GetPVC ns n, UpdatePVC ns n]"
proof -
  from assms(1,3) obtain m where nm: "pvc_name p = n" and m: "requests p = Some m"
    by (rule wf_world_pvcD)
  have f1: "fault_of w = None" and f2: "fault_of (called (GetPVC ns n) w) = None"
    using assms(2) no_fault_Suc [of 1 w "GetPVC ns n"]
      no_fault_Suc [of 0 "called (GetPVC ns n) w" "GetPVC ns n"]
    by (simp_all add: numeral_2_eq_2)
  show ?thesis
    using f1 f2 assms(3) m nm
    by (simp add: ResizePVC_write update_pvc_def claim_size_def pvcs_put_pvc)
qed

theorem ResizePVC_success_witness:
  "fst (ResizePVC ''data-pvc'' ''ns1'' world0) = Inr () \<and>
   claim_size (snd (ResizePVC ''data-pvc'' ''ns1'' world0)) ''ns1'' ''data-pvc''
     = Some 16106127360"
  using ResizePVC_success [OF wf_world0, of "''ns1''" "''data-pvc''" data_pvc]
  by (simp add: world0_defs storage_request_def new_size_def go_quot_def
      signed_divide_int_def)

text \<open>
  When the read goes through and the claim does not exist,
  \<open>ResizePVC\<close> fails with the "not found" error for that claim and namespace, writes
  nothing and changes no claim.
\<close>

theorem ResizePVC_not_found:
  assumes "fault_of w = None" and "pvcs w (ns, n) = None"
  shows "fst (ResizePVC n ns w) = Inl (PVCNotFound n ns) \<and>
         pvcs (snd (ResizePVC n ns w)) = pvcs w \<and>
         calls_since w (snd (ResizePVC n ns w)) = [GetPVC ns n]"
  using assms by (simp add: ResizePVC_missing)

theorem ResizePVC_not_found_witness:
  "fst (ResizePVC ''other'' ''ns1'' world0) = Inl (PVCNotFound ''other'' ''ns1'')"
  using ResizePVC_not_found [of world0 "''ns1''" "''other''"]
  by (simp add: world0_defs)

text \<open>
  C29 (no retry). Whatever the world, \<open>ResizePVC\<close> issues at most one write to the API,
  and when it returns an error no claim has changed: a failed update is reported, not
  retried.
\<close>

theorem ResizePVC_single_attempt:
  "length (filter is_write (calls_since w (snd (ResizePVC n ns w)))) \<le> 1 \<and>
   (\<not> is_ok (fst (ResizePVC n ns w)) \<longrightarrow> pvcs (snd (ResizePVC n ns w)) = pvcs w)"
proof -
  have "length (filter is_write (calls_since w (snd (ResizePVC n ns w)))) \<le> 1"
    using ResizePVC_calls [of n ns w] by (auto simp: is_write_def)
  moreover have "pvcs (snd (ResizePVC n ns w)) = pvcs w" if "\<not> is_ok (fst (ResizePVC n ns w))"
    using that ResizePVC_failed_claims [of n ns w]
    by (cases "fst (ResizePVC n ns w)") simp_all
  ultimately show ?thesis by blast
qed

theorem ResizePVC_single_attempt_witness:
  "\<not> is_ok (fst (ResizePVC ''data-pvc'' ''ns1'' (world0\<lparr>faults := [None, Some Conflict]\<rparr>))) \<and>
   pvcs (snd (ResizePVC ''data-pvc'' ''ns1'' (world0\<lparr>faults := [None, Some Conflict]\<rparr>)))
     = pvcs world0"
  using ResizePVC_single_attempt
    [of "world0\<lparr>faults := [None, Some Conflict]\<rparr>" "''data-pvc''" "''ns1''"]
  by (simp add: ResizePVC_def get_pvc_def api_read_def update_pvc_def world0_defs)

end
