(* ===== verification/Scale.thy ===== *)
theory Scale
  imports Cluster
begin

text \<open>
  The replica actuator of \<open>src/pkg/kubernetes/deployment/scale.go\<close>: \<open>ScalePod\<close> and
  \<open>ScaleDownOldPods\<close>.

  \<open>ScalePod\<close> lists the deployments of a namespace and, for each in turn, derives the
  desired replica count from the pod template's annotations (\<open>adjust_desired\<close>: scale-up
  gives current + 1, scale-down gives current - 1 but at least 1, neither keeps the value
  of the variable \<open>desiredReplicaCount\<close>) and then tries up to \<open>maxRetries\<close> times to write
  it to the scale sub-resource (\<open>scale_attempts\<close>, the inner \<open>for\<close> loop, with
  \<open>waitDuration\<close> seconds of sleep after a failed attempt that is not the last).
  \<open>scale_each\<close> is the outer loop. Two things of the source are kept as they are:
  \<open>desiredReplicaCount\<close> is one variable for the whole loop, so a value set for one
  deployment is what an unmarked later deployment gets; and \<open>return err\<close> after the last
  failed attempt leaves the function, so the remaining deployments are not visited.
  A failed list or a failed read of the scale calls \<open>log.Fatal\<close>, which ends the process.

  The counts are \<open>int32\<close> words: \<open>scale_up_count\<close> wraps at the largest value. The last
  lemmas compose the two operations: scaling a deployment up and then down gives back its
  count exactly in the range where neither the floor of one nor the wrap-around is met.
\<close>

section \<open>Definitions\<close>

definition maxRetries :: nat where
  "maxRetries = 3"

definition waitDuration :: nat where
  "waitDuration = 2"

definition scaleUp :: "deployment \<Rightarrow> bool" where
  "scaleUp d = (go_index (template_annotations d) ''autoscale.k8s.io/scale-up'' = ''true'')"

definition scaleDown :: "deployment \<Rightarrow> bool" where
  "scaleDown d = (go_index (template_annotations d) ''autoscale.k8s.io/scale-down'' = ''true'')"

definition scale_up_count :: "int32 \<Rightarrow> int32" where
  "scale_up_count r = r + 1"

definition scale_down_count :: "int32 \<Rightarrow> int32" where
  "scale_down_count r = (if 1 <s r then r - 1 else 1)"

definition nil_dereference :: error where
  "nil_dereference = Panic ''invalid memory address or nil pointer dereference''"

text \<open>Go's \<open>error\<close> result: \<open>nil\<close> is success.\<close>

definition returned :: "error option \<times> world \<Rightarrow> unit result \<times> world" where
  "returned r = (case r of (None, w) \<Rightarrow> (Inr (), w) | (Some e, w) \<Rightarrow> (Inl e, w))"

definition exited :: "error \<times> world \<Rightarrow> 'a result \<times> world" where
  "exited r = (case r of (e, w) \<Rightarrow> (Inl e, w))"

definition adjust_desired :: "deployment \<Rightarrow> int32 \<Rightarrow> world \<Rightarrow> int32 result \<times> world" where
  "adjust_desired d desiredReplicaCount w =
     (if scaleUp d then
        (case spec_replicas d of
           None \<Rightarrow>
             (Inl nil_dereference,
              info ''Scaling up deployment %s based on ingress and egress data'' w)
         | Some r \<Rightarrow>
             (Inr (scale_up_count r),
              info ''Scaling up deployment %s based on ingress and egress data'' w))
      else if scaleDown d then
        (case spec_replicas d of
           None \<Rightarrow>
             (Inl nil_dereference,
              info ''Scaling down deployment %s based on ingress and egress data'' w)
         | Some r \<Rightarrow>
             (Inr (scale_down_count r),
              info ''Scaling down deployment %s based on ingress and egress data'' w))
      else (Inr desiredReplicaCount, w))"

function scale_attempts :: "string \<Rightarrow> string \<Rightarrow> int32 \<Rightarrow> nat \<Rightarrow> world \<Rightarrow> unit result \<times> world" where
  "scale_attempts namespace deploymentName desiredReplicaCount i w =
     (if i < maxRetries then
        (case get_scale namespace deploymentName w of
           (Inl e, w1) \<Rightarrow> exited (fatal ''Failed to get scale: %v'' w1)
         | (Inr scaleResponse, w1) \<Rightarrow>
             (case update_scale namespace deploymentName
                     (scaleResponse\<lparr>scale_replicas := desiredReplicaCount\<rparr>)
                     (info ''Setting desired replicas for deployment %s to %v'' w1) of
                (Inl e, w2) \<Rightarrow>
                  if i < maxRetries - 1
                  then scale_attempts namespace deploymentName desiredReplicaCount (i + 1)
                         (sleep waitDuration
                           (info ''Retrying to scale deployment %s... (attempt %d)''
                             (snd (error_nil ''Failed to update scale for deployment %s: %v'' w2))))
                  else (Inl e, snd (error_nil ''Failed to update scale for deployment %s: %v'' w2))
              | (Inr updated, w2) \<Rightarrow>
                  (Inr (), info ''Deployment %s scaled successfully to %v replicas'' w2)))
      else (Inr (), w))"
  by pat_completeness auto
termination
  by (relation "measure (\<lambda>(namespace, deploymentName, desired, i, w). maxRetries - i)") auto

declare scale_attempts.simps [simp del]

fun scale_each :: "string \<Rightarrow> deployment list \<Rightarrow> int32 \<Rightarrow> world \<Rightarrow> unit result \<times> world" where
  "scale_each namespace [] desiredReplicaCount w = (Inr (), w)"
| "scale_each namespace (d # ds) desiredReplicaCount w =
     (case adjust_desired d desiredReplicaCount w of
        (Inl e, w1) \<Rightarrow> (Inl e, w1)
      | (Inr desired, w1) \<Rightarrow>
          (case scale_attempts namespace (dep_name d) desired 0 w1 of
             (Inl e, w2) \<Rightarrow> (Inl e, w2)
           | (Inr done, w2) \<Rightarrow> scale_each namespace ds desired w2))"

definition ScalePod :: "string \<Rightarrow> string \<Rightarrow> int32 \<Rightarrow> world \<Rightarrow> unit result \<times> world" where
  "ScalePod namespace n desiredReplicaCount w =
     (case list_deployments namespace w of
        (Inl e, w1) \<Rightarrow> exited (fatal ''Failed to list deployments: %v'' w1)
      | (Inr items, w1) \<Rightarrow> scale_each namespace items desiredReplicaCount w1)"

definition ScaleDownOldPods :: "string \<Rightarrow> string \<Rightarrow> world \<Rightarrow> unit result \<times> world" where
  "ScaleDownOldPods deploymentName namespace w =
     (case get_deployment namespace deploymentName w of
        (Inl e, w1) \<Rightarrow>
          if is_not_found e
          then returned (error_nil ''Deployment %s not found in namespace %s'' w1)
          else returned (error_nil ''Failed to get deployment %s in namespace %s: %v'' w1)
      | (Inr d, w1) \<Rightarrow>
          (case spec_replicas d of
             None \<Rightarrow> (Inl nil_dereference, w1)
           | Some r \<Rightarrow>
               if 1 <s r
               then (case update_deployment namespace (d\<lparr>spec_replicas := Some (r - 1)\<rparr>) w1 of
                       (Inl e, w2) \<Rightarrow>
                         returned (error_nil
                           ''Failed to scale down deployment %s in namespace %s: %v'' w2)
                     | (Inr updated, w2) \<Rightarrow>
                         (Inr (), info ''Deployment %s scaled down to %v replicas'' w2))
               else (Inr (),
                     info ''Deployment %s is already at 1 replica, no further scaling down is possible''
                       w1)))"

text \<open>
  The faults that make the first \<open>k\<close> attempts of a retry loop fail at the update and let
  the reads of the scale go through.
\<close>

fun failing_updates :: "api_error list \<Rightarrow> api_error option list" where
  "failing_updates [] = []"
| "failing_updates (e # es) = None # Some e # failing_updates es"

text \<open>The worlds that one attempt of the retry loop passes through.\<close>

definition before_update :: "string \<Rightarrow> string \<Rightarrow> world \<Rightarrow> world" where
  "before_update ns n w =
     info ''Setting desired replicas for deployment %s to %v'' (called (GetScale ns n) w)"

definition after_read_failure :: "string \<Rightarrow> string \<Rightarrow> world \<Rightarrow> world" where
  "after_read_failure ns n w = snd (fatal ''Failed to get scale: %v'' (called (GetScale ns n) w))"

definition after_update :: "string \<Rightarrow> string \<Rightarrow> int32 \<Rightarrow> world \<Rightarrow> world" where
  "after_update ns n x w =
     info ''Deployment %s scaled successfully to %v replicas''
       (set_replicas ns n x (called (UpdateScale ns n x) (before_update ns n w)))"

definition after_failed_update :: "string \<Rightarrow> string \<Rightarrow> int32 \<Rightarrow> world \<Rightarrow> world" where
  "after_failed_update ns n x w =
     snd (error_nil ''Failed to update scale for deployment %s: %v''
            (called (UpdateScale ns n x) (before_update ns n w)))"

definition before_retry :: "string \<Rightarrow> string \<Rightarrow> int32 \<Rightarrow> world \<Rightarrow> world" where
  "before_retry ns n x w =
     sleep waitDuration
       (info ''Retrying to scale deployment %s... (attempt %d)'' (after_failed_update ns n x w))"

definition update_calls :: "api_call list \<Rightarrow> nat" where
  "update_calls cs = length (filter is_update_scale cs)"

section \<open>What the actuator is meant to compute\<close>

text \<open>
  The replica count that \<open>ScalePod\<close> writes to one deployment (\<open>target\<close>), the counts it
  writes along a list when the variable \<open>desiredReplicaCount\<close> is carried from one
  deployment to the next (\<open>plan\<close>), and the deployments of a namespace after a run in
  which every call succeeds (\<open>scaled\<close>). \<open>scaled_down\<close> is the object that
  \<open>ScaleDownOldPods\<close> sends back.
\<close>

definition target :: "deployment \<Rightarrow> int32 \<Rightarrow> int32" where
  "target d x =
     (case spec_replicas d of
        None \<Rightarrow> x
      | Some r \<Rightarrow> if scaleUp d then scale_up_count r
                  else if scaleDown d then scale_down_count r else x)"

fun plan :: "deployment list \<Rightarrow> int32 \<Rightarrow> int32 list" where
  "plan [] x = []"
| "plan (d # ds) x = target d x # plan ds (target d x)"

text \<open>The value of \<open>desiredReplicaCount\<close> after the loop has passed the deployments \<open>ds\<close>.\<close>

fun carried_count :: "deployment list \<Rightarrow> int32 \<Rightarrow> int32" where
  "carried_count [] x = x"
| "carried_count (d # ds) x = carried_count ds (target d x)"

definition scaled :: "deployment list \<Rightarrow> int32 \<Rightarrow> deployment list" where
  "scaled ds x = map2 (\<lambda>d y. d\<lparr>spec_replicas := Some y\<rparr>) ds (plan ds x)"

definition scaled_down :: "deployment \<Rightarrow> int32 \<Rightarrow> deployment" where
  "scaled_down d r = d\<lparr>spec_replicas := Some (r - 1)\<rparr>"

section \<open>Example worlds\<close>

text \<open>
  A namespace \<open>shop\<close> with three deployments: \<open>api\<close> is marked scale-up, \<open>cache\<close>
  scale-down, \<open>jobs\<close> carries no marker.
\<close>

definition api_dep :: deployment where
  "api_dep = \<lparr>dep_name = ''api'', dep_annotations = Map.empty, spec_replicas = Some 5,
               spec_selector = [(''app'', ''api'')],
               template_annotations = [''autoscale.k8s.io/scale-up'' \<mapsto> ''true''],
               template_volumes = [], status_replicas = 5, ready_replicas = 5\<rparr>"

definition cache_dep :: deployment where
  "cache_dep = \<lparr>dep_name = ''cache'', dep_annotations = Map.empty, spec_replicas = Some 1,
                 spec_selector = [(''app'', ''cache'')],
                 template_annotations = [''autoscale.k8s.io/scale-down'' \<mapsto> ''true''],
                 template_volumes = [], status_replicas = 1, ready_replicas = 1\<rparr>"

definition jobs_dep :: deployment where
  "jobs_dep = \<lparr>dep_name = ''jobs'', dep_annotations = Map.empty, spec_replicas = Some 2,
                spec_selector = [(''app'', ''jobs'')],
                template_annotations = Map.empty,
                template_volumes = [], status_replicas = 2, ready_replicas = 2\<rparr>"

definition shop :: world where
  "shop = \<lparr>namespaces = [''shop''],
            deployments = (\<lambda>ns. if ns = ''shop'' then [api_dep, cache_dep, jobs_dep] else []),
            pvcs = Map.empty,
            pods = (\<lambda>ns. []),
            faults = [],
            timeline = [],
            now = 0,
            calls = [],
            logs = []\<rparr>"

lemmas shop_defs = shop_def api_dep_def cache_dep_def jobs_dep_def

section \<open>The replica policy\<close>

lemma sint_scale_up_count:
  assumes "sint r < max_int32"
  shows "sint (scale_up_count r) = sint r + 1"
proof -
  have "sint (r + 1) = sint r + sint (1 :: int32)"
    using assms sint_int32_range [of r]
    by (intro sint_add_in_range) (simp_all add: max_int32_def)
  then show ?thesis by (simp add: scale_up_count_def)
qed

lemma scale_up_count_wraps: "sint (scale_up_count 2147483647) = - 2147483648"
  by (simp add: scale_up_count_def)

section \<open>Results and exits\<close>

lemma returned_simps [simp]:
  "returned (None, w) = (Inr (), w)"
  "returned (Some e, w) = (Inl e, w)"
  by (simp_all add: returned_def)

lemma returned_error_nil [simp]: "returned (error_nil msg w) = (Inr (), snd (error_nil msg w))"
  by (simp add: error_nil_def log_Error_def)

lemma exited_fatal [simp]: "exited (fatal msg w) = (Inl (ProcessExit 1), snd (fatal msg w))"
  by (simp add: exited_def fatal_def log_Fatal_def)

section \<open>The desired count of one deployment\<close>

lemma adjust_desired_frame [simp, frame]:
  "namespaces (snd (adjust_desired d x w)) = namespaces w"
  "deployments (snd (adjust_desired d x w)) = deployments w"
  "pvcs (snd (adjust_desired d x w)) = pvcs w"
  "pods (snd (adjust_desired d x w)) = pods w"
  "faults (snd (adjust_desired d x w)) = faults w"
  "timeline (snd (adjust_desired d x w)) = timeline w"
  "now (snd (adjust_desired d x w)) = now w"
  "calls (snd (adjust_desired d x w)) = calls w"
  by (simp_all add: adjust_desired_def split: option.split)

lemma adjust_desired_result:
  "fst (adjust_desired d x w) =
     (if scaleUp d then (case spec_replicas d of None \<Rightarrow> Inl nil_dereference
                         | Some r \<Rightarrow> Inr (scale_up_count r))
      else if scaleDown d then (case spec_replicas d of None \<Rightarrow> Inl nil_dereference
                                | Some r \<Rightarrow> Inr (scale_down_count r))
      else Inr x)"
  by (simp add: adjust_desired_def split: option.split)

lemma adjust_desired_ok:
  assumes "spec_replicas d = Some r"
  shows "fst (adjust_desired d x w) =
           Inr (if scaleUp d then scale_up_count r
                else if scaleDown d then scale_down_count r else x)"
  using assms by (simp add: adjust_desired_result)

lemma wf_world_adjust_desired [simp, wf_intros]:
  "wf_world (snd (adjust_desired d x w)) = wf_world w"
  by (simp add: adjust_desired_def split: option.split)

lemma fault_of_adjust_desired [simp]: "fault_of (snd (adjust_desired d x w)) = fault_of w"
  by (simp add: fault_of_def)

section \<open>The retry loop\<close>

lemmas attempt_worlds = before_update_def after_read_failure_def after_update_def
  after_failed_update_def before_retry_def

lemma scale_attempts_unfold:
  "scale_attempts ns n x i w =
     (if i < maxRetries then
        (case fault_of w of
           Some e \<Rightarrow> (Inl (ProcessExit 1), after_read_failure ns n w)
         | None \<Rightarrow>
            (case find_named dep_name n (deployments w ns) of
               None \<Rightarrow> (Inl (ProcessExit 1), after_read_failure ns n w)
             | Some d \<Rightarrow>
                (case fault_of (called (GetScale ns n) w) of
                   None \<Rightarrow> (Inr (), after_update ns n x w)
                 | Some e \<Rightarrow>
                     if i < maxRetries - 1
                     then scale_attempts ns n x (i + 1) (before_retry ns n x w)
                     else (Inl (Api e), after_failed_update ns n x w))))
      else (Inr (), w))"
  by (subst scale_attempts.simps)
    (simp add: get_scale_def api_read_def update_scale_def attempt_worlds
      split: option.split)

text \<open>The ways in which one attempt of the loop can end.\<close>

lemma scale_attempts_cases [case_names finished read_fault missing success retry give_up]:
  obtains (finished) "\<not> i < maxRetries" "scale_attempts ns n x i w = (Inr (), w)"
  | (read_fault) e where "i < maxRetries" "fault_of w = Some e"
      "scale_attempts ns n x i w = (Inl (ProcessExit 1), after_read_failure ns n w)"
  | (missing) "i < maxRetries" "fault_of w = None"
      "find_named dep_name n (deployments w ns) = None"
      "scale_attempts ns n x i w = (Inl (ProcessExit 1), after_read_failure ns n w)"
  | (success) d where "i < maxRetries" "fault_of w = None"
      "find_named dep_name n (deployments w ns) = Some d"
      "fault_of (called (GetScale ns n) w) = None"
      "scale_attempts ns n x i w = (Inr (), after_update ns n x w)"
  | (retry) d e where "i < maxRetries - 1" "fault_of w = None"
      "find_named dep_name n (deployments w ns) = Some d"
      "fault_of (called (GetScale ns n) w) = Some e"
      "scale_attempts ns n x i w = scale_attempts ns n x (i + 1) (before_retry ns n x w)"
  | (give_up) d e where "i = maxRetries - 1" "fault_of w = None"
      "find_named dep_name n (deployments w ns) = Some d"
      "fault_of (called (GetScale ns n) w) = Some e"
      "scale_attempts ns n x i w = (Inl (Api e), after_failed_update ns n x w)"
  using scale_attempts_unfold [of ns n x i w]
  by (cases "i < maxRetries"; cases "fault_of w"; cases "find_named dep_name n (deployments w ns)";
      cases "fault_of (called (GetScale ns n) w)"; cases "i = maxRetries - 1")
    (auto simp: maxRetries_def)

text \<open>
  Induction over the attempts of the loop: one case per way an attempt can end, and
  the hypothesis for the next attempt in the case of a retry.
\<close>

lemma scale_attempts_induct [case_names finished read_fault missing success retry give_up]:
  assumes finished: "\<And>i w. \<not> i < maxRetries \<Longrightarrow> P i w (Inr (), w)"
    and read_fault: "\<And>i w e. i < maxRetries \<Longrightarrow> fault_of w = Some e \<Longrightarrow>
          P i w (Inl (ProcessExit 1), after_read_failure ns n w)"
    and missing: "\<And>i w. i < maxRetries \<Longrightarrow> fault_of w = None \<Longrightarrow>
          find_named dep_name n (deployments w ns) = None \<Longrightarrow>
          P i w (Inl (ProcessExit 1), after_read_failure ns n w)"
    and success: "\<And>i w d. i < maxRetries \<Longrightarrow> fault_of w = None \<Longrightarrow>
          find_named dep_name n (deployments w ns) = Some d \<Longrightarrow>
          fault_of (called (GetScale ns n) w) = None \<Longrightarrow>
          P i w (Inr (), after_update ns n x w)"
    and retry: "\<And>i w d e. i < maxRetries - 1 \<Longrightarrow> fault_of w = None \<Longrightarrow>
          find_named dep_name n (deployments w ns) = Some d \<Longrightarrow>
          fault_of (called (GetScale ns n) w) = Some e \<Longrightarrow>
          P (i + 1) (before_retry ns n x w) (scale_attempts ns n x (i + 1) (before_retry ns n x w)) \<Longrightarrow>
          P i w (scale_attempts ns n x (i + 1) (before_retry ns n x w))"
    and give_up: "\<And>i w d e. i = maxRetries - 1 \<Longrightarrow> fault_of w = None \<Longrightarrow>
          find_named dep_name n (deployments w ns) = Some d \<Longrightarrow>
          fault_of (called (GetScale ns n) w) = Some e \<Longrightarrow>
          P i w (Inl (Api e), after_failed_update ns n x w)"
  shows "P i w (scale_attempts ns n x i w)"
proof (induction "maxRetries - i" arbitrary: i w rule: less_induct)
  case less
  show ?case
  proof (cases rule: scale_attempts_cases [of i ns n x w])
    case finished
    with assms(1) [of i w] show ?thesis by simp
  next
    case (read_fault e)
    with assms(2) [of i w e] show ?thesis by simp
  next
    case missing
    with assms(3) [of i w] show ?thesis by simp
  next
    case (success d)
    with assms(4) [of i w d] show ?thesis by simp
  next
    case (retry d e)
    then have "P (i + 1) (before_retry ns n x w)
        (scale_attempts ns n x (i + 1) (before_retry ns n x w))"
      by (intro less) simp
    with retry assms(5) [of i w d e] show ?thesis by simp
  next
    case (give_up d e)
    with assms(6) [of i w d e] show ?thesis by simp
  qed
qed

lemma attempt_worlds_frame [simp, frame]:
  "namespaces (before_update ns n w) = namespaces w"
  "namespaces (after_read_failure ns n w) = namespaces w"
  "namespaces (after_update ns n x w) = namespaces w"
  "namespaces (after_failed_update ns n x w) = namespaces w"
  "namespaces (before_retry ns n x w) = namespaces w"
  "pods (before_update ns n w) = pods w"
  "pods (after_read_failure ns n w) = pods w"
  "pods (after_update ns n x w) = pods w"
  "pods (after_failed_update ns n x w) = pods w"
  "pods (before_retry ns n x w) = pods w"
  "pvcs (before_update ns n w) = pvcs w"
  "pvcs (after_read_failure ns n w) = pvcs w"
  "pvcs (after_update ns n x w) = pvcs w"
  "pvcs (after_failed_update ns n x w) = pvcs w"
  "deployments (before_update ns n w) = deployments w"
  "deployments (after_read_failure ns n w) = deployments w"
  "deployments (after_failed_update ns n x w) = deployments w"
  by (simp_all add: attempt_worlds)

lemma attempt_worlds_now [simp]:
  "now (before_update ns n w) = now w"
  "now (after_read_failure ns n w) = now w"
  "now (after_update ns n x w) = now w"
  "now (after_failed_update ns n x w) = now w"
  "now (before_retry ns n x w) = now w + waitDuration"
  by (simp_all add: attempt_worlds)

lemma attempt_worlds_calls [simp]:
  "calls (before_update ns n w) = calls w @ [GetScale ns n]"
  "calls (after_read_failure ns n w) = calls w @ [GetScale ns n]"
  "calls (after_update ns n x w) = calls w @ [GetScale ns n, UpdateScale ns n x]"
  "calls (after_failed_update ns n x w) = calls w @ [GetScale ns n, UpdateScale ns n x]"
  "calls (before_retry ns n x w) = calls w @ [GetScale ns n, UpdateScale ns n x]"
  by (simp_all add: attempt_worlds)

lemma attempt_worlds_faults [simp]:
  "faults (before_update ns n w) = tl (faults w)"
  "faults (after_read_failure ns n w) = tl (faults w)"
  "faults (after_update ns n x w) = tl (tl (faults w))"
  "faults (after_failed_update ns n x w) = tl (tl (faults w))"
  "faults (before_retry ns n x w) = tl (tl (faults w))"
  by (simp_all add: attempt_worlds)

lemma attempt_worlds_wf [wf_intros]:
  assumes "wf_world w"
  shows "wf_world (before_update ns n w)" "wf_world (after_read_failure ns n w)"
    "wf_world (after_update ns n x w)" "wf_world (after_failed_update ns n x w)"
    "wf_world (before_retry ns n x w)"
  using assms by (simp_all add: attempt_worlds wf_world_set_replicas wf_world_sleep)

lemma update_calls_simps [simp]:
  "update_calls [] = 0"
  "update_calls (UpdateScale ns n x # cs) = Suc (update_calls cs)"
  "update_calls (GetScale ns n # cs) = update_calls cs"
  "update_calls (cs @ cs') = update_calls cs + update_calls cs'"
  by (simp_all add: update_calls_def is_update_scale_def)

lemma scale_attempts_calls:
  "\<exists>cs. calls (snd (scale_attempts ns n x i w)) = calls w @ cs \<and>
        update_calls cs \<le> maxRetries - i \<and>
        set cs \<subseteq> {GetScale ns n, UpdateScale ns n x}"
proof (induction rule: scale_attempts_induct
    [where ns = ns and n = n and x = x and i = i and w = w and
      P = "\<lambda>i w r. \<exists>cs. calls (snd r) = calls w @ cs \<and> update_calls cs \<le> maxRetries - i \<and>
             set cs \<subseteq> {GetScale ns n, UpdateScale ns n x}"])
  case (retry i w d e)
  then obtain cs where cs: "calls (snd (scale_attempts ns n x (i + 1) (before_retry ns n x w)))
        = calls (before_retry ns n x w) @ cs"
      "update_calls cs \<le> maxRetries - (i + 1)"
      "set cs \<subseteq> {GetScale ns n, UpdateScale ns n x}"
    by blast
  let ?cs = "[GetScale ns n, UpdateScale ns n x] @ cs"
  have "calls (snd (scale_attempts ns n x (i + 1) (before_retry ns n x w))) = calls w @ ?cs"
    using cs(1) by simp
  moreover have "update_calls ?cs \<le> maxRetries - i"
    using cs(2) retry.hyps(1) by simp
  moreover have "set ?cs \<subseteq> {GetScale ns n, UpdateScale ns n x}"
    using cs(3) by simp
  ultimately show ?case by blast
qed (simp_all add: maxRetries_def)

lemma scale_attempts_frame [simp, frame]:
  "namespaces (snd (scale_attempts ns n x i w)) = namespaces w"
  "pods (snd (scale_attempts ns n x i w)) = pods w"
proof -
  show "namespaces (snd (scale_attempts ns n x i w)) = namespaces w"
    by (rule scale_attempts_induct
        [where P = "\<lambda>i w r. namespaces (snd r) = namespaces w"]) simp_all
  show "pods (snd (scale_attempts ns n x i w)) = pods w"
    by (rule scale_attempts_induct [where P = "\<lambda>i w r. pods (snd r) = pods w"]) simp_all
qed

lemma wf_world_scale_attempts [wf_intros]:
  assumes "wf_world w"
  shows "wf_world (snd (scale_attempts ns n x i w))"
proof -
  have "wf_world w \<longrightarrow> wf_world (snd (scale_attempts ns n x i w))"
    by (rule scale_attempts_induct [where P = "\<lambda>i w r. wf_world w \<longrightarrow> wf_world (snd r)"])
      (simp_all add: attempt_worlds_wf)
  with assms show ?thesis by simp
qed

lemma scale_attempts_never_panics: "fst (scale_attempts ns n x i w) \<noteq> Inl (Panic m)"
  by (rule scale_attempts_induct [where P = "\<lambda>i w r. fst r \<noteq> Inl (Panic m)"]) simp_all

section \<open>Failing and succeeding attempts\<close>

lemma before_retry_quiet:
  assumes "timeline w = []"
  shows "deployments (before_retry ns n x w) = deployments w"
    and "timeline (before_retry ns n x w) = []"
  using assms by (simp_all add: before_retry_def after_failed_update_def before_update_def)

lemma fault_of_Nil_append: "fault_of (w\<lparr>faults := fs\<rparr>) = (case fs of [] \<Rightarrow> None | f # fs' \<Rightarrow> f)"
  by (simp add: fault_of_def)

lemma replicas_of_after_update:
  assumes "find_named dep_name n (deployments w ns) = Some d"
  shows "replicas_of (after_update ns n x w) ns n = Some x"
  using assms
  by (simp add: replicas_of_def after_update_def before_update_def deployments_set_replicas
      find_update_named_same)

lemma scale_attempts_after_failures:
  assumes "faults w = failing_updates es @ fs"
    and "list_all (\<lambda>f. f = None) (take 2 fs)"
    and "timeline w = []"
    and "find_named dep_name n (deployments w ns) = Some d"
    and "i + length es < maxRetries"
  shows "fst (scale_attempts ns n x i w) = Inr () \<and>
         calls (snd (scale_attempts ns n x i w)) =
           calls w @ concat (replicate (Suc (length es)) [GetScale ns n, UpdateScale ns n x]) \<and>
         now (snd (scale_attempts ns n x i w)) = now w + waitDuration * length es \<and>
         replicas_of (snd (scale_attempts ns n x i w)) ns n = Some x"
  using assms
proof (induction es arbitrary: i w)
  case Nil
  then have "fault_of w = None" "fault_of (called (GetScale ns n) w) = None"
    by (cases fs; cases "tl fs"; simp add: fault_of_def)+
  with Nil show ?case
    by (simp add: scale_attempts_unfold [of ns n x i w] replicas_of_after_update)
next
  case (Cons e es)
  from Cons.prems(1) have f: "fault_of w = None" "fault_of (called (GetScale ns n) w) = Some e"
    by (simp_all add: fault_of_def)
  from Cons.prems(5) have i: "i < maxRetries" "i < maxRetries - 1" by simp_all
  have step: "scale_attempts ns n x i w = scale_attempts ns n x (i + 1) (before_retry ns n x w)"
    using f i Cons.prems(4) by (simp add: scale_attempts_unfold [of ns n x i w])
  have "fst (scale_attempts ns n x (i + 1) (before_retry ns n x w)) = Inr () \<and>
         calls (snd (scale_attempts ns n x (i + 1) (before_retry ns n x w))) =
           calls (before_retry ns n x w) @ concat (replicate (Suc (length es)) [GetScale ns n, UpdateScale ns n x]) \<and>
         now (snd (scale_attempts ns n x (i + 1) (before_retry ns n x w))) = now (before_retry ns n x w) + waitDuration * length es \<and>
         replicas_of (snd (scale_attempts ns n x (i + 1) (before_retry ns n x w))) ns n = Some x"
    using Cons.prems
    by (intro Cons.IH) (simp_all add: before_retry_quiet)
  then show ?case
    unfolding step by simp
qed

lemma scale_attempts_exhausted:
  assumes "faults w = failing_updates es @ fs"
    and "timeline w = []"
    and "find_named dep_name n (deployments w ns) = Some d"
    and "i + length es = maxRetries" and "es \<noteq> []"
  shows "fst (scale_attempts ns n x i w) = Inl (Api (last es)) \<and>
         calls (snd (scale_attempts ns n x i w)) =
           calls w @ concat (replicate (length es) [GetScale ns n, UpdateScale ns n x]) \<and>
         now (snd (scale_attempts ns n x i w)) = now w + waitDuration * (length es - 1) \<and>
         deployments (snd (scale_attempts ns n x i w)) = deployments w"
  using assms
proof (induction es arbitrary: i w)
  case Nil
  then show ?case by simp
next
  case (Cons e es)
  from Cons.prems(1) have f: "fault_of w = None" "fault_of (called (GetScale ns n) w) = Some e"
    by (simp_all add: fault_of_def)
  from Cons.prems(4) have i: "i < maxRetries" by simp
  show ?case
  proof (cases "es = []")
    case True
    with Cons.prems(4) have "\<not> i < maxRetries - 1" by simp
    with f i Cons.prems(3) True show ?thesis
      by (simp add: scale_attempts_unfold [of ns n x i w])
  next
    case False
    with Cons.prems(4) have i': "i < maxRetries - 1" by (cases es) simp_all
    have step: "scale_attempts ns n x i w = scale_attempts ns n x (i + 1) (before_retry ns n x w)"
      using f i i' Cons.prems(3) by (simp add: scale_attempts_unfold [of ns n x i w])
    have "fst (scale_attempts ns n x (i + 1) (before_retry ns n x w)) = Inl (Api (last es)) \<and>
         calls (snd (scale_attempts ns n x (i + 1) (before_retry ns n x w))) =
           calls (before_retry ns n x w) @ concat (replicate (length es) [GetScale ns n, UpdateScale ns n x]) \<and>
         now (snd (scale_attempts ns n x (i + 1) (before_retry ns n x w))) = now (before_retry ns n x w) + waitDuration * (length es - 1) \<and>
         deployments (snd (scale_attempts ns n x (i + 1) (before_retry ns n x w))) = deployments (before_retry ns n x w)"
      using Cons.prems False
      by (intro Cons.IH) (simp_all add: before_retry_quiet)
    with False show ?thesis
      unfolding step by (cases es) (simp_all add: before_retry_quiet [OF Cons.prems(2)])
  qed
qed

lemma scale_attempts_first_try:
  assumes "i < maxRetries" and "no_fault 2 w"
    and "find_named dep_name n (deployments w ns) = Some d"
  shows "scale_attempts ns n x i w = (Inr (), after_update ns n x w)"
proof -
  have "fault_of w = None" "fault_of (called (GetScale ns n) w) = None"
    using assms(2) no_fault_Suc [of 1 w "GetScale ns n"]
      no_fault_Suc [of 0 "called (GetScale ns n) w" "GetScale ns n"]
    by (simp_all add: numeral_2_eq_2)
  with assms(1,3) show ?thesis
    by (simp add: scale_attempts_unfold [of ns n x i w])
qed

lemma scaled_simps [simp]:
  "scaled [] x = []"
  "scaled (d # ds) x = d\<lparr>spec_replicas := Some (target d x)\<rparr> # scaled ds (target d x)"
  by (simp_all add: scaled_def)

lemma adjust_desired_target:
  "spec_replicas d \<noteq> None \<Longrightarrow> fst (adjust_desired d x w) = Inr (target d x)"
  by (auto simp: adjust_desired_result target_def)

lemma after_update_quiet [simp]:
  "faults w = [] \<Longrightarrow> faults (after_update ns n x w) = []"
  "timeline (after_update ns n x w) = timeline w"
  "deployments (after_update ns n x w) = (deployments w)
     (ns := update_named dep_name n (\<lambda>d. d\<lparr>spec_replicas := Some x\<rparr>) (deployments w ns))"
  by (simp_all add: after_update_def before_update_def set_replicas_def)

lemma scale_each_plan:
  assumes "deployments w ns = pre @ items"
    and "distinct (map dep_name (pre @ items))"
    and "list_all (\<lambda>d. spec_replicas d \<noteq> None) items"
    and "faults w = []"
  shows "fst (scale_each ns items x w) = Inr () \<and>
         deployments (snd (scale_each ns items x w)) = (deployments w)(ns := pre @ scaled items x) \<and>
         faults (snd (scale_each ns items x w)) = [] \<and>
         now (snd (scale_each ns items x w)) = now w \<and>
         timeline (snd (scale_each ns items x w)) = timeline w"
  using assms
proof (induction items arbitrary: pre x w)
  case Nil
  then show ?case by (simp add: fun_upd_idem)
next
  case (Cons d ds)
  let ?w1 = "snd (adjust_desired d x w)"
  let ?y = "target d x"
  let ?w2 = "after_update ns (dep_name d) ?y ?w1"
  let ?d' = "d\<lparr>spec_replicas := Some ?y\<rparr>"
  from Cons.prems(3) have adj: "fst (adjust_desired d x w) = Inr ?y"
    by (simp add: adjust_desired_target)
  have found: "find_named dep_name (dep_name d) (deployments ?w1 ns) = Some d"
    using Cons.prems(1,2) by (simp add: find_named_mid)
  have attempt: "scale_attempts ns (dep_name d) ?y 0 ?w1 = (Inr (), ?w2)"
    using found Cons.prems(4) by (intro scale_attempts_first_try) (simp_all add: maxRetries_def)
  have step: "scale_each ns (d # ds) x w = scale_each ns ds ?y ?w2"
    using adj attempt by (simp add: result_case)
  have deps: "deployments ?w2 ns = (pre @ [?d']) @ ds"
    using Cons.prems(1,2) by (simp add: update_named_mid)
  have "fst (scale_each ns ds ?y ?w2) = Inr () \<and>
         deployments (snd (scale_each ns ds ?y ?w2)) = (deployments ?w2)(ns := (pre @ [?d']) @ scaled ds ?y) \<and>
         faults (snd (scale_each ns ds ?y ?w2)) = [] \<and>
         now (snd (scale_each ns ds ?y ?w2)) = now ?w2 \<and>
         timeline (snd (scale_each ns ds ?y ?w2)) = timeline ?w2"
    using Cons.prems deps by (intro Cons.IH) simp_all
  then show ?case
    unfolding step by simp
qed

section \<open>The loop over the deployments\<close>

lemma scale_each_Cons:
  "scale_each ns (d # ds) x w =
     (case fst (adjust_desired d x w) of
        Inl e \<Rightarrow> (Inl e, snd (adjust_desired d x w))
      | Inr y \<Rightarrow>
          (case fst (scale_attempts ns (dep_name d) y 0 (snd (adjust_desired d x w))) of
             Inl e \<Rightarrow> (Inl e, snd (scale_attempts ns (dep_name d) y 0 (snd (adjust_desired d x w))))
           | Inr u \<Rightarrow>
               scale_each ns ds y
                 (snd (scale_attempts ns (dep_name d) y 0 (snd (adjust_desired d x w))))))"
  by (simp add: result_case cong: sum.case_cong)

declare scale_each.simps(2) [simp del]

lemma wf_world_scale_each [wf_intros]:
  "wf_world w \<Longrightarrow> wf_world (snd (scale_each ns items x w))"
proof (induction items arbitrary: x w)
  case Nil
  then show ?case by simp
next
  case (Cons d ds)
  have "wf_world (snd (scale_attempts ns (dep_name d) y 0 (snd (adjust_desired d x w))))" for y
    using Cons.prems by (intro wf_world_scale_attempts) simp
  with Cons show ?case
    by (simp add: scale_each_Cons split: sum.split)
qed

lemma scale_each_never_panics:
  "list_all (\<lambda>d. spec_replicas d \<noteq> None) items \<Longrightarrow>
     fst (scale_each ns items x w) \<noteq> Inl (Panic m)"
proof (induction items arbitrary: x w)
  case Nil
  then show ?case by simp
next
  case (Cons d ds)
  then obtain r where "spec_replicas d = Some r" by auto
  then have "fst (adjust_desired d x w) = Inr (target d x)"
    by (simp add: adjust_desired_target)
  with Cons scale_attempts_never_panics [of ns "dep_name d" "target d x" 0 "snd (adjust_desired d x w)" m]
  show ?case
    by (auto simp add: scale_each_Cons split: sum.split)
qed

lemma ScalePod_eq:
  "ScalePod ns n x w =
     (case fault_of w of
        Some e \<Rightarrow> (Inl (ProcessExit 1),
                    snd (fatal ''Failed to list deployments: %v'' (called (ListDeployments ns) w)))
      | None \<Rightarrow> scale_each ns (deployments w ns) x (called (ListDeployments ns) w))"
  by (simp add: ScalePod_def list_deployments_def api_read_def split: option.split)

lemma wf_world_ScalePod [wf_intros]: "wf_world w \<Longrightarrow> wf_world (snd (ScalePod ns n x w))"
  by (simp add: ScalePod_eq wf_world_scale_each split: option.split)

lemma ScalePod_never_panics:
  assumes "wf_world w"
  shows "fst (ScalePod ns n x w) \<noteq> Inl (Panic m)"
proof -
  have "list_all (\<lambda>d. spec_replicas d \<noteq> None) (deployments w ns)"
    using assms by (simp add: wf_world_def wf_deployments_def)
  then show ?thesis
    by (simp add: ScalePod_eq scale_each_never_panics split: option.split)
qed

lemma scale_each_namespaces [simp, frame]:
  "namespaces (snd (scale_each ns items x w)) = namespaces w"
  by (induction items arbitrary: x w)
    (simp_all add: scale_each_Cons split: sum.split)

lemma scale_each_pods [simp, frame]:
  "pods (snd (scale_each ns items x w)) = pods w"
  by (induction items arbitrary: x w)
    (simp_all add: scale_each_Cons split: sum.split)

lemma ScalePod_frame [simp, frame]:
  "namespaces (snd (ScalePod ns n x w)) = namespaces w"
  "pods (snd (ScalePod ns n x w)) = pods w"
  by (simp_all add: ScalePod_eq split: option.split)

lemma ScalePod_plan_lemma:
  assumes "wf_world w" and "faults w = []"
  shows "fst (ScalePod ns n x w) = Inr () \<and>
         deployments (snd (ScalePod ns n x w)) =
           (deployments w)(ns := scaled (deployments w ns) x) \<and>
         now (snd (ScalePod ns n x w)) = now w"
proof -
  let ?w1 = "called (ListDeployments ns) w"
  have "fst (scale_each ns (deployments w ns) x ?w1) = Inr () \<and>
        deployments (snd (scale_each ns (deployments w ns) x ?w1)) =
          (deployments ?w1)(ns := [] @ scaled (deployments w ns) x) \<and>
        faults (snd (scale_each ns (deployments w ns) x ?w1)) = [] \<and>
        now (snd (scale_each ns (deployments w ns) x ?w1)) = now ?w1 \<and>
        timeline (snd (scale_each ns (deployments w ns) x ?w1)) = timeline ?w1"
    using assms
    by (intro scale_each_plan) (simp_all add: wf_world_def wf_deployments_def)
  with assms(2) show ?thesis
    by (simp add: ScalePod_eq)
qed

lemma shop_wf: "wf_world shop"
  by (simp add: wf_world_def wf_deployments_def shop_defs)

lemma shop_markers [simp]:
  "scaleUp api_dep" "\<not> scaleUp cache_dep" "scaleDown cache_dep"
  "\<not> scaleUp jobs_dep" "\<not> scaleDown jobs_dep"
  by (simp_all add: scaleUp_def scaleDown_def shop_defs)

lemma shop_replicas [simp]:
  "spec_replicas api_dep = Some 5" "spec_replicas cache_dep = Some 1"
  "spec_replicas jobs_dep = Some 2"
  by (simp_all add: shop_defs)

lemma shop_targets [simp]:
  "target api_dep x = 6" "target cache_dep x = 1" "target jobs_dep x = x"
  by (simp_all add: target_def scale_up_count_def scale_down_count_def)

lemma shop_scaled: "scaled (deployments shop ''shop'') 10 =
    [api_dep\<lparr>spec_replicas := Some 6\<rparr>, cache_dep\<lparr>spec_replicas := Some 1\<rparr>,
     jobs_dep\<lparr>spec_replicas := Some 1\<rparr>]"
  by (simp add: shop_def)

lemma shop_find [simp]:
  "find_named dep_name ''api'' (deployments shop ''shop'') = Some api_dep"
  "find_named dep_name ''cache'' (deployments shop ''shop'') = Some cache_dep"
  "find_named dep_name ''jobs'' (deployments shop ''shop'') = Some jobs_dep"
  by (simp_all add: shop_defs)

lemma shop_deployments: "deployments shop ''shop'' = [api_dep, cache_dep, jobs_dep]"
  by (simp add: shop_def)

lemma shop_names:
  "dep_name api_dep = ''api''" "dep_name cache_dep = ''cache''" "dep_name jobs_dep = ''jobs''"
  by (simp_all add: shop_defs)

lemma shop_fields [simp]:
  "timeline shop = []" "faults shop = []" "now shop = 0" "calls shop = []" "logs shop = []"
  by (simp_all add: shop_def)

section \<open>Scaling one deployment down\<close>

lemma ScaleDownOldPods_eq:
  "ScaleDownOldPods n ns w =
     (case fault_of w of
        Some e \<Rightarrow>
          (Inr (), snd (error_nil
             (if e = NotFound then ''Deployment %s not found in namespace %s''
              else ''Failed to get deployment %s in namespace %s: %v'')
             (called (GetDeployment ns n) w)))
      | None \<Rightarrow>
          (case find_named dep_name n (deployments w ns) of
             None \<Rightarrow>
               (Inr (), snd (error_nil ''Deployment %s not found in namespace %s''
                               (called (GetDeployment ns n) w)))
           | Some d \<Rightarrow>
               (case spec_replicas d of
                  None \<Rightarrow> (Inl nil_dereference, called (GetDeployment ns n) w)
                | Some r \<Rightarrow>
                    if 1 <s r
                    then (case fault_of (called (GetDeployment ns n) w) of
                            Some e \<Rightarrow>
                              (Inr (), snd (error_nil
                                 ''Failed to scale down deployment %s in namespace %s: %v''
                                 (called (UpdateDeployment ns (dep_name d))
                                    (called (GetDeployment ns n) w))))
                          | None \<Rightarrow>
                              (Inr (), info ''Deployment %s scaled down to %v replicas''
                                 (put_deployment ns (scaled_down d r)
                                    (called (UpdateDeployment ns (dep_name d))
                                       (called (GetDeployment ns n) w)))))
                    else (Inr (),
                          info ''Deployment %s is already at 1 replica, no further scaling down is possible''
                            (called (GetDeployment ns n) w)))))"
proof -
  have nm: "find_named dep_name n (deployments w ns) = Some d \<Longrightarrow> dep_name d = n" for d
    by (auto dest: find_named_Some)
  show ?thesis
    by (cases "fault_of w")
      (auto simp: ScaleDownOldPods_def get_deployment_def api_read_def update_deployment_def
        scaled_down_def nm split: option.split api_error.split)
qed

lemma ScaleDownOldPods_wf_result:
  assumes "wf_world w"
  shows "fst (ScaleDownOldPods n ns w) = Inr ()"
proof -
  have "spec_replicas d \<noteq> None" if "find_named dep_name n (deployments w ns) = Some d" for d
    using that assms find_named_Some [of dep_name n "deployments w ns" d]
    by (auto elim: wf_world_deploymentD)
  then show ?thesis
    by (auto simp add: ScaleDownOldPods_eq split: option.split)
qed

lemma wf_world_ScaleDownOldPods [wf_intros]:
  "wf_world w \<Longrightarrow> wf_world (snd (ScaleDownOldPods n ns w))"
  by (simp add: ScaleDownOldPods_eq wf_world_put_deployment scaled_down_def split: option.split)

lemma replicas_of_put_deployment:
  assumes "find_named dep_name (dep_name d) (deployments w ns) = Some old"
  shows "replicas_of (put_deployment ns d w) ns (dep_name d) = spec_replicas d"
  using assms
  by (simp add: replicas_of_def put_deployment_def find_update_named_same)

lemma ScaleDownOldPods_replicas:
  assumes "no_fault 2 w" and "replicas_of w ns n = Some r"
  shows "replicas_of (snd (ScaleDownOldPods n ns w)) ns n = Some (if 1 <s r then r - 1 else r)"
proof -
  from assms(2) obtain d where d: "find_named dep_name n (deployments w ns) = Some d"
      "spec_replicas d = Some r"
    by (auto simp: replicas_of_def split: Option.bind_splits)
  then have nm: "dep_name d = n" by (auto dest: find_named_Some)
  have f: "fault_of w = None" "fault_of (called (GetDeployment ns n) w) = None"
    using assms(1) no_fault_Suc [of 1 w "GetDeployment ns n"]
      no_fault_Suc [of 0 "called (GetDeployment ns n) w" "GetDeployment ns n"]
    by (simp_all add: numeral_2_eq_2)
  have "replicas_of (put_deployment ns (scaled_down d r) w') ns n = Some (r - 1)"
    if "deployments w' = deployments w" for w'
    using replicas_of_put_deployment [of "scaled_down d r" w' ns d] d nm that
    by (simp add: scaled_down_def)
  with d f assms(2) show ?thesis
    by (simp add: ScaleDownOldPods_eq replicas_of_def)
qed

lemma ScaleDownOldPods_found_result:
  assumes "replicas_of w ns n = Some r"
  shows "fst (ScaleDownOldPods n ns w) = Inr ()"
proof -
  from assms obtain d where "find_named dep_name n (deployments w ns) = Some d"
      "spec_replicas d = Some r"
    by (auto simp: replicas_of_def split: Option.bind_splits)
  then show ?thesis
    by (simp add: ScaleDownOldPods_eq split: option.split)
qed

lemma ScalePod_empty:
  assumes "fault_of w = None" and "deployments w ns = []"
  shows "ScalePod ns n x w = (Inr (), called (ListDeployments ns) w)"
  using assms by (simp add: ScalePod_eq)

section \<open>The count that the loop carries\<close>

text \<open>
  \<open>ScalePod\<close> writes to each deployment of the list the count that \<open>target\<close> gives it from
  the count the loop carries at that point. A deployment without a marker leaves the
  carried count as it is, a marked one replaces it by its own.
\<close>

lemma carried_count_append [simp]:
  "carried_count (pre @ ds) x = carried_count ds (carried_count pre x)"
  by (induction pre arbitrary: x) simp_all

lemma scaled_append: "scaled (pre @ ds) x = scaled pre x @ scaled ds (carried_count pre x)"
  by (induction pre arbitrary: x) simp_all

lemma dep_names_scaled [simp]: "map dep_name (scaled ds x) = map dep_name ds"
  by (induction ds arbitrary: x) simp_all

lemma target_unmarked: "\<not> scaleUp u \<Longrightarrow> \<not> scaleDown u \<Longrightarrow> target u y = y"
  by (simp add: target_def split: option.split)

lemma target_marked:
  "scaleUp d \<or> scaleDown d \<Longrightarrow> spec_replicas d \<noteq> None \<Longrightarrow> target d y = target d y'"
  by (auto simp: target_def)

lemma replicas_of_scaled:
  assumes "distinct (map dep_name (pre @ d # post))"
    and "deployments w ns = scaled (pre @ d # post) x"
  shows "replicas_of w ns (dep_name d) = Some (target d (carried_count pre x))"
proof -
  let ?d = "d\<lparr>spec_replicas := Some (target d (carried_count pre x))\<rparr>"
  have "deployments w ns = scaled pre x @ ?d # scaled post (target d (carried_count pre x))"
    using assms(2) by (simp add: scaled_append)
  moreover have "distinct (map dep_name
      (scaled pre x @ ?d # scaled post (target d (carried_count pre x))))"
    using assms(1) by simp
  ultimately have "find_named dep_name (dep_name ?d) (deployments w ns) = Some ?d"
    by (simp only: find_named_mid)
  then show ?thesis by (simp add: replicas_of_def)
qed

lemma ScalePod_replicas:
  assumes "wf_world w" and "faults w = []" and "deployments w ns = pre @ d # post"
  shows "replicas_of (snd (ScalePod ns n x w)) ns (dep_name d) =
           Some (target d (carried_count pre x))"
proof -
  have "distinct (map dep_name (pre @ d # post))"
    using wf_world_distinct [OF assms(1), of ns] assms(3) by simp
  moreover have "deployments (snd (ScalePod ns n x w)) ns = scaled (pre @ d # post) x"
    using ScalePod_plan_lemma [OF assms(1,2), of ns n x] assms(3) by simp
  ultimately show ?thesis by (rule replicas_of_scaled)
qed

section \<open>Scaling up and back down\<close>

text \<open>
  \<open>ScalePod\<close> raises the count of a scale-up deployment by one and \<open>ScaleDownOldPods\<close> lowers
  a count above one by one. The second undoes the first exactly when the count was at least
  one and below the largest \<open>int32\<close>: from zero or less the raised count is not above one
  and stays, and the largest count wraps to the smallest, which stays as well.
\<close>

lemma largest_int32:
  assumes "sint (r :: int32) = max_int32"
  shows "r = 2147483647"
proof -
  have "r = word_of_int (sint r)" by simp
  also have "\<dots> = 2147483647" by (simp only: assms max_int32_def) simp
  finally show ?thesis .
qed

lemma step_down_scale_up:
  "(if 1 <s scale_up_count r then scale_up_count r - 1 else scale_up_count r) = r \<longleftrightarrow>
     1 \<le> sint r \<and> sint r < max_int32"
proof (cases "sint r < max_int32")
  case True
  then have "1 <s scale_up_count r \<longleftrightarrow> 1 \<le> sint r"
    by (auto simp: word_sless_alt sint_scale_up_count)
  with True show ?thesis by (simp add: scale_up_count_def)
next
  case False
  with sint_int32_range [of r] have "r = 2147483647"
    by (intro largest_int32) (simp add: max_int32_def)
  with False show ?thesis by (simp add: scale_up_count_def word_sless_alt)
qed

lemma find_named_scaled_up:
  assumes "find_named dep_name m ds = Some d" and "scaleUp d" and "spec_replicas d = Some r"
  shows "find_named dep_name m (scaled ds x) = Some (d\<lparr>spec_replicas := Some (scale_up_count r)\<rparr>)"
  using assms by (induction ds arbitrary: x) (auto simp: target_def)

lemma ScalePod_quiet:
  assumes "wf_world w" and "faults w = []"
  shows "faults (snd (ScalePod ns n x w)) = []"
  using scale_each_plan [of "called (ListDeployments ns) w" ns "[]" "deployments w ns" x] assms
  by (simp add: ScalePod_eq wf_world_def wf_deployments_def)

lemma ScalePod_scaled_up:
  assumes "wf_world w" and "faults w = []"
    and "find_named dep_name m (deployments w ns) = Some d" and "scaleUp d"
    and "spec_replicas d = Some r"
  shows "replicas_of (snd (ScalePod ns n x w)) ns m = Some (scale_up_count r)"
  using ScalePod_plan_lemma [OF assms(1,2), of ns n x] find_named_scaled_up [OF assms(3-5), of x]
  by (simp add: replicas_of_def)

section \<open>The two ways of scaling down\<close>

text \<open>
  The program lowers a replica count in two places: the scale-down branch of \<open>ScalePod\<close>,
  which writes one for every count that is not above one, and \<open>ScaleDownOldPods\<close>, which
  leaves such a count as it is. They agree from one replica on.
\<close>

lemma scale_down_paths:
  "scale_down_count r = (if 1 <s r then r - 1 else r) \<longleftrightarrow> 1 \<le> sint r"
proof (cases "1 <s r")
  case True
  then show ?thesis by (simp add: scale_down_count_def word_sless_alt)
next
  case False
  then have "sint r \<le> 1" by (simp add: word_sless_alt)
  moreover have "r = 1" if "sint r = 1"
  proof -
    have "r = word_of_int (sint r)" by simp
    also have "\<dots> = 1" by (simp only: that) simp
    finally show ?thesis .
  qed
  ultimately show ?thesis using False by (auto simp: scale_down_count_def)
qed

lemma target_scale_down:
  "\<not> scaleUp d \<Longrightarrow> scaleDown d \<Longrightarrow> spec_replicas d = Some r \<Longrightarrow> target d y = scale_down_count r"
  by (simp add: target_def)

section \<open>Properties\<close>

text \<open>
  C27 (bounds). The count that a scale-down annotation asks for is the current count less
  one, and never less than one: as signed numbers, \<open>max (r - 1) 1\<close>. This holds for every
  \<open>int32\<close>, also for zero, negative counts and the smallest value, where \<open>r - 1\<close> would wrap
  but is not computed.
\<close>

theorem scale_down_floor: "sint (scale_down_count r) = max (sint r - 1) 1"
proof (cases "1 <s r")
  case True
  then have r: "1 < sint r" by (simp add: word_sless_alt)
  have "sint (r - 1) = sint r - sint (1 :: int32)"
    using r sint_int32_range [of r] by (intro sint_sub_in_range) simp_all
  with True r show ?thesis by (simp add: scale_down_count_def)
next
  case False
  then have "sint r \<le> 1" by (simp add: word_sless_alt)
  with False show ?thesis by (simp add: scale_down_count_def)
qed

text \<open>
  Below the largest \<open>int32\<close> the count that a scale-up annotation asks for is
  exactly one more than the current count, and is greater than it.
\<close>

theorem scale_up_increment:
  assumes "sint r < max_int32"
  shows "sint (scale_up_count r) = sint r + 1 \<and> r <s scale_up_count r"
  using assms by (simp add: sint_scale_up_count word_sless_alt)

theorem scale_up_increment_witness:
  "sint (5 :: int32) < max_int32 \<and> sint (scale_up_count 5) = 6"
  using scale_up_increment [of 5] by (simp add: max_int32_def)

text \<open>
  C3 (safety). Whatever the API answers, the retry loop of \<open>ScalePod\<close> sends at most
  \<open>maxRetries = 3\<close> updates for one deployment, and every call it makes is a read or an
  update of the scale of that deployment with the desired count.
\<close>

theorem scale_attempts_bounded:
  "\<exists>cs. calls (snd (scale_attempts ns n x 0 w)) = calls w @ cs \<and>
        update_calls cs \<le> 3 \<and> set cs \<subseteq> {GetScale ns n, UpdateScale ns n x}"
  using scale_attempts_calls [of ns n x 0 w] by (simp add: maxRetries_def)

text \<open>
  C26 (functional). When the first \<open>k < 3\<close> updates fail and the next one succeeds, the
  retry loop returns \<open>nil\<close> after \<open>k + 1\<close> updates, has slept \<open>2 k\<close> seconds, and the
  deployment has the desired replica count.
\<close>

theorem scale_attempts_first_success:
  assumes "faults w = failing_updates es @ fs"
    and "list_all (\<lambda>f. f = None) (take 2 fs)"
    and "timeline w = []"
    and "find_named dep_name n (deployments w ns) = Some d"
    and "length es < maxRetries"
  shows "fst (scale_attempts ns n x 0 w) = Inr () \<and>
         update_calls (calls_since w (snd (scale_attempts ns n x 0 w))) = length es + 1 \<and>
         now (snd (scale_attempts ns n x 0 w)) = now w + waitDuration * length es \<and>
         replicas_of (snd (scale_attempts ns n x 0 w)) ns n = Some x"
proof -
  have "update_calls (concat (replicate k [GetScale ns n, UpdateScale ns n x])) = k" for k
    by (induction k) simp_all
  then show ?thesis
    using scale_attempts_after_failures [OF assms(1-4), of 0 x] assms(5) by simp
qed

theorem scale_attempts_first_success_witness:
  "fst (scale_attempts ''shop'' ''api'' 6 0 (shop\<lparr>faults := failing_updates [Conflict, Conflict]\<rparr>)) = Inr () \<and>
   now (snd (scale_attempts ''shop'' ''api'' 6 0 (shop\<lparr>faults := failing_updates [Conflict, Conflict]\<rparr>))) = 4 \<and>
   replicas_of (snd (scale_attempts ''shop'' ''api'' 6 0 (shop\<lparr>faults := failing_updates [Conflict, Conflict]\<rparr>)))
     ''shop'' ''api'' = Some 6"
  using scale_attempts_first_success
    [of "shop\<lparr>faults := failing_updates [Conflict, Conflict]\<rparr>" "[Conflict, Conflict]" "[]"
        "''api''" "''shop''" api_dep 6]
  by (simp add: maxRetries_def waitDuration_def)

text \<open>
  C9 (error). When three updates in a row fail, the retry loop returns the error of the
  last one, after exactly three updates and two sleeps of two seconds (none after the last
  attempt), and no deployment has changed.
\<close>

theorem scale_attempts_gives_up:
  assumes "faults w = failing_updates es @ fs"
    and "timeline w = []"
    and "find_named dep_name n (deployments w ns) = Some d"
    and "length es = maxRetries"
  shows "fst (scale_attempts ns n x 0 w) = Inl (Api (last es)) \<and>
         update_calls (calls_since w (snd (scale_attempts ns n x 0 w))) = maxRetries \<and>
         now (snd (scale_attempts ns n x 0 w)) = now w + waitDuration * (maxRetries - 1) \<and>
         deployments (snd (scale_attempts ns n x 0 w)) = deployments w"
proof -
  have "update_calls (concat (replicate k [GetScale ns n, UpdateScale ns n x])) = k" for k
    by (induction k) simp_all
  moreover from assms(4) have "es \<noteq> []" by (auto simp: maxRetries_def)
  ultimately show ?thesis
    using scale_attempts_exhausted [OF assms(1-3), of 0 x] assms(4) by simp
qed

theorem scale_attempts_gives_up_witness:
  "fst (scale_attempts ''shop'' ''api'' 6 0
     (shop\<lparr>faults := failing_updates [Conflict, Conflict, Unavailable ''etcd'']\<rparr>))
     = Inl (Api (Unavailable ''etcd'')) \<and>
   now (snd (scale_attempts ''shop'' ''api'' 6 0
     (shop\<lparr>faults := failing_updates [Conflict, Conflict, Unavailable ''etcd'']\<rparr>))) = 4"
  using scale_attempts_gives_up
    [of "shop\<lparr>faults := failing_updates [Conflict, Conflict, Unavailable ''etcd'']\<rparr>"
        "[Conflict, Conflict, Unavailable ''etcd'']" "[]" "''api''" "''shop''" api_dep 6]
  by (simp add: maxRetries_def waitDuration_def)

text \<open>
  C35 (error). When the read of the scale fails, the loop does not retry: \<open>log.Fatal\<close> logs
  the failure and the process ends with status 1 after that single call, with the
  deployments unchanged.
\<close>

theorem scale_attempts_read_failure_exits:
  assumes "fault_of w = Some e"
  shows "fst (scale_attempts ns n x 0 w) = Inl (ProcessExit 1) \<and>
         logged FATAL ''Failed to get scale: %v'' (logs (snd (scale_attempts ns n x 0 w))) \<and>
         calls_since w (snd (scale_attempts ns n x 0 w)) = [GetScale ns n] \<and>
         deployments (snd (scale_attempts ns n x 0 w)) = deployments w"
  using assms
  by (simp add: scale_attempts_unfold [of ns n x 0 w] maxRetries_def after_read_failure_def)

theorem scale_attempts_read_failure_exits_witness:
  "fst (scale_attempts ''shop'' ''api'' 6 0 (shop\<lparr>faults := [Some Conflict]\<rparr>))
     = Inl (ProcessExit 1)"
  using scale_attempts_read_failure_exits [of "shop\<lparr>faults := [Some Conflict]\<rparr>" Conflict]
  by simp

text \<open>
  C2 (refinement). In a well-formed cluster whose API calls all succeed, \<open>ScalePod\<close> returns
  \<open>nil\<close>, takes no time, and leaves the namespace's deployments as the specification \<open>scaled\<close>
  says: each with the count \<open>target\<close> gives it, the count carried over from its predecessor
  when it has no marker.
\<close>

theorem ScalePod_plan:
  assumes "wf_world w" and "faults w = []"
  shows "fst (ScalePod ns n x w) = Inr () \<and>
         deployments (snd (ScalePod ns n x w)) =
           (deployments w)(ns := scaled (deployments w ns) x) \<and>
         now (snd (ScalePod ns n x w)) = now w"
  using assms by (rule ScalePod_plan_lemma)

theorem ScalePod_plan_witness:
  "fst (ScalePod ''shop'' ''api'' 10 shop) = Inr () \<and>
   deployments (snd (ScalePod ''shop'' ''api'' 10 shop)) ''shop'' =
     [api_dep\<lparr>spec_replicas := Some 6\<rparr>, cache_dep\<lparr>spec_replicas := Some 1\<rparr>,
      jobs_dep\<lparr>spec_replicas := Some 1\<rparr>]"
  using ScalePod_plan [OF shop_wf, of "''shop''" "''api''" 10] shop_scaled by simp

text \<open>
  C21 (functional). The variable \<open>desiredReplicaCount\<close> is shared by the iterations of the
  loop. In a well-formed cluster whose calls succeed, a deployment without a marker
  receives the count that was written to the deployment before it in the list; when that
  one is marked, the count does not depend on the desired count that \<open>ScalePod\<close> was called
  with at all. In the example namespace, called with 10 or with 7, the unmarked deployment
  \<open>jobs\<close> is set to 1, the count computed for the scale-down deployment \<open>cache\<close> before it.
\<close>

theorem ScalePod_carries_desired_count:
  assumes "wf_world w" and "faults w = []"
    and "deployments w ns = pre @ d # u # post"
    and "\<not> scaleUp u" and "\<not> scaleDown u"
  shows "replicas_of (snd (ScalePod ns n x w)) ns (dep_name u) =
           replicas_of (snd (ScalePod ns n x w)) ns (dep_name d) \<and>
         (scaleUp d \<or> scaleDown d \<longrightarrow>
            replicas_of (snd (ScalePod ns n x w)) ns (dep_name u) =
              replicas_of (snd (ScalePod ns n x' w)) ns (dep_name u))"
proof -
  have u: "replicas_of (snd (ScalePod ns n y w)) ns (dep_name u) =
             Some (target d (carried_count pre y))" for y
    using ScalePod_replicas [OF assms(1,2), of ns "pre @ [d]" u post n y] assms(3-5)
    by (simp add: target_unmarked)
  have d: "replicas_of (snd (ScalePod ns n x w)) ns (dep_name d) =
             Some (target d (carried_count pre x))"
    using ScalePod_replicas [OF assms(1,2), of ns pre d "u # post" n x] assms(3) by simp
  have "spec_replicas d \<noteq> None"
    using assms(1,3) by (auto simp: wf_world_def wf_deployments_def dest: spec [of _ ns])
  then have "target d (carried_count pre x) = target d (carried_count pre x')"
    if "scaleUp d \<or> scaleDown d"
    using that by (rule target_marked [rotated])
  with u d show ?thesis by simp
qed

theorem ScalePod_carries_desired_count_witness:
  "replicas_of (snd (ScalePod ''shop'' ''api'' 10 shop)) ''shop'' ''jobs'' = Some 1 \<and>
   replicas_of (snd (ScalePod ''shop'' ''api'' 10 shop)) ''shop'' ''cache'' = Some 1 \<and>
   replicas_of (snd (ScalePod ''shop'' ''api'' 7 shop)) ''shop'' ''jobs'' = Some 1"
  using ScalePod_carries_desired_count
      [OF shop_wf, of "''shop''" "[api_dep]" cache_dep jobs_dep "[]" "''api''" 10 7]
    ScalePod_replicas [OF shop_wf, of "''shop''" "[api_dep]" cache_dep "[jobs_dep]" "''api''" 10]
  by (auto simp: shop_deployments shop_names)

text \<open>
  C22 (error). When the updates of the first deployment fail three times, \<open>ScalePod\<close> returns
  that error at once: no deployment of the namespace has changed and no call was made for
  any deployment after the first.
\<close>

theorem ScalePod_stops_after_exhausted_retries:
  assumes "deployments w ns = d # ds" and "spec_replicas d \<noteq> None"
    and "faults w = None # failing_updates es" and "length es = maxRetries"
    and "timeline w = []"
  shows "fst (ScalePod ns n x w) = Inl (Api (last es)) \<and>
         deployments (snd (ScalePod ns n x w)) = deployments w \<and>
         set (calls_since w (snd (ScalePod ns n x w))) \<subseteq>
           {ListDeployments ns, GetScale ns (dep_name d), UpdateScale ns (dep_name d) (target d x)}"
proof -
  let ?w1 = "snd (adjust_desired d x (called (ListDeployments ns) w))"
  let ?r = "scale_attempts ns (dep_name d) (target d x) 0 ?w1"
  have adj: "fst (adjust_desired d x (called (ListDeployments ns) w)) = Inr (target d x)"
    using assms(2) by (rule adjust_desired_target)
  have ex: "fst ?r = Inl (Api (last es)) \<and>
      calls (snd ?r) = calls ?w1 @
         concat (replicate (length es) [GetScale ns (dep_name d), UpdateScale ns (dep_name d) (target d x)]) \<and>
      now (snd ?r) = now ?w1 + waitDuration * (length es - 1) \<and>
      deployments (snd ?r) = deployments ?w1"
    using assms by (intro scale_attempts_exhausted [where fs = "[]" and d = d])
      (auto simp: maxRetries_def)
  have pod: "ScalePod ns n x w = (Inl (Api (last es)), snd ?r)"
    using assms(1,3) adj ex by (simp add: ScalePod_eq scale_each_Cons)
  have "set (concat (replicate k [a, b])) \<subseteq> {a, b}" for k and a b :: api_call
    by (induction k) auto
  then show ?thesis
    using ex by (auto simp: pod)
qed

theorem ScalePod_stops_after_exhausted_retries_witness:
  "fst (ScalePod ''shop'' ''api'' 10
         (shop\<lparr>faults := None # failing_updates [Conflict, Conflict, Conflict]\<rparr>))
     = Inl (Api Conflict) \<and>
   replicas_of (snd (ScalePod ''shop'' ''api'' 10
         (shop\<lparr>faults := None # failing_updates [Conflict, Conflict, Conflict]\<rparr>)))
      ''shop'' ''cache'' = Some 1"
  using ScalePod_stops_after_exhausted_retries
    [of "shop\<lparr>faults := None # failing_updates [Conflict, Conflict, Conflict]\<rparr>"
        "''shop''" api_dep "[cache_dep, jobs_dep]" "[Conflict, Conflict, Conflict]" "''api''" 10]
  by (simp add: maxRetries_def shop_def replicas_of_def) (simp add: shop_defs)

text \<open>
  \<open>ScalePod\<close> keeps the cluster well formed (distinct names, a replica
  count on every deployment, claims stored under their own name), whatever faults occur,
  and in a well-formed cluster it never dereferences a \<open>nil\<close> replica count.
\<close>

theorem ScalePod_preserves_wf:
  assumes "wf_world w"
  shows "wf_world (snd (ScalePod ns n x w)) \<and> \<not> (\<exists>m. fst (ScalePod ns n x w) = Inl (Panic m))"
  using assms by (simp add: wf_world_ScalePod ScalePod_never_panics)

theorem ScalePod_preserves_wf_witness:
  "wf_world shop \<and> wf_world (snd (ScalePod ''shop'' ''api'' 10 shop))"
  using ScalePod_preserves_wf [OF shop_wf, of "''shop''" "''api''" 10] shop_wf by simp

text \<open>
  C36 (error). \<open>ScaleDownOldPods\<close> never returns an error value: every failure path is
  \<open>return log.Error(...)\<close>, which logs and returns \<open>nil\<close>. The only other outcome is the
  run-time panic on a deployment without a replica count.
\<close>

theorem ScaleDownOldPods_swallows_errors:
  "fst (ScaleDownOldPods n ns w) = Inr () \<or> fst (ScaleDownOldPods n ns w) = Inl nil_dereference"
proof (cases "fault_of w")
  case None
  then show ?thesis by (simp add: ScaleDownOldPods_eq split: option.split)
next
  case (Some e)
  then show ?thesis by (simp add: ScaleDownOldPods_eq)
qed

text \<open>
  When the read succeeds and the update of a deployment with more than one
  replica fails, \<open>ScaleDownOldPods\<close> still returns \<open>nil\<close>; the failure is only in the log,
  and the deployment keeps its replicas.
\<close>

theorem ScaleDownOldPods_failed_update_unreported:
  assumes "faults w = None # Some e # fs" and "replicas_of w ns n = Some r" and "1 <s r"
  shows "fst (ScaleDownOldPods n ns w) = Inr () \<and>
         deployments (snd (ScaleDownOldPods n ns w)) = deployments w \<and>
         logged ERROR ''Failed to scale down deployment %s in namespace %s: %v''
           (logs (snd (ScaleDownOldPods n ns w)))"
proof -
  from assms(2) obtain d where "find_named dep_name n (deployments w ns) = Some d"
      "spec_replicas d = Some r"
    by (auto simp: replicas_of_def split: Option.bind_splits)
  with assms(1,3) show ?thesis
    by (simp add: ScaleDownOldPods_eq fault_of_def called_def error_nil_def)
qed

theorem ScaleDownOldPods_failed_update_unreported_witness:
  "fst (ScaleDownOldPods ''api'' ''shop'' (shop\<lparr>faults := [None, Some Conflict]\<rparr>)) = Inr () \<and>
   replicas_of (snd (ScaleDownOldPods ''api'' ''shop'' (shop\<lparr>faults := [None, Some Conflict]\<rparr>)))
     ''shop'' ''api'' = Some 5"
  using ScaleDownOldPods_failed_update_unreported
    [of "shop\<lparr>faults := [None, Some Conflict]\<rparr>" Conflict "[]" "''shop''" "''api''" 5]
  by (simp add: replicas_of_def word_sless_alt)

text \<open>
  When both calls succeed, \<open>ScaleDownOldPods\<close> lowers a replica count
  above one by one and leaves a count of one or less as it is.
\<close>

theorem ScaleDownOldPods_steps_down:
  assumes "no_fault 2 w" and "replicas_of w ns n = Some r"
  shows "fst (ScaleDownOldPods n ns w) = Inr () \<and>
         replicas_of (snd (ScaleDownOldPods n ns w)) ns n = Some (if 1 <s r then r - 1 else r)"
  using ScaleDownOldPods_replicas [OF assms] ScaleDownOldPods_found_result [OF assms(2)]
  by simp

theorem ScaleDownOldPods_steps_down_witness:
  "replicas_of (snd (ScaleDownOldPods ''api'' ''shop'' shop)) ''shop'' ''api'' = Some 4 \<and>
   replicas_of (snd (ScaleDownOldPods ''cache'' ''shop'' shop)) ''shop'' ''cache'' = Some 1"
  using ScaleDownOldPods_steps_down [of shop "''shop''" "''api''" 5]
    ScaleDownOldPods_steps_down [of shop "''shop''" "''cache''" 1]
  by (simp add: replicas_of_def word_sless_alt)

text \<open>
  C17 (roundtrip). In a well-formed cluster whose calls succeed, \<open>ScalePod\<close> followed by
  \<open>ScaleDownOldPods\<close> on a deployment marked for scaling up gives back the replica count it
  had if and only if that count was at least one and less than the largest \<open>int32\<close>.
\<close>

theorem scale_up_then_down_restores:
  assumes "wf_world w" and "faults w = []"
    and "find_named dep_name m (deployments w ns) = Some d" and "scaleUp d"
    and "spec_replicas d = Some r"
  shows "replicas_of (snd (ScaleDownOldPods m ns (snd (ScalePod ns n x w)))) ns m = Some r \<longleftrightarrow>
           1 \<le> sint r \<and> sint r < max_int32"
proof -
  let ?w = "snd (ScalePod ns n x w)"
  have "replicas_of (snd (ScaleDownOldPods m ns ?w)) ns m =
          Some (if 1 <s scale_up_count r then scale_up_count r - 1 else scale_up_count r)"
    using ScalePod_quiet [OF assms(1,2), of ns n x] ScalePod_scaled_up [OF assms, of n x]
    by (intro ScaleDownOldPods_replicas) simp_all
  then show ?thesis
    by (simp only: step_down_scale_up option.inject)
qed

theorem scale_up_then_down_restores_witness:
  "replicas_of shop ''shop'' ''api'' = Some 5 \<and>
   replicas_of (snd (ScalePod ''shop'' ''api'' 10 shop)) ''shop'' ''api'' = Some 6 \<and>
   replicas_of (snd (ScaleDownOldPods ''api'' ''shop'' (snd (ScalePod ''shop'' ''api'' 10 shop))))
     ''shop'' ''api'' = Some 5"
  using scale_up_then_down_restores [OF shop_wf, of "''api''" "''shop''" api_dep 5 "''api''" 10]
    ScalePod_scaled_up [OF shop_wf, of "''api''" "''shop''" api_dep 5 "''api''" 10]
  by (simp add: max_int32_def replicas_of_def scale_up_count_def)

text \<open>
  C12 (equivalence). The two routines that scale a deployment down are the same on the
  counts that a running deployment has and on no others: in a well-formed cluster whose
  calls succeed, \<open>ScalePod\<close> on a namespace and \<open>ScaleDownOldPods\<close> on one of its deployments
  that is marked for scaling down leave that deployment with the same replica count if
  and only if it had at least one replica.
\<close>

theorem scale_down_paths_agree:
  assumes "wf_world w" and "faults w = []" and "deployments w ns = pre @ d # post"
    and "scaleDown d" and "\<not> scaleUp d" and "spec_replicas d = Some r"
  shows "replicas_of (snd (ScalePod ns n x w)) ns (dep_name d) =
           replicas_of (snd (ScaleDownOldPods (dep_name d) ns w)) ns (dep_name d) \<longleftrightarrow>
         1 \<le> sint r"
proof -
  have "find_named dep_name (dep_name d) (deployments w ns) = Some d"
    using wf_world_distinct [OF assms(1), of ns] assms(3) by (simp add: find_named_mid)
  then have "replicas_of w ns (dep_name d) = Some r"
    using assms(6) by (simp add: replicas_of_def)
  then have "replicas_of (snd (ScaleDownOldPods (dep_name d) ns w)) ns (dep_name d) =
      Some (if 1 <s r then r - 1 else r)"
    using assms(2) by (intro ScaleDownOldPods_replicas) simp_all
  moreover have "replicas_of (snd (ScalePod ns n x w)) ns (dep_name d) = Some (scale_down_count r)"
    using ScalePod_replicas [OF assms(1-3), of n x] assms(4-6) by (simp add: target_scale_down)
  ultimately show ?thesis by (simp add: scale_down_paths)
qed

theorem scale_down_paths_agree_witness:
  "replicas_of (snd (ScalePod ''shop'' ''api'' 10 shop)) ''shop'' ''cache'' = Some 1 \<and>
   replicas_of (snd (ScaleDownOldPods ''cache'' ''shop'' shop)) ''shop'' ''cache'' = Some 1"
  using scale_down_paths_agree
      [OF shop_wf, of "''shop''" "[api_dep]" cache_dep "[jobs_dep]" 1 "''api''" 10]
    ScalePod_replicas [OF shop_wf, of "''shop''" "[api_dep]" cache_dep "[jobs_dep]" "''api''" 10]
  by (auto simp: shop_deployments shop_names)

end
