(* ===== verification/Waiter.thy ===== *)
theory Waiter
  imports Scale
begin

text \<open>
  The convergence waiters of \<open>src/pkg/kubernetes/deployment/scale.go\<close>:
  \<open>WaitForScaling\<close> and \<open>WaitForPVCReady\<close>. Both start a one-minute timer and a
  one-second ticker and loop over a \<open>select\<close>: a tick reads the object and returns when it
  is ready or when the read fails, the timer ends the wait.

  \<open>poll_loop\<close> is that \<open>for\<close>/\<open>select\<close>; its first argument is the number of ticks still
  to come before the timer. The ticks fall at seconds 1 to 59 after the start and the
  timer at second 60, where it is taken before the tick of the same instant, so a wait
  polls at most \<open>polls = 59\<close> times. The lemmas on \<open>poll_loop\<close> hold for every number of
  ticks. \<open>scaling_tick\<close> and \<open>pvc_tick\<close> are the bodies of the ticker cases; they answer
  \<open>Inr True\<close> for \<open>return nil\<close>, \<open>Inr False\<close> for falling out of the \<open>select\<close> into the
  next round, and \<open>Inl\<close> for \<open>return err\<close>.

  The timer case is \<open>return log.Error(...)\<close>, and \<open>log.Error\<close> returns \<open>nil\<close>: a wait
  that times out reports success.

  \<open>wait_spec\<close> is what a wait promises in terms of the cluster alone: the first second at
  which an observation of the object is ready or fails, or the timeout. The refinement
  lemmas show that the waiters compute it when the API itself does not fail. \<open>ticks\<close> is
  the cluster after a number of ticks; on a timeline in the order of its times it is the
  cluster after that many seconds, which gives the waiters their progress property: a claim
  that becomes bound before the deadline ends the wait with success.
\<close>

section \<open>Definitions\<close>

definition timeoutSeconds :: nat where
  "timeoutSeconds = 60"

definition tickSeconds :: nat where
  "tickSeconds = 1"

definition polls :: nat where
  "polls = timeoutSeconds div tickSeconds - 1"

fun poll_loop :: "nat \<Rightarrow> (world \<Rightarrow> bool result \<times> world) \<Rightarrow> string \<Rightarrow> world \<Rightarrow> unit result \<times> world" where
  "poll_loop 0 tick timeout_msg w = returned (error_nil timeout_msg (sleep tickSeconds w))"
| "poll_loop (Suc k) tick timeout_msg w =
     (case tick (sleep tickSeconds w) of
        (Inl err, w1) \<Rightarrow> (Inl err, w1)
      | (Inr True, w1) \<Rightarrow> (Inr (), w1)
      | (Inr False, w1) \<Rightarrow> poll_loop k tick timeout_msg w1)"

definition scaling_tick :: "string \<Rightarrow> string \<Rightarrow> int32 \<Rightarrow> world \<Rightarrow> bool result \<times> world" where
  "scaling_tick deploymentName namespace desiredReplicaCount w =
     (case get_deployment namespace deploymentName w of
        (Inl err, w1) \<Rightarrow> (Inl err, snd (error_nil ''Failed to get deployment status: %v'' w1))
      | (Inr d, w1) \<Rightarrow>
          (let w2 = info ''Current replicas: %d, Desired replicas: %d'' w1 in
           if ready_replicas d = desiredReplicaCount
           then (Inr True, info ''Deployment %s scaled successfully to %v replicas'' w2)
           else (Inr False, w2)))"

definition WaitForScaling :: "string \<Rightarrow> string \<Rightarrow> int32 \<Rightarrow> world \<Rightarrow> unit result \<times> world" where
  "WaitForScaling deploymentName namespace desiredReplicaCount =
     poll_loop polls (scaling_tick deploymentName namespace desiredReplicaCount)
       ''Timed out waiting for scaling of deployment %s to %d replicas''"

definition pvc_tick :: "string \<Rightarrow> string \<Rightarrow> world \<Rightarrow> bool result \<times> world" where
  "pvc_tick pvcName namespace w =
     (case get_pvc namespace pvcName w of
        (Inl err, w1) \<Rightarrow> (Inl err, snd (error_nil ''Failed to get PVC %s in namespace %s: %v'' w1))
      | (Inr p, w1) \<Rightarrow>
          if phase p = ClaimBound
          then (Inr True, info ''PVC %s in namespace %s is ready'' w1)
          else (Inr False, w1))"

definition WaitForPVCReady :: "string \<Rightarrow> string \<Rightarrow> world \<Rightarrow> unit result \<times> world" where
  "WaitForPVCReady pvcName namespace =
     poll_loop polls (pvc_tick pvcName namespace)
       ''Timed out waiting for PVC %s in namespace %s to be ready''"

section \<open>What a wait promises\<close>

datatype wait_outcome = Ready nat | Aborted nat error | TimedOut nat

fun later :: "wait_outcome \<Rightarrow> wait_outcome" where
  "later (Ready t) = Ready (Suc t)"
| "later (Aborted t e) = Aborted (Suc t) e"
| "later (TimedOut t) = TimedOut (Suc t)"

fun wait_spec :: "nat \<Rightarrow> (world \<Rightarrow> bool result) \<Rightarrow> world \<Rightarrow> wait_outcome" where
  "wait_spec 0 obs w = TimedOut 1"
| "wait_spec (Suc k) obs w =
     (case obs (sleep tickSeconds w) of
        Inl e \<Rightarrow> Aborted 1 e
      | Inr True \<Rightarrow> Ready 1
      | Inr False \<Rightarrow> later (wait_spec k obs (sleep tickSeconds w)))"

text \<open>The observations of the two waiters: what a read that goes through shows.\<close>

definition scaling_obs :: "string \<Rightarrow> string \<Rightarrow> int32 \<Rightarrow> world \<Rightarrow> bool result" where
  "scaling_obs n ns x w =
     (case find_named dep_name n (deployments w ns) of
        None \<Rightarrow> Inl (Api NotFound)
      | Some d \<Rightarrow> Inr (ready_replicas d = x))"

definition pvc_obs :: "string \<Rightarrow> string \<Rightarrow> world \<Rightarrow> bool result" where
  "pvc_obs n ns w =
     (case pvcs w (ns, n) of
        None \<Rightarrow> Inl (Api NotFound)
      | Some p \<Rightarrow> Inr (phase p = ClaimBound))"

text \<open>
  The outcome of a run that started at time \<open>t0\<close>, read from what the caller and the log
  see: the returned value, the time, and the level of the last line.
\<close>

definition outcome :: "nat \<Rightarrow> unit result \<times> world \<Rightarrow> wait_outcome" where
  "outcome t0 rw =
     (case fst rw of
        Inl e \<Rightarrow> Aborted (now (snd rw) - t0) e
      | Inr u \<Rightarrow>
          if logs (snd rw) \<noteq> [] \<and> line_level (last (logs (snd rw))) = ERROR
          then TimedOut (now (snd rw) - t0)
          else Ready (now (snd rw) - t0))"

text \<open>The cluster without the bookkeeping of a run.\<close>

definition env_of :: "world \<Rightarrow> world" where
  "env_of w = w\<lparr>faults := [], calls := [], logs := []\<rparr>"

text \<open>The reads that a wait with this outcome has made: one each second, none at the timeout.\<close>

fun polled :: "wait_outcome \<Rightarrow> nat" where
  "polled (Ready t) = t"
| "polled (Aborted t e) = t"
| "polled (TimedOut t) = t - 1"

fun elapsed :: "wait_outcome \<Rightarrow> nat" where
  "elapsed (Ready t) = t"
| "elapsed (Aborted t e) = t"
| "elapsed (TimedOut t) = t"

text \<open>The world after a number of ticks of the waiter's clock.\<close>

fun ticks :: "nat \<Rightarrow> world \<Rightarrow> world" where
  "ticks 0 w = w"
| "ticks (Suc k) w = ticks k (sleep tickSeconds w)"

section \<open>Example worlds\<close>

text \<open>
  The cluster of \<open>world0\<close> while the claim \<open>data-pvc\<close> is being resized (it is bound again
  after three seconds), and while the deployment \<open>web\<close> is rolling out a third replica (ready
  after five seconds).
\<close>

definition resizing :: world where
  "resizing = world0\<lparr>pvcs := [(''ns1'', ''data-pvc'') \<mapsto> data_pvc\<lparr>phase := ''Resizing''\<rparr>],
                       timeline := [(3, SetPhase ''ns1'' ''data-pvc'' ClaimBound)]\<rparr>"

definition rolling :: world where
  "rolling = world0\<lparr>timeline := [(5, SetReady ''ns1'' ''web'' 3)]\<rparr>"

section \<open>The environment\<close>

lemma env_of_frame [simp, frame]:
  "namespaces (env_of w) = namespaces w"
  "deployments (env_of w) = deployments w"
  "pvcs (env_of w) = pvcs w"
  "pods (env_of w) = pods w"
  "timeline (env_of w) = timeline w"
  "now (env_of w) = now w"
  by (simp_all add: env_of_def)

lemma env_of_logging [simp]:
  "env_of (info msg w) = env_of w"
  "env_of (warning msg w) = env_of w"
  "env_of (snd (error_nil msg w)) = env_of w"
  "env_of (called c w) = env_of w"
  by (simp_all add: env_of_def logging_defs called_def)

lemma apply_event_books:
  "apply_event e (w\<lparr>faults := f, calls := c, logs := l\<rparr>) =
     (apply_event e w)\<lparr>faults := f, calls := c, logs := l\<rparr>"
  by (cases e) simp_all

lemma fold_apply_event_books:
  "fold apply_event es (w\<lparr>faults := f, calls := c, logs := l\<rparr>) =
     (fold apply_event es w)\<lparr>faults := f, calls := c, logs := l\<rparr>"
  by (induction es arbitrary: w) (simp_all add: apply_event_books)

lemma env_of_sleep: "env_of (sleep d w) = sleep d (env_of w)"
  by (cases w) (simp add: env_of_def sleep_def fold_apply_event_books [symmetric])

lemma wait_spec_env:
  assumes "\<And>w. obs (env_of w) = obs w"
  shows "env_of w = env_of w' \<Longrightarrow> wait_spec k obs w = wait_spec k obs w'"
proof (induction k arbitrary: w w')
  case 0
  then show ?case by simp
next
  case (Suc k)
  from Suc.prems have e: "env_of (sleep tickSeconds w) = env_of (sleep tickSeconds w')"
    by (simp add: env_of_sleep)
  then have "obs (sleep tickSeconds w) = obs (sleep tickSeconds w')"
    using assms [of "sleep tickSeconds w"] assms [of "sleep tickSeconds w'"] by simp
  with Suc.IH [OF e] show ?case by (simp split: sum.split bool.split)
qed

lemma obs_env [simp]:
  "scaling_obs n ns x (env_of w) = scaling_obs n ns x w"
  "pvc_obs n ns (env_of w) = pvc_obs n ns w"
  by (simp_all add: scaling_obs_def pvc_obs_def)

section \<open>The loop\<close>

lemma poll_loop_Suc:
  "poll_loop (Suc k) tick msg w =
     (case fst (tick (sleep tickSeconds w)) of
        Inl err \<Rightarrow> (Inl err, snd (tick (sleep tickSeconds w)))
      | Inr True \<Rightarrow> (Inr (), snd (tick (sleep tickSeconds w)))
      | Inr False \<Rightarrow> poll_loop k tick msg (snd (tick (sleep tickSeconds w))))"
  by (cases "tick (sleep tickSeconds w)") (simp split: sum.split bool.split)

lemma poll_loop_0 [simp]:
  "poll_loop 0 tick msg w = (Inr (), snd (error_nil msg (sleep tickSeconds w)))"
  by simp

declare poll_loop.simps [simp del]

lemma polls_eq [simp]: "polls = 59"
  by (simp add: polls_def timeoutSeconds_def tickSeconds_def)

lemma poll_loop_now:
  assumes "\<And>w. now (snd (tick w)) = now w"
  shows "now w < now (snd (poll_loop k tick msg w)) \<and>
         now (snd (poll_loop k tick msg w)) \<le> now w + Suc k * tickSeconds"
proof (induction k arbitrary: w)
  case 0
  then show ?case by (simp add: tickSeconds_def)
next
  case (Suc k)
  from Suc [of "snd (tick (sleep tickSeconds w))"] show ?case
    by (auto simp: poll_loop_Suc assms tickSeconds_def split: sum.split bool.split)
qed

lemma poll_loop_calls:
  assumes "\<And>w. calls (snd (tick w)) = calls w @ [c]"
  shows "\<exists>j\<le>k. calls (snd (poll_loop k tick msg w)) = calls w @ replicate j c"
proof (induction k arbitrary: w)
  case 0
  then show ?case by simp
next
  case (Suc k)
  let ?w1 = "snd (tick (sleep tickSeconds w))"
  have one: "calls ?w1 = calls w @ replicate 1 c"
    by (simp add: assms)
  from Suc [of ?w1] obtain j where "j \<le> k"
    "calls (snd (poll_loop k tick msg ?w1)) = calls w @ replicate (Suc j) c"
    by (auto simp: assms replicate_append_same)
  with one show ?case
    by (auto simp: poll_loop_Suc split: sum.split bool.split intro: exI [of _ 1] exI [of _ "Suc j"]
        simp del: replicate.simps)
qed

lemma poll_loop_wf:
  assumes "\<And>w. wf_world w \<Longrightarrow> wf_world (snd (tick w))" and "wf_world w"
  shows "wf_world (snd (poll_loop k tick msg w))"
  using assms(2)
proof (induction k arbitrary: w)
  case 0
  then show ?case by (simp add: wf_world_sleep)
next
  case (Suc k)
  then show ?case
    by (auto simp: poll_loop_Suc assms(1) wf_world_sleep split: sum.split bool.split)
qed

lemma outcome_later:
  "t0 < now (snd rw) \<Longrightarrow> outcome t0 rw = later (outcome (Suc t0) rw)"
  by (auto simp: outcome_def Suc_diff_Suc split: sum.split)

text \<open>
  The refinement, for any tick that shows the observation, leaves the cluster as it is
  and ends on a line that is not an error when it is ready.
\<close>

lemma poll_loop_refines:
  assumes res: "\<And>w. faults w = [] \<Longrightarrow> fst (tick w) = obs w"
    and env: "\<And>w. env_of (snd (tick w)) = env_of w"
    and flt: "\<And>w. faults w = [] \<Longrightarrow> faults (snd (tick w)) = []"
    and fin: "\<And>w. fst (tick w) = Inr True \<Longrightarrow>
                logs (snd (tick w)) \<noteq> [] \<and> line_level (last (logs (snd (tick w)))) \<noteq> ERROR"
    and obs: "\<And>w. obs (env_of w) = obs w"
    and "faults w = []"
  shows "outcome (now w) (poll_loop k tick msg w) = wait_spec k obs w"
  using \<open>faults w = []\<close>
proof (induction k arbitrary: w)
  case 0
  then show ?case
    by (simp add: outcome_def tickSeconds_def format_line_def)
next
  case (Suc k)
  let ?w1 = "sleep tickSeconds w"
  let ?w2 = "snd (tick ?w1)"
  have f1: "faults ?w1 = []" using Suc.prems by simp
  have now2: "now ?w2 = Suc (now w)"
    using env [of ?w1] env_of_frame(6) [of ?w2] by (simp add: tickSeconds_def)
  have same: "wait_spec k obs ?w2 = wait_spec k obs ?w1"
    using obs env by (intro wait_spec_env) simp_all
  have nowk: "now w < now (snd (poll_loop k tick msg ?w2))"
    using poll_loop_now [of tick ?w2 k msg] env_of_frame(6) env now2
    by (metis Suc_lessD env_of_frame(6))
  have "outcome (now w) (poll_loop k tick msg ?w2) = later (wait_spec k obs ?w1)"
    using Suc.IH [of ?w2] flt [OF f1] now2 same nowk by (simp add: outcome_later)
  with res [OF f1] fin [of ?w1] now2 show ?case
    by (auto simp: poll_loop_Suc tickSeconds_def outcome_def split: sum.split bool.split)
qed

lemma outcome_elapsed:
  "elapsed (outcome t0 rw) = now (snd rw) - t0"
  by (simp add: outcome_def split: sum.split)

lemma outcome_result:
  "fst rw = Inr () \<longleftrightarrow> (\<forall>t e. outcome t0 rw \<noteq> Aborted t e)"
  by (cases "fst rw") (auto simp: outcome_def)

lemma outcome_ReadyD:
  assumes "outcome t0 rw = Ready t" and "t0 < now (snd rw)"
  shows "fst rw = Inr ()" and "now (snd rw) = t0 + t"
  using assms by (auto simp: outcome_def split: sum.splits if_splits)

lemma outcome_TimedOutD:
  assumes "outcome t0 rw = TimedOut t" and "t0 < now (snd rw)"
  shows "fst rw = Inr ()" and "now (snd rw) = t0 + t"
    and "line_level (last (logs (snd rw))) = ERROR"
  using assms by (auto simp: outcome_def split: sum.splits if_splits)

lemma outcome_AbortedD:
  assumes "outcome t0 rw = Aborted t e" and "t0 < now (snd rw)"
  shows "fst rw = Inl e" and "now (snd rw) = t0 + t"
  using assms by (auto simp: outcome_def split: sum.splits if_splits)

lemma polled_later: "0 < elapsed out \<Longrightarrow> polled (later out) = Suc (polled out)"
  by (cases out) simp_all

lemma poll_loop_polled:
  assumes cs: "\<And>w. calls (snd (tick w)) = calls w @ [c]"
    and nw: "\<And>w. now (snd (tick w)) = now w"
    and fin: "\<And>w. fst (tick w) = Inr True \<Longrightarrow>
                logs (snd (tick w)) \<noteq> [] \<and> line_level (last (logs (snd (tick w)))) \<noteq> ERROR"
  shows "calls (snd (poll_loop k tick msg w)) =
           calls w @ replicate (polled (outcome (now w) (poll_loop k tick msg w))) c"
proof (induction k arbitrary: w)
  case 0
  then show ?case
    by (simp add: outcome_def tickSeconds_def format_line_def)
next
  case (Suc k)
  let ?w2 = "snd (tick (sleep tickSeconds w))"
  let ?R = "poll_loop k tick msg ?w2"
  have now2: "now ?w2 = Suc (now w)"
    by (simp add: nw tickSeconds_def)
  have nowk: "now ?w2 < now (snd ?R)"
    using poll_loop_now [of tick ?w2 k msg] nw by simp
  have "outcome (now w) ?R = later (outcome (now ?w2) ?R)"
    using outcome_later [of "now w" ?R] nowk now2 by simp
  moreover have "0 < elapsed (outcome (now ?w2) ?R)"
    using nowk by (simp add: outcome_elapsed)
  ultimately have "polled (outcome (now w) ?R) = Suc (polled (outcome (now ?w2) ?R))"
    by (simp add: polled_later)
  with Suc [of ?w2] have "calls (snd ?R) = calls w @ replicate (polled (outcome (now w) ?R)) c"
    by (simp add: cs replicate_append_same)
  with fin [of "sleep tickSeconds w"] now2 show ?case
    by (auto simp: poll_loop_Suc outcome_def cs split: sum.split bool.split)
qed

section \<open>The ticks\<close>

lemma pvc_tick_result:
  "fst (pvc_tick n ns w) =
     (case fault_of w of Some e \<Rightarrow> Inl (Api e) | None \<Rightarrow> pvc_obs n ns w)"
  by (simp add: pvc_tick_def pvc_obs_def get_pvc_def api_read_def split: option.split)

lemma pvc_tick_world:
  "snd (pvc_tick n ns w) =
     (case fst (pvc_tick n ns w) of
        Inl e \<Rightarrow> snd (error_nil ''Failed to get PVC %s in namespace %s: %v'' (called (GetPVC ns n) w))
      | Inr True \<Rightarrow> info ''PVC %s in namespace %s is ready'' (called (GetPVC ns n) w)
      | Inr False \<Rightarrow> called (GetPVC ns n) w)"
  by (simp add: pvc_tick_def get_pvc_def api_read_def split: option.split)

lemma scaling_tick_result:
  "fst (scaling_tick n ns x w) =
     (case fault_of w of Some e \<Rightarrow> Inl (Api e) | None \<Rightarrow> scaling_obs n ns x w)"
  by (simp add: scaling_tick_def scaling_obs_def get_deployment_def api_read_def Let_def
      split: option.split)

lemma scaling_tick_world:
  "snd (scaling_tick n ns x w) =
     (case fst (scaling_tick n ns x w) of
        Inl e \<Rightarrow> snd (error_nil ''Failed to get deployment status: %v'' (called (GetDeployment ns n) w))
      | Inr True \<Rightarrow> info ''Deployment %s scaled successfully to %v replicas''
                     (info ''Current replicas: %d, Desired replicas: %d'' (called (GetDeployment ns n) w))
      | Inr False \<Rightarrow> info ''Current replicas: %d, Desired replicas: %d'' (called (GetDeployment ns n) w))"
  by (simp add: scaling_tick_def get_deployment_def api_read_def Let_def split: option.split)

lemma tick_frame [simp, frame]:
  "now (snd (pvc_tick n ns w)) = now w"
  "calls (snd (pvc_tick n ns w)) = calls w @ [GetPVC ns n]"
  "faults (snd (pvc_tick n ns w)) = tl (faults w)"
  "env_of (snd (pvc_tick n ns w)) = env_of w"
  "now (snd (scaling_tick n ns x w)) = now w"
  "calls (snd (scaling_tick n ns x w)) = calls w @ [GetDeployment ns n]"
  "faults (snd (scaling_tick n ns x w)) = tl (faults w)"
  "env_of (snd (scaling_tick n ns x w)) = env_of w"
  by (simp_all add: pvc_tick_world scaling_tick_world split: sum.split bool.split)

lemma tick_wf [simp, wf_intros]:
  "wf_world (snd (pvc_tick n ns w)) = wf_world w"
  "wf_world (snd (scaling_tick n ns x w)) = wf_world w"
  by (simp_all add: pvc_tick_world scaling_tick_world split: sum.split bool.split)

lemma tick_ready_line:
  "fst (pvc_tick n ns w) = Inr True \<Longrightarrow>
     logs (snd (pvc_tick n ns w)) \<noteq> [] \<and> line_level (last (logs (snd (pvc_tick n ns w)))) \<noteq> ERROR"
  "fst (scaling_tick n ns x w) = Inr True \<Longrightarrow>
     logs (snd (scaling_tick n ns x w)) \<noteq> [] \<and>
     line_level (last (logs (snd (scaling_tick n ns x w)))) \<noteq> ERROR"
  by (simp_all add: pvc_tick_world scaling_tick_world format_line_def)

section \<open>The waiters\<close>

lemma WaitForPVCReady_now:
  "now w < now (snd (WaitForPVCReady n ns w))"
  "now (snd (WaitForPVCReady n ns w)) \<le> now w + timeoutSeconds"
  using poll_loop_now [of "pvc_tick n ns" w polls]
  by (simp_all add: WaitForPVCReady_def tickSeconds_def timeoutSeconds_def)

lemma WaitForScaling_now:
  "now w < now (snd (WaitForScaling n ns x w))"
  "now (snd (WaitForScaling n ns x w)) \<le> now w + timeoutSeconds"
  using poll_loop_now [of "scaling_tick n ns x" w polls]
  by (simp_all add: WaitForScaling_def tickSeconds_def timeoutSeconds_def)

lemma WaitForPVCReady_outcome:
  assumes "faults w = []"
  shows "outcome (now w) (WaitForPVCReady n ns w) = wait_spec polls (pvc_obs n ns) w"
  unfolding WaitForPVCReady_def using assms
  by (intro poll_loop_refines) (simp_all add: pvc_tick_result tick_ready_line)

lemma WaitForScaling_outcome:
  assumes "faults w = []"
  shows "outcome (now w) (WaitForScaling n ns x w) = wait_spec polls (scaling_obs n ns x) w"
  unfolding WaitForScaling_def using assms
  by (intro poll_loop_refines) (simp_all add: scaling_tick_result tick_ready_line)

lemma WaitForPVCReady_polled:
  "calls (snd (WaitForPVCReady n ns w)) =
     calls w @ replicate (polled (outcome (now w) (WaitForPVCReady n ns w))) (GetPVC ns n)"
  unfolding WaitForPVCReady_def
  by (intro poll_loop_polled) (simp_all add: tick_ready_line)

lemma WaitForScaling_polled:
  "calls (snd (WaitForScaling n ns x w)) =
     calls w @ replicate (polled (outcome (now w) (WaitForScaling n ns x w))) (GetDeployment ns n)"
  unfolding WaitForScaling_def
  by (intro poll_loop_polled) (simp_all add: tick_ready_line)

lemma wf_world_waiters [wf_intros]:
  "wf_world w \<Longrightarrow> wf_world (snd (WaitForPVCReady n ns w))"
  "wf_world w \<Longrightarrow> wf_world (snd (WaitForScaling n' ns x w))"
  by (simp_all add: WaitForPVCReady_def WaitForScaling_def poll_loop_wf)

section \<open>Waiting in particular environments\<close>

lemma wait_spec_quiet:
  assumes "\<And>w t. obs (w\<lparr>now := t\<rparr>) = obs w"
  shows "timeline w = [] \<Longrightarrow> obs w = Inr False \<Longrightarrow> wait_spec k obs w = TimedOut (Suc k)"
  by (induction k arbitrary: w) (simp_all add: assms)

lemma wait_spec_at_once:
  assumes "\<And>w t. obs (w\<lparr>now := t\<rparr>) = obs w"
  shows "timeline w = [] \<Longrightarrow> obs w = Inr True \<Longrightarrow> wait_spec (Suc k) obs w = Ready 1"
  by (simp add: assms)

lemma obs_now [simp]:
  "pvc_obs n ns (w\<lparr>now := t\<rparr>) = pvc_obs n ns w"
  "scaling_obs n' ns x (w\<lparr>now := t\<rparr>) = scaling_obs n' ns x w"
  by (simp_all add: pvc_obs_def scaling_obs_def)

lemma wait_spec_bound_at:
  assumes "timeline w = [(now w + Suc t, SetPhase ns n ClaimBound)]"
    and "pvcs w (ns, n) = Some p" and "phase p \<noteq> ClaimBound" and "t < k"
  shows "wait_spec k (pvc_obs n ns) w = Ready (Suc t)"
  using assms
proof (induction t arbitrary: w k)
  case 0
  then obtain k' where "k = Suc k'" by (cases k) auto
  with 0 show ?case
    by (simp add: sleep_def tickSeconds_def pvc_obs_def)
next
  case (Suc t)
  then obtain k' where k: "k = Suc k'" "t < k'" by (cases k) auto
  let ?w1 = "sleep tickSeconds w"
  have w1: "timeline ?w1 = [(now ?w1 + Suc t, SetPhase ns n ClaimBound)]" "pvcs ?w1 (ns, n) = Some p"
    using Suc.prems by (simp_all add: sleep_def tickSeconds_def)
  with Suc.prems(3) have "pvc_obs n ns ?w1 = Inr False" by (simp add: pvc_obs_def)
  with Suc.IH [OF w1 Suc.prems(3) k(2)] k(1) show ?case by simp
qed

lemma wait_spec_ready_at:
  assumes "timeline w = [(now w + Suc t, SetReady ns n x)]"
    and "find_named dep_name n (deployments w ns) = Some d" and "ready_replicas d \<noteq> x" and "t < k"
  shows "wait_spec k (scaling_obs n ns x) w = Ready (Suc t)"
  using assms
proof (induction t arbitrary: w k)
  case 0
  then obtain k' where "k = Suc k'" by (cases k) auto
  with 0 show ?case
    by (simp add: sleep_def tickSeconds_def scaling_obs_def find_update_named_same)
next
  case (Suc t)
  then obtain k' where k: "k = Suc k'" "t < k'" by (cases k) auto
  let ?w1 = "sleep tickSeconds w"
  have w1: "timeline ?w1 = [(now ?w1 + Suc t, SetReady ns n x)]"
      "find_named dep_name n (deployments ?w1 ns) = Some d"
    using Suc.prems by (simp_all add: sleep_def tickSeconds_def)
  with Suc.prems(3) have "scaling_obs n ns x ?w1 = Inr False" by (simp add: scaling_obs_def)
  with Suc.IH [OF w1 Suc.prems(3) k(2)] k(1) show ?case by simp
qed

lemma poll_loop_timeout_line:
  assumes fin: "\<And>w. fst (tick w) = Inr True \<Longrightarrow>
                logs (snd (tick w)) \<noteq> [] \<and> line_level (last (logs (snd (tick w)))) \<noteq> ERROR"
  shows "outcome t0 (poll_loop k tick msg w) = TimedOut t \<Longrightarrow>
         logged ERROR msg (logs (snd (poll_loop k tick msg w)))"
proof (induction k arbitrary: w)
  case 0
  then show ?case by simp
next
  case (Suc k)
  with fin [of "sleep tickSeconds w"] show ?case
    by (auto simp: poll_loop_Suc outcome_def split: sum.splits bool.splits if_splits)
qed

lemma example_fields [simp]:
  "faults resizing = []" "now resizing = 0"
  "timeline resizing = [(now resizing + Suc 2, SetPhase ''ns1'' ''data-pvc'' ClaimBound)]"
  "pvcs resizing (''ns1'', ''data-pvc'') = Some (data_pvc\<lparr>phase := ''Resizing''\<rparr>)"
  "faults rolling = []" "now rolling = 0"
  "timeline rolling = [(now rolling + Suc 4, SetReady ''ns1'' ''web'' 3)]"
  "find_named dep_name ''web'' (deployments rolling ''ns1'') = Some web"
  "ready_replicas web = 2"
  by (simp_all add: resizing_def rolling_def world0_defs)

section \<open>Waiting while nothing happens\<close>

lemma env_of_now: "env_of (w\<lparr>now := t\<rparr>) = (env_of w)\<lparr>now := t\<rparr>"
  by (simp add: env_of_def)

lemma poll_loop_quiet:
  assumes "\<And>w. env_of (snd (tick w)) = env_of w" and "timeline w = []"
  shows "env_of (snd (poll_loop k tick msg w)) =
           (env_of w)\<lparr>now := now (snd (poll_loop k tick msg w))\<rparr>"
  using assms(2)
proof (induction k arbitrary: w)
  case 0
  then show ?case by (simp add: env_of_now)
next
  case (Suc k)
  let ?w2 = "snd (tick (sleep tickSeconds w))"
  have e2: "env_of ?w2 = (env_of w)\<lparr>now := now w + tickSeconds\<rparr>"
    using Suc.prems by (simp add: assms(1) env_of_now)
  then have "timeline ?w2 = []"
    using Suc.prems env_of_frame(5) [of ?w2] by simp
  moreover have "now ?w2 = now w + tickSeconds"
    using e2 env_of_frame(6) [of ?w2] by simp
  ultimately show ?case
    using Suc.IH [of ?w2] e2 Suc.prems
    by (simp add: poll_loop_Suc env_of_now split: sum.split bool.split)
qed

lemma WaitForPVCReady_quiet:
  assumes "timeline w = []"
  shows "pvcs (snd (WaitForPVCReady n ns w)) = pvcs w"
    and "deployments (snd (WaitForPVCReady n ns w)) = deployments w"
    and "timeline (snd (WaitForPVCReady n ns w)) = []"
proof -
  have "env_of (snd (WaitForPVCReady n ns w)) =
          (env_of w)\<lparr>now := now (snd (WaitForPVCReady n ns w))\<rparr>"
    unfolding WaitForPVCReady_def using assms by (intro poll_loop_quiet) simp_all
  then show "pvcs (snd (WaitForPVCReady n ns w)) = pvcs w"
    and "deployments (snd (WaitForPVCReady n ns w)) = deployments w"
    and "timeline (snd (WaitForPVCReady n ns w)) = []"
    using assms env_of_frame [of "snd (WaitForPVCReady n ns w)"] by simp_all
qed

lemma WaitForPVCReady_frame [simp, frame]:
  "namespaces (snd (WaitForPVCReady n ns w)) = namespaces w"
  "pods (snd (WaitForPVCReady n ns w)) = pods w"
  "namespaces (snd (WaitForScaling n ns x w)) = namespaces w"
  "pods (snd (WaitForScaling n ns x w)) = pods w"
proof -
  have frame: "namespaces (snd (poll_loop k tick msg w)) = namespaces w \<and>
      pods (snd (poll_loop k tick msg w)) = pods w"
    if "\<And>w. env_of (snd (tick w)) = env_of w" for k tick msg
    using that
  proof (induction k arbitrary: w)
    case 0
    then show ?case by simp
  next
    case (Suc k)
    have "namespaces (snd (tick v)) = namespaces v" "pods (snd (tick v)) = pods v" for v
      using Suc.prems [of v] env_of_frame(1,4) [of "snd (tick v)"] by simp_all
    with Suc show ?case
      by (simp add: poll_loop_Suc split: sum.split bool.split)
  qed
  show "namespaces (snd (WaitForPVCReady n ns w)) = namespaces w"
    "pods (snd (WaitForPVCReady n ns w)) = pods w"
    "namespaces (snd (WaitForScaling n ns x w)) = namespaces w"
    "pods (snd (WaitForScaling n ns x w)) = pods w"
    by (simp_all add: WaitForPVCReady_def WaitForScaling_def frame)
qed

lemma WaitForPVCReady_bound_already:
  assumes "faults w = []" and "timeline w = []"
    and "pvcs w (ns, n) = Some p" and "phase p = ClaimBound"
  shows "fst (WaitForPVCReady n ns w) = Inr ()"
    and "now (snd (WaitForPVCReady n ns w)) = now w + 1"
    and "calls (snd (WaitForPVCReady n ns w)) = calls w @ [GetPVC ns n]"
    and "faults (snd (WaitForPVCReady n ns w)) = []"
proof -
  have "wait_spec (Suc 58) (pvc_obs n ns) w = Ready 1"
    using assms by (intro wait_spec_at_once) (simp_all add: pvc_obs_def)
  then have out: "outcome (now w) (WaitForPVCReady n ns w) = Ready 1"
    using WaitForPVCReady_outcome [OF assms(1), of n ns] by simp
  from outcome_ReadyD [OF out WaitForPVCReady_now(1)]
  show "fst (WaitForPVCReady n ns w) = Inr ()" "now (snd (WaitForPVCReady n ns w)) = now w + 1"
    by simp_all
  from out show "calls (snd (WaitForPVCReady n ns w)) = calls w @ [GetPVC ns n]"
    by (simp add: WaitForPVCReady_polled [of n ns w])
  have "faults (snd (poll_loop k (pvc_tick n ns) msg v)) = []" if "faults v = []" for k msg v
    using that by (induction k arbitrary: v) (simp_all add: poll_loop_Suc split: sum.split bool.split)
  with assms(1) show "faults (snd (WaitForPVCReady n ns w)) = []"
    by (simp add: WaitForPVCReady_def)
qed

section \<open>Waiting on a schedule\<close>

text \<open>
  On a timeline in the order of its times the ticks of a waiter add up to one sleep, so what a
  waiter observes at its polls is what the cluster shows after that many seconds. A waiter
  whose observation holds at one of its polls, with no read failing before, therefore reports
  success at that poll or an earlier one.
\<close>

lemma ticks_sleep: "scheduled w \<Longrightarrow> ticks (Suc k) w = sleep (Suc k * tickSeconds) w"
proof (induction k arbitrary: w)
  case 0
  then show ?case by simp
next
  case (Suc k)
  from Suc.prems have "ticks (Suc (Suc k)) w = sleep (Suc k * tickSeconds) (sleep tickSeconds w)"
    using Suc.IH [of "sleep tickSeconds w"] by simp
  with Suc.prems show ?case by (simp add: sleep_add)
qed

lemma wait_spec_eventually:
  assumes "obs (ticks (Suc t) w) = Inr True" and "t < k"
    and "\<forall>j < t. is_ok (obs (ticks (Suc j) w))"
  shows "\<exists>s \<le> Suc t. wait_spec k obs w = Ready s"
  using assms
proof (induction t arbitrary: w k)
  case 0
  then obtain k' where "k = Suc k'" by (cases k) auto
  with 0 show ?case by simp
next
  case (Suc t)
  then obtain k' where k: "k = Suc k'" "t < k'" by (cases k) auto
  let ?w1 = "sleep tickSeconds w"
  from Suc.prems(3) have "is_ok (obs (ticks (Suc 0) w))" by blast
  then obtain b where b: "obs ?w1 = Inr b"
    by (cases "obs ?w1") (simp_all add: is_ok_def)
  show ?case
  proof (cases b)
    case True
    with b k show ?thesis by simp
  next
    case False
    have "\<forall>j < t. is_ok (obs (ticks (Suc j) ?w1))"
      using Suc.prems(3) by auto
    with Suc.IH [of ?w1 k'] Suc.prems(1) k(2)
    obtain s where "s \<le> Suc t" "wait_spec k' obs ?w1 = Ready s"
      by auto
    with b False k show ?thesis by simp
  qed
qed

lemma resizing_after:
  "pvc_obs ''data-pvc'' ''ns1'' (sleep d resizing) = Inr (3 \<le> d)"
  by (simp add: pvc_obs_def sleep_eq ClaimBound_def)

lemma rolling_after:
  "scaling_obs ''web'' ''ns1'' 3 (sleep d rolling) = Inr (5 \<le> d)"
  by (simp add: scaling_obs_def sleep_eq rolling_def world0_defs)

text \<open>
  What the waiters share: a run that refines \<open>wait_spec\<close> over an observation which holds
  after \<open>t + 1\<close> seconds has returned \<open>nil\<close> by then, as \<open>Ready\<close>.
\<close>

lemma wait_eventually_ready:
  assumes "outcome (now w) rw = wait_spec polls obs w" and "now w < now (snd rw)"
    and "scheduled w" and "t < polls"
    and "obs (sleep (Suc t * tickSeconds) w) = Inr True"
    and "\<forall>j < t. is_ok (obs (sleep (Suc j * tickSeconds) w))"
  shows "fst rw = Inr () \<and> now (snd rw) \<le> now w + Suc t \<and>
         (\<exists>s \<le> Suc t. outcome (now w) rw = Ready s)"
proof -
  have "\<exists>s \<le> Suc t. wait_spec polls obs w = Ready s"
    using assms(4-6) by (intro wait_spec_eventually) (simp_all only: ticks_sleep [OF assms(3)])
  then obtain s where s: "s \<le> Suc t" "outcome (now w) rw = Ready s"
    using assms(1) by auto
  with outcome_ReadyD [OF s(2) assms(2)] show ?thesis by auto
qed

section \<open>Properties\<close>

text \<open>
  C4 (refinement). When the API does not fail, \<open>WaitForPVCReady\<close> computes the specification
  \<open>wait_spec\<close> over the 59 ticks before the deadline: it returns at the first second at
  which the claim is bound or is gone, or times out, and it has read the claim once for
  every second it waited before that.
\<close>

theorem WaitForPVCReady_refines:
  assumes "faults w = []"
  shows "outcome (now w) (WaitForPVCReady n ns w) = wait_spec polls (pvc_obs n ns) w \<and>
         calls_since w (snd (WaitForPVCReady n ns w)) =
           replicate (polled (wait_spec polls (pvc_obs n ns) w)) (GetPVC ns n)"
  using WaitForPVCReady_outcome [OF assms, of n ns] WaitForPVCReady_polled [of n ns w]
  by simp

theorem WaitForPVCReady_refines_witness:
  "faults resizing = [] \<and>
   outcome (now resizing) (WaitForPVCReady ''data-pvc'' ''ns1'' resizing) = Ready 3 \<and>
   calls_since resizing (snd (WaitForPVCReady ''data-pvc'' ''ns1'' resizing)) =
     [GetPVC ''ns1'' ''data-pvc'', GetPVC ''ns1'' ''data-pvc'', GetPVC ''ns1'' ''data-pvc'']"
  using WaitForPVCReady_refines [of resizing "''data-pvc''" "''ns1''"]
    wait_spec_bound_at [of resizing 2 "''ns1''" "''data-pvc''" _ polls]
  by (simp add: data_pvc_def ClaimBound_def numeral_3_eq_3)

text \<open>
  C34 (refinement). When the API does not fail, \<open>WaitForScaling\<close> computes \<open>wait_spec\<close> for
  the observation "the deployment's ready replicas equal the desired count": it returns at
  the first second at which that holds or the deployment is gone, or times out.
\<close>

theorem WaitForScaling_refines:
  assumes "faults w = []"
  shows "outcome (now w) (WaitForScaling n ns x w) = wait_spec polls (scaling_obs n ns x) w \<and>
         calls_since w (snd (WaitForScaling n ns x w)) =
           replicate (polled (wait_spec polls (scaling_obs n ns x) w)) (GetDeployment ns n)"
  using WaitForScaling_outcome [OF assms, of n ns x] WaitForScaling_polled [of n ns x w]
  by simp

theorem WaitForScaling_refines_witness:
  "faults rolling = [] \<and>
   outcome (now rolling) (WaitForScaling ''web'' ''ns1'' 3 rolling) = Ready 5 \<and>
   length (calls_since rolling (snd (WaitForScaling ''web'' ''ns1'' 3 rolling))) = 5"
  using WaitForScaling_refines [of rolling "''web''" "''ns1''" 3]
    wait_spec_ready_at [of rolling 4 "''ns1''" "''web''" 3 web polls]
  by (simp add: eval_nat_numeral)

text \<open>
  C28 (termination). Whatever the cluster and the API do, \<open>WaitForPVCReady\<close> returns after
  at least one second and at most one minute, and has read the claim at most 59 times
  and called nothing else.
\<close>

theorem WaitForPVCReady_returns_within_a_minute:
  "now w < now (snd (WaitForPVCReady n ns w)) \<and>
   now (snd (WaitForPVCReady n ns w)) \<le> now w + timeoutSeconds \<and>
   length (calls_since w (snd (WaitForPVCReady n ns w))) < timeoutSeconds \<and>
   set (calls_since w (snd (WaitForPVCReady n ns w))) \<subseteq> {GetPVC ns n}"
proof -
  obtain j where "j \<le> polls"
    "calls (snd (WaitForPVCReady n ns w)) = calls w @ replicate j (GetPVC ns n)"
    using poll_loop_calls [of "pvc_tick n ns" "GetPVC ns n" polls] 
    unfolding WaitForPVCReady_def by (metis tick_frame(2))
  then show ?thesis
    using WaitForPVCReady_now [where w = w and n = n and ns = ns]
    by (auto simp: timeoutSeconds_def)
qed

text \<open>
  Whatever the cluster and the API do, \<open>WaitForScaling\<close> returns after at
  least one second and at most one minute, and has read the deployment at most 59 times
  and called nothing else.
\<close>

theorem WaitForScaling_returns_within_a_minute:
  "now w < now (snd (WaitForScaling n ns x w)) \<and>
   now (snd (WaitForScaling n ns x w)) \<le> now w + timeoutSeconds \<and>
   length (calls_since w (snd (WaitForScaling n ns x w))) < timeoutSeconds \<and>
   set (calls_since w (snd (WaitForScaling n ns x w))) \<subseteq> {GetDeployment ns n}"
proof -
  obtain j where "j \<le> polls"
    "calls (snd (WaitForScaling n ns x w)) = calls w @ replicate j (GetDeployment ns n)"
    using poll_loop_calls [of "scaling_tick n ns x" "GetDeployment ns n" polls]
    unfolding WaitForScaling_def by (metis tick_frame(6))
  then show ?thesis
    using WaitForScaling_now [where w = w and n = n and ns = ns and x = x]
    by (auto simp: timeoutSeconds_def)
qed

text \<open>
  C7 (error). A claim that stays unbound makes \<open>WaitForPVCReady\<close> time out, and the
  timeout is returned as \<open>nil\<close>: after exactly one minute and 59 reads the caller gets
  success, and only the log has the line that says the wait timed out.
\<close>

theorem WaitForPVCReady_timeout_returns_nil:
  assumes "faults w = []" and "timeline w = []"
    and "pvcs w (ns, n) = Some p" and "phase p \<noteq> ClaimBound"
  shows "fst (WaitForPVCReady n ns w) = Inr () \<and>
         now (snd (WaitForPVCReady n ns w)) = now w + timeoutSeconds \<and>
         calls_since w (snd (WaitForPVCReady n ns w)) = replicate 59 (GetPVC ns n) \<and>
         logged ERROR ''Timed out waiting for PVC %s in namespace %s to be ready''
           (logs (snd (WaitForPVCReady n ns w)))"
proof -
  have "pvc_obs n ns w = Inr False"
    using assms(3,4) by (simp add: pvc_obs_def)
  with assms(2) have "wait_spec polls (pvc_obs n ns) w = TimedOut (Suc polls)"
    by (intro wait_spec_quiet) simp_all
  then have out: "outcome (now w) (WaitForPVCReady n ns w) = TimedOut 60"
    using WaitForPVCReady_outcome [OF assms(1), of n ns] by simp
  from out have "logged ERROR ''Timed out waiting for PVC %s in namespace %s to be ready''
           (logs (snd (WaitForPVCReady n ns w)))"
    unfolding WaitForPVCReady_def by (rule poll_loop_timeout_line [rotated]) (rule tick_ready_line)
  with outcome_TimedOutD(1,2) [OF out WaitForPVCReady_now(1)] out show ?thesis
    by (simp add: WaitForPVCReady_polled [of n ns w] timeoutSeconds_def)
qed

theorem WaitForPVCReady_timeout_returns_nil_witness:
  "fst (WaitForPVCReady ''data-pvc'' ''ns1'' (resizing\<lparr>timeline := []\<rparr>)) = Inr () \<and>
   now (snd (WaitForPVCReady ''data-pvc'' ''ns1'' (resizing\<lparr>timeline := []\<rparr>))) = 60"
  using WaitForPVCReady_timeout_returns_nil
    [of "resizing\<lparr>timeline := []\<rparr>" "''ns1''" "''data-pvc''" "data_pvc\<lparr>phase := ''Resizing''\<rparr>"]
  by (simp add: timeoutSeconds_def ClaimBound_def)

text \<open>
  A claim that becomes bound \<open>t + 1\<close> seconds after the wait began, before
  the deadline, makes \<open>WaitForPVCReady\<close> return \<open>nil\<close> at that second, after \<open>t + 1\<close> reads.
\<close>

theorem WaitForPVCReady_returns_when_bound:
  assumes "faults w = []" and "timeline w = [(now w + Suc t, SetPhase ns n ClaimBound)]"
    and "pvcs w (ns, n) = Some p" and "phase p \<noteq> ClaimBound" and "t < polls"
  shows "fst (WaitForPVCReady n ns w) = Inr () \<and>
         now (snd (WaitForPVCReady n ns w)) = now w + Suc t \<and>
         calls_since w (snd (WaitForPVCReady n ns w)) = replicate (Suc t) (GetPVC ns n)"
proof -
  have out: "outcome (now w) (WaitForPVCReady n ns w) = Ready (Suc t)"
    using WaitForPVCReady_outcome [OF assms(1), of n ns] wait_spec_bound_at [OF assms(2-5)]
    by simp
  with outcome_ReadyD [OF out WaitForPVCReady_now(1)] show ?thesis
    by (simp add: WaitForPVCReady_polled [of n ns w])
qed

theorem WaitForPVCReady_returns_when_bound_witness:
  "fst (WaitForPVCReady ''data-pvc'' ''ns1'' resizing) = Inr () \<and>
   now (snd (WaitForPVCReady ''data-pvc'' ''ns1'' resizing)) = 3"
  using WaitForPVCReady_returns_when_bound
    [of resizing 2 "''ns1''" "''data-pvc''" "data_pvc\<lparr>phase := ''Resizing''\<rparr>"]
  by (simp add: ClaimBound_def)

text \<open>
  When the first read of the claim fails, \<open>WaitForPVCReady\<close> logs the failure
  and returns that error after one second, without reading again.
\<close>

theorem WaitForPVCReady_read_failure:
  assumes "fault_of w = Some e"
  shows "fst (WaitForPVCReady n ns w) = Inl (Api e) \<and>
         now (snd (WaitForPVCReady n ns w)) = now w + 1 \<and>
         calls_since w (snd (WaitForPVCReady n ns w)) = [GetPVC ns n] \<and>
         logged ERROR ''Failed to get PVC %s in namespace %s: %v''
           (logs (snd (WaitForPVCReady n ns w)))"
proof -
  have "fault_of (sleep tickSeconds w) = Some e"
    using assms by (simp add: fault_of_def)
  then show ?thesis
    by (simp add: WaitForPVCReady_def poll_loop_Suc [of 58, simplified] pvc_tick_result
        pvc_tick_world tickSeconds_def)
qed

theorem WaitForPVCReady_read_failure_witness:
  "fst (WaitForPVCReady ''data-pvc'' ''ns1'' (resizing\<lparr>faults := [Some (Unavailable ''etcd'')]\<rparr>))
     = Inl (Api (Unavailable ''etcd''))"
  using WaitForPVCReady_read_failure
    [of "resizing\<lparr>faults := [Some (Unavailable ''etcd'')]\<rparr>" "Unavailable ''etcd''"]
  by simp

text \<open>
  A deployment whose ready replicas never reach the desired count makes
  \<open>WaitForScaling\<close> time out, and the timeout is returned as \<open>nil\<close> after exactly one minute
  and 59 reads; only the log tells it from success.
\<close>

theorem WaitForScaling_timeout_returns_nil:
  assumes "faults w = []" and "timeline w = []"
    and "find_named dep_name n (deployments w ns) = Some d" and "ready_replicas d \<noteq> x"
  shows "fst (WaitForScaling n ns x w) = Inr () \<and>
         now (snd (WaitForScaling n ns x w)) = now w + timeoutSeconds \<and>
         calls_since w (snd (WaitForScaling n ns x w)) = replicate 59 (GetDeployment ns n) \<and>
         logged ERROR ''Timed out waiting for scaling of deployment %s to %d replicas''
           (logs (snd (WaitForScaling n ns x w)))"
proof -
  have "scaling_obs n ns x w = Inr False"
    using assms(3,4) by (simp add: scaling_obs_def)
  with assms(2) have "wait_spec polls (scaling_obs n ns x) w = TimedOut (Suc polls)"
    by (intro wait_spec_quiet) simp_all
  then have out: "outcome (now w) (WaitForScaling n ns x w) = TimedOut 60"
    using WaitForScaling_outcome [OF assms(1), of n ns x] by simp
  from out have "logged ERROR ''Timed out waiting for scaling of deployment %s to %d replicas''
           (logs (snd (WaitForScaling n ns x w)))"
    unfolding WaitForScaling_def by (rule poll_loop_timeout_line [rotated]) (rule tick_ready_line)
  with outcome_TimedOutD(1,2) [OF out WaitForScaling_now(1)] out show ?thesis
    by (simp add: WaitForScaling_polled [of n ns x w] timeoutSeconds_def)
qed

theorem WaitForScaling_timeout_returns_nil_witness:
  "fst (WaitForScaling ''web'' ''ns1'' 3 world0) = Inr () \<and>
   now (snd (WaitForScaling ''web'' ''ns1'' 3 world0)) = 60"
  using WaitForScaling_timeout_returns_nil [of world0 "''web''" "''ns1''" web 3]
  by (simp add: timeoutSeconds_def)

text \<open>
  A deployment whose ready replicas reach the desired count \<open>t + 1\<close> seconds
  after the wait began, before the deadline, makes \<open>WaitForScaling\<close> return \<open>nil\<close> at that
  second, after \<open>t + 1\<close> reads.
\<close>

theorem WaitForScaling_returns_when_ready:
  assumes "faults w = []" and "timeline w = [(now w + Suc t, SetReady ns n x)]"
    and "find_named dep_name n (deployments w ns) = Some d" and "ready_replicas d \<noteq> x"
    and "t < polls"
  shows "fst (WaitForScaling n ns x w) = Inr () \<and>
         now (snd (WaitForScaling n ns x w)) = now w + Suc t \<and>
         calls_since w (snd (WaitForScaling n ns x w)) = replicate (Suc t) (GetDeployment ns n)"
proof -
  have out: "outcome (now w) (WaitForScaling n ns x w) = Ready (Suc t)"
    using WaitForScaling_outcome [OF assms(1), of n ns x] wait_spec_ready_at [OF assms(2-5)]
    by simp
  with outcome_ReadyD [OF out WaitForScaling_now(1)] show ?thesis
    by (simp add: WaitForScaling_polled [of n ns x w])
qed

theorem WaitForScaling_returns_when_ready_witness:
  "fst (WaitForScaling ''web'' ''ns1'' 3 rolling) = Inr () \<and>
   now (snd (WaitForScaling ''web'' ''ns1'' 3 rolling)) = 5"
  using WaitForScaling_returns_when_ready [of rolling 4 "''ns1''" "''web''" 3 web]
  by simp

text \<open>
  C14 (liveness). In a cluster that answers every call and whose actions are scheduled in
  the order of their times, \<open>WaitForPVCReady\<close> returns success as soon as the claim is bound:
  when the claim is bound after \<open>t + 1\<close> seconds, with \<open>t\<close> below the number of polls, and
  readable at every second before, the wait ends after at most \<open>t + 1\<close> seconds with the
  outcome \<open>Ready\<close>, whatever else the cluster did in between.
\<close>

theorem WaitForPVCReady_eventually_ready:
  assumes "faults w = []" and "scheduled w" and "t < polls"
    and "pvc_obs n ns (sleep (Suc t * tickSeconds) w) = Inr True"
    and "\<forall>j < t. is_ok (pvc_obs n ns (sleep (Suc j * tickSeconds) w))"
  shows "fst (WaitForPVCReady n ns w) = Inr () \<and>
         now (snd (WaitForPVCReady n ns w)) \<le> now w + Suc t \<and>
         (\<exists>s \<le> Suc t. outcome (now w) (WaitForPVCReady n ns w) = Ready s)"
  using WaitForPVCReady_outcome [OF assms(1)] WaitForPVCReady_now(1) assms(2-5)
  by (rule wait_eventually_ready)

theorem WaitForPVCReady_eventually_ready_witness:
  "faults resizing = [] \<and> scheduled resizing \<and> (2::nat) < polls \<and>
   fst (WaitForPVCReady ''data-pvc'' ''ns1'' resizing) = Inr () \<and>
   now (snd (WaitForPVCReady ''data-pvc'' ''ns1'' resizing)) \<le> 3 \<and>
   (\<exists>s \<le> 3. outcome (now resizing) (WaitForPVCReady ''data-pvc'' ''ns1'' resizing) = Ready s)"
  using WaitForPVCReady_eventually_ready [of resizing 2 "''data-pvc''" "''ns1''"]
  by (simp add: scheduled_def polls_def resizing_after tickSeconds_def is_ok_def numeral_3_eq_3)

text \<open>
  The same for \<open>WaitForScaling\<close>: a deployment whose ready replicas are the desired count
  after \<open>t + 1\<close> seconds, and which can be read at every second before, ends the wait with
  the outcome \<open>Ready\<close> by then.
\<close>

theorem WaitForScaling_eventually_ready:
  assumes "faults w = []" and "scheduled w" and "t < polls"
    and "scaling_obs n ns x (sleep (Suc t * tickSeconds) w) = Inr True"
    and "\<forall>j < t. is_ok (scaling_obs n ns x (sleep (Suc j * tickSeconds) w))"
  shows "fst (WaitForScaling n ns x w) = Inr () \<and>
         now (snd (WaitForScaling n ns x w)) \<le> now w + Suc t \<and>
         (\<exists>s \<le> Suc t. outcome (now w) (WaitForScaling n ns x w) = Ready s)"
  using WaitForScaling_outcome [OF assms(1)] WaitForScaling_now(1) assms(2-5)
  by (rule wait_eventually_ready)

theorem WaitForScaling_eventually_ready_witness:
  "fst (WaitForScaling ''web'' ''ns1'' 3 rolling) = Inr () \<and>
   now (snd (WaitForScaling ''web'' ''ns1'' 3 rolling)) \<le> 5 \<and>
   (\<exists>s \<le> 5. outcome (now rolling) (WaitForScaling ''web'' ''ns1'' 3 rolling) = Ready s)"
  using WaitForScaling_eventually_ready [of rolling 4 "''web''" "''ns1''" 3]
  by (simp add: scheduled_def polls_def rolling_after tickSeconds_def is_ok_def eval_nat_numeral)

end
