(* ===== verification/Discovery.thy ===== *)
theory Discovery
  imports Cluster
begin

text \<open>
  Target discovery, \<open>src/pkg/kubernetes/annotations/is_annotation.go\<close>: \<open>IsAnnotation\<close>
  lists the namespaces, lists the deployments of each, and collects a
  \<open>DeploymentResult\<close> for every deployment annotated \<open>autoscaler/enabled: "true"\<close>, with
  the names of the claims that the volumes of its pod template mount. Any failed list
  ends the scan with that error and without results.

  \<open>scan_deployments\<close> is the loop over the deployments of one namespace,
  \<open>scan_namespaces\<close> the loop over the namespaces with the slice \<open>results\<close> it appends to.
  \<open>discovered\<close> says what the scan is meant to find, as a function of the cluster.
\<close>

section \<open>Definitions\<close>

record DeploymentResult =
  Namespace :: string
  Deployment :: string
  PVCNames :: "string list"

definition annotationKey :: string where
  "annotationKey = ''autoscaler/enabled''"

definition annotationValue :: string where
  "annotationValue = ''true''"

definition enabled :: "deployment \<Rightarrow> bool" where
  "enabled d \<longleftrightarrow> dep_annotations d annotationKey = Some annotationValue"

fun pvcNames :: "volume list \<Rightarrow> string list" where
  "pvcNames [] = []"
| "pvcNames (v # vs) =
     (case claim_name v of
        None \<Rightarrow> pvcNames vs
      | Some c \<Rightarrow> c # pvcNames vs)"

definition result_of :: "string \<Rightarrow> deployment \<Rightarrow> DeploymentResult" where
  "result_of ns d =
     \<lparr>Namespace = ns, Deployment = dep_name d, PVCNames = pvcNames (template_volumes d)\<rparr>"

fun scan_deployments :: "string \<Rightarrow> deployment list \<Rightarrow> DeploymentResult list \<Rightarrow> DeploymentResult list" where
  "scan_deployments ns [] results = results"
| "scan_deployments ns (d # ds) results =
     (if enabled d then scan_deployments ns ds (results @ [result_of ns d])
      else scan_deployments ns ds results)"

fun scan_namespaces ::
  "string list \<Rightarrow> DeploymentResult list \<Rightarrow> world \<Rightarrow> DeploymentResult list result \<times> world" where
  "scan_namespaces [] results w = (Inr results, w)"
| "scan_namespaces (ns # nss) results w =
     (case list_deployments ns w of
        (Inl err, w1) \<Rightarrow> (Inl err, w1)
      | (Inr ds, w1) \<Rightarrow> scan_namespaces nss (scan_deployments ns ds results) w1)"

definition IsAnnotation :: "world \<Rightarrow> (DeploymentResult list \<times> bool) result \<times> world" where
  "IsAnnotation w =
     (case list_namespaces (info ''Checking annotations......'' w) of
        (Inl err, w1) \<Rightarrow> (Inl err, w1)
      | (Inr nss, w1) \<Rightarrow>
          (case scan_namespaces nss [] w1 of
             (Inl err, w2) \<Rightarrow> (Inl err, w2)
           | (Inr results, w2) \<Rightarrow>
               if length results = 0 then (Inr ([], False), w2)
               else (Inr (results, True), w2)))"

section \<open>What discovery is meant to find\<close>

definition enabled_in :: "world \<Rightarrow> string \<Rightarrow> DeploymentResult list" where
  "enabled_in w ns = map (result_of ns) (filter enabled (deployments w ns))"

definition discovered :: "world \<Rightarrow> DeploymentResult list" where
  "discovered w = concat (map (enabled_in w) (namespaces w))"

text \<open>The world after the reads of a scan that went through.\<close>

definition scanned :: "string list \<Rightarrow> world \<Rightarrow> world" where
  "scanned nss w = fold (\<lambda>ns. called (ListDeployments ns)) nss w"

section \<open>The loops\<close>

lemma pvcNames_map_filter: "pvcNames vs = List.map_filter claim_name vs"
  by (induction vs) (simp_all add: map_filter_simps split: option.split)

lemma set_pvcNames: "set (pvcNames vs) = {c. \<exists>v \<in> set vs. claim_name v = Some c}"
  by (induction vs) (auto split: option.split)

lemma scan_deployments_eq:
  "scan_deployments ns ds results = results @ map (result_of ns) (filter enabled ds)"
  by (induction ds arbitrary: results) simp_all

lemma scanned_frame [simp, frame]:
  "namespaces (scanned nss w) = namespaces w"
  "deployments (scanned nss w) = deployments w"
  "pvcs (scanned nss w) = pvcs w"
  "pods (scanned nss w) = pods w"
  "timeline (scanned nss w) = timeline w"
  "now (scanned nss w) = now w"
  "logs (scanned nss w) = logs w"
  by (induction nss arbitrary: w; simp add: scanned_def)+

lemma scanned_calls [simp]:
  "calls (scanned nss w) = calls w @ map ListDeployments nss"
  by (induction nss arbitrary: w) (simp_all add: scanned_def)

lemma scanned_faults [simp]: "faults (scanned nss w) = drop (length nss) (faults w)"
  by (induction nss arbitrary: w) (simp_all add: scanned_def called_def drop_Suc tl_drop)

lemma scanned_simps [simp]:
  "scanned [] w = w"
  "scanned (ns # nss) w = scanned nss (called (ListDeployments ns) w)"
  by (simp_all add: scanned_def)

lemma scan_namespaces_Cons:
  "scan_namespaces (ns # nss) results w =
     (case fault_of w of
        Some e \<Rightarrow> (Inl (Api e), called (ListDeployments ns) w)
      | None \<Rightarrow>
          scan_namespaces nss (results @ enabled_in w ns) (called (ListDeployments ns) w))"
  by (simp add: list_deployments_def api_read_def scan_deployments_eq enabled_in_def
      split: option.split)

declare scan_namespaces.simps(2) [simp del]

lemma enabled_in_books [simp]:
  "enabled_in (called c w) = enabled_in w"
  "enabled_in (info msg w) = enabled_in w"
  by (simp_all add: enabled_in_def fun_eq_iff)

lemma scan_namespaces_frame [simp, frame]:
  "namespaces (snd (scan_namespaces nss results w)) = namespaces w"
  "deployments (snd (scan_namespaces nss results w)) = deployments w"
  "pvcs (snd (scan_namespaces nss results w)) = pvcs w"
  "pods (snd (scan_namespaces nss results w)) = pods w"
  "timeline (snd (scan_namespaces nss results w)) = timeline w"
  "now (snd (scan_namespaces nss results w)) = now w"
  "logs (snd (scan_namespaces nss results w)) = logs w"
  by (induction nss arbitrary: results w; simp add: scan_namespaces_Cons split: option.split)+

text \<open>A scan that returns has read every namespace and found what the cluster holds.\<close>

lemma scan_namespaces_ok:
  "fst (scan_namespaces nss results w) = Inr rs \<Longrightarrow>
     rs = results @ concat (map (enabled_in w) nss) \<and>
     snd (scan_namespaces nss results w) = scanned nss w \<and>
     no_fault (length nss) w"
proof (induction nss arbitrary: results w)
  case Nil
  then show ?case by simp
next
  case (Cons ns nss)
  show ?case
  proof (cases "fault_of w")
    case None
    with Cons.prems
    have "fst (scan_namespaces nss (results @ enabled_in w ns) (called (ListDeployments ns) w)) = Inr rs"
      by (simp add: scan_namespaces_Cons)
    from Cons.IH [OF this] None show ?thesis
      by (simp add: scan_namespaces_Cons no_fault_Suc [of _ w "ListDeployments ns"])
  next
    case (Some e)
    with Cons.prems show ?thesis by (simp add: scan_namespaces_Cons)
  qed
qed

lemma scan_namespaces_no_fault:
  "no_fault (length nss) w \<Longrightarrow>
     scan_namespaces nss results w = (Inr (results @ concat (map (enabled_in w) nss)), scanned nss w)"
proof (induction nss arbitrary: results w)
  case Nil
  then show ?case by simp
next
  case (Cons ns nss)
  then show ?case
    by (simp add: scan_namespaces_Cons no_fault_first no_fault_next)
qed

text \<open>A scan whose read of the namespace after \<open>pre\<close> fails.\<close>

lemma scan_namespaces_fault:
  assumes "faults w = replicate (length pre) None @ Some e # fs"
  shows "scan_namespaces (pre @ ns # post) results w =
           (Inl (Api e), scanned (pre @ [ns]) w)"
  using assms
proof (induction pre arbitrary: results w)
  case Nil
  then show ?case by (simp add: scan_namespaces_Cons)
next
  case (Cons a pre)
  from Cons.prems have "faults (called (ListDeployments a) w) = replicate (length pre) None @ Some e # fs"
    by (simp add: called_def)
  from Cons.IH [OF this] Cons.prems show ?case
    by (simp add: scan_namespaces_Cons)
qed

lemma scan_namespaces_calls:
  "\<exists>j\<le>length nss. calls (snd (scan_namespaces nss results w)) =
      calls w @ map ListDeployments (take j nss)"
proof (induction nss arbitrary: results w)
  case Nil
  then show ?case by simp
next
  case (Cons ns nss)
  show ?case
  proof (cases "fault_of w")
    case None
    from Cons [of "results @ enabled_in w ns" "called (ListDeployments ns) w"]
    obtain j where "j \<le> length nss"
      "calls (snd (scan_namespaces nss (results @ enabled_in w ns) (called (ListDeployments ns) w)))
         = calls w @ map ListDeployments (take (Suc j) (ns # nss))"
      by auto
    with None show ?thesis
      by (auto simp: scan_namespaces_Cons intro!: exI [of _ "Suc j"] simp del: take_Suc_Cons)
  next
    case (Some e)
    then show ?thesis
      by (auto simp: scan_namespaces_Cons intro!: exI [of _ 1])
  qed
qed

section \<open>The scan\<close>

lemma IsAnnotation_eq:
  "IsAnnotation w =
     (case fault_of w of
        Some e \<Rightarrow> (Inl (Api e), called ListNamespaces (info ''Checking annotations......'' w))
      | None \<Rightarrow>
          (case fst (scan_namespaces (namespaces w) []
                      (called ListNamespaces (info ''Checking annotations......'' w))) of
             Inl err \<Rightarrow>
               (Inl err, snd (scan_namespaces (namespaces w) []
                               (called ListNamespaces (info ''Checking annotations......'' w))))
           | Inr rs \<Rightarrow>
               (Inr (rs, rs \<noteq> []),
                snd (scan_namespaces (namespaces w) []
                       (called ListNamespaces (info ''Checking annotations......'' w))))))"
  by (auto simp: IsAnnotation_def list_namespaces_def api_read_def result_case
      split: option.split sum.split)

lemma IsAnnotation_frame [simp, frame]:
  "namespaces (snd (IsAnnotation w)) = namespaces w"
  "deployments (snd (IsAnnotation w)) = deployments w"
  "pvcs (snd (IsAnnotation w)) = pvcs w"
  "pods (snd (IsAnnotation w)) = pods w"
  "timeline (snd (IsAnnotation w)) = timeline w"
  "now (snd (IsAnnotation w)) = now w"
  by (simp_all add: IsAnnotation_eq split: option.split sum.split)

lemma wf_world_IsAnnotation [simp, wf_intros]: "wf_world (snd (IsAnnotation w)) = wf_world w"
  by (simp add: wf_world_def)

lemma discovered_books [simp]:
  "discovered (called c w) = discovered w"
  "discovered (info msg w) = discovered w"
  by (simp_all add: discovered_def)

lemma discovered_iff:
  "r \<in> set (discovered w) \<longleftrightarrow>
     Namespace r \<in> set (namespaces w) \<and>
     (\<exists>d \<in> set (deployments w (Namespace r)). enabled d \<and> r = result_of (Namespace r) d)"
  by (auto simp: discovered_def enabled_in_def result_of_def)

lemma IsAnnotation_no_fault:
  assumes "no_fault (Suc (length (namespaces w))) w"
  shows "IsAnnotation w =
           (Inr (discovered w, discovered w \<noteq> []),
            scanned (namespaces w) (called ListNamespaces (info ''Checking annotations......'' w)))"
proof -
  let ?w1 = "called ListNamespaces (info ''Checking annotations......'' w)"
  from assms have "no_fault (Suc (length (namespaces w))) (info ''Checking annotations......'' w)"
    by simp
  then have "no_fault (length (namespaces ?w1)) ?w1"
    by (simp add: no_fault_next)
  then have "scan_namespaces (namespaces w) [] ?w1 = (Inr (discovered w), scanned (namespaces w) ?w1)"
    using scan_namespaces_no_fault [of "namespaces w" ?w1 "[]"] by (simp add: discovered_def)
  with no_fault_first [OF assms] show ?thesis
    by (simp add: IsAnnotation_eq)
qed

lemma IsAnnotation_ok:
  assumes "fst (IsAnnotation w) = Inr (rs, found)"
  shows "rs = discovered w" and "found \<longleftrightarrow> rs \<noteq> []"
    and "calls (snd (IsAnnotation w)) = calls w @ ListNamespaces # map ListDeployments (namespaces w)"
proof -
  let ?w1 = "called ListNamespaces (info ''Checking annotations......'' w)"
  from assms have f: "fault_of w = None"
    and scan: "fst (scan_namespaces (namespaces w) [] ?w1) = Inr rs" and fd: "found \<longleftrightarrow> rs \<noteq> []"
    by (auto simp: IsAnnotation_eq split: option.splits sum.splits)
  from scan_namespaces_ok [OF scan] show "rs = discovered w"
    by (simp add: discovered_def)
  from fd show "found \<longleftrightarrow> rs \<noteq> []" .
  from scan_namespaces_ok [OF scan] f scan
  show "calls (snd (IsAnnotation w)) = calls w @ ListNamespaces # map ListDeployments (namespaces w)"
    by (simp add: IsAnnotation_eq)
qed

lemma IsAnnotation_fault:
  assumes "faults w = replicate k None @ Some e # fs" and "k \<le> length (namespaces w)"
  shows "IsAnnotation w =
           (Inl (Api e),
            scanned (take k (namespaces w)) (called ListNamespaces (info ''Checking annotations......'' w)))"
proof (cases k)
  case 0
  with assms(1) show ?thesis by (simp add: IsAnnotation_eq)
next
  case (Suc j)
  let ?w1 = "called ListNamespaces (info ''Checking annotations......'' w)"
  from Suc assms(2) have split: "namespaces w = take j (namespaces w) @ namespaces w ! j # drop (Suc j) (namespaces w)"
    by (simp add: id_take_nth_drop)
  have "faults ?w1 = replicate (length (take j (namespaces w))) None @ Some e # fs"
    using assms Suc by (simp add: called_def min_def)
  from scan_namespaces_fault [OF this, of "namespaces w ! j" "drop (Suc j) (namespaces w)" "[]"] split
  have "scan_namespaces (namespaces w) [] ?w1 =
          (Inl (Api e), scanned (take (Suc j) (namespaces w)) ?w1)"
    using Suc assms(2) by (simp add: take_Suc_conv_app_nth)
  with assms(1) Suc show ?thesis
    by (simp add: IsAnnotation_eq)
qed

lemma world0_discovered:
  "discovered world0 = [\<lparr>Namespace = ''ns1'', Deployment = ''web'', PVCNames = [''data-pvc'']\<rparr>]"
  by (simp add: discovered_def enabled_in_def enabled_def result_of_def annotationKey_def
      annotationValue_def world0_defs)

section \<open>Properties\<close>

text \<open>
  When the lists go through, \<open>IsAnnotation\<close> returns exactly the enabled
  deployments of the cluster, namespace by namespace in the order of the lists, each with
  the claims its volumes mount; the flag says whether there is any; and it has listed the
  namespaces once and the deployments of every namespace once.
\<close>

theorem IsAnnotation_finds_enabled:
  assumes "no_fault (Suc (length (namespaces w))) w"
  shows "fst (IsAnnotation w) = Inr (discovered w, discovered w \<noteq> []) \<and>
         calls_since w (snd (IsAnnotation w)) =
           ListNamespaces # map ListDeployments (namespaces w)"
  using IsAnnotation_no_fault [OF assms] by simp

theorem IsAnnotation_finds_enabled_witness:
  "fst (IsAnnotation world0) =
     Inr ([\<lparr>Namespace = ''ns1'', Deployment = ''web'', PVCNames = [''data-pvc'']\<rparr>], True)"
  using IsAnnotation_finds_enabled [of world0] world0_discovered
  by (simp add: world0_def)

text \<open>
  C8 (refinement). Whenever \<open>IsAnnotation\<close> returns results, they are sound and complete: a
  result is returned if and only if its namespace is listed and holds a deployment with
  the annotation \<open>autoscaler/enabled\<close> set to \<open>true\<close> that the result describes; and the flag is
  true exactly when the list is not empty.
\<close>

theorem IsAnnotation_sound_and_complete:
  assumes "fst (IsAnnotation w) = Inr (rs, found)"
  shows "(found \<longleftrightarrow> rs \<noteq> []) \<and>
         (r \<in> set rs \<longleftrightarrow>
            Namespace r \<in> set (namespaces w) \<and>
            (\<exists>d \<in> set (deployments w (Namespace r)). enabled d \<and> r = result_of (Namespace r) d))"
  using IsAnnotation_ok(1,2) [OF assms] by (simp add: discovered_iff)

theorem IsAnnotation_sound_and_complete_witness:
  "fst (IsAnnotation world0) =
     Inr ([\<lparr>Namespace = ''ns1'', Deployment = ''web'', PVCNames = [''data-pvc'']\<rparr>], True) \<and>
   namespaces world0 = [''ns1''] \<and> deployments world0 ''ns1'' = [web] \<and> enabled web \<and>
   \<lparr>Namespace = ''ns1'', Deployment = ''web'', PVCNames = [''data-pvc'']\<rparr> = result_of ''ns1'' web"
  using IsAnnotation_sound_and_complete [of world0
      "[\<lparr>Namespace = ''ns1'', Deployment = ''web'', PVCNames = [''data-pvc'']\<rparr>]" True
      "\<lparr>Namespace = ''ns1'', Deployment = ''web'', PVCNames = [''data-pvc'']\<rparr>"]
    IsAnnotation_no_fault [of world0] world0_discovered
  by (simp add: world0_def)

text \<open>
  When a list fails, \<open>IsAnnotation\<close> returns that error and no results, also
  those of the namespaces it had scanned, and makes no further call.
\<close>

theorem IsAnnotation_list_failure:
  assumes "faults w = replicate k None @ Some e # fs" and "k \<le> length (namespaces w)"
  shows "fst (IsAnnotation w) = Inl (Api e) \<and>
         calls_since w (snd (IsAnnotation w)) =
           take (Suc k) (ListNamespaces # map ListDeployments (namespaces w))"
  using IsAnnotation_fault [OF assms] by (simp add: take_map)

theorem IsAnnotation_list_failure_witness:
  "fst (IsAnnotation (world0\<lparr>faults := [None, Some Conflict]\<rparr>)) = Inl (Api Conflict)"
  using IsAnnotation_list_failure [of "world0\<lparr>faults := [None, Some Conflict]\<rparr>" 1 Conflict "[]"]
  by (simp add: world0_def)

text \<open>
  Discovery only reads: whatever the API answers, \<open>IsAnnotation\<close> leaves the
  deployments, the claims, the pods and the clock as they are, and makes no writing call.
\<close>

theorem IsAnnotation_read_only:
  "deployments (snd (IsAnnotation w)) = deployments w \<and>
   pvcs (snd (IsAnnotation w)) = pvcs w \<and>
   pods (snd (IsAnnotation w)) = pods w \<and>
   now (snd (IsAnnotation w)) = now w \<and>
   \<not> list_ex is_write (calls_since w (snd (IsAnnotation w)))"
proof -
  let ?w1 = "called ListNamespaces (info ''Checking annotations......'' w)"
  obtain j where "calls (snd (scan_namespaces (namespaces w) [] ?w1)) =
      calls w @ ListNamespaces # map ListDeployments (take j (namespaces w))"
    using scan_namespaces_calls [of "namespaces w" "[]" ?w1] by auto
  then have "\<not> list_ex is_write (calls_since w (snd (IsAnnotation w)))"
    by (auto simp: IsAnnotation_eq is_write_def list_ex_iff split: option.split sum.split)
  then show ?thesis by simp
qed

end
