(* ===== verification/Pods.thy ===== *)
theory Pods
  imports Cluster
begin

text \<open>
  \<open>src/pkg/kubernetes/deployment/deployment.go\<close>: \<open>GetPodsForDeployment\<close> reads a
  deployment, lists the pods of its namespace that its label selector selects, and
  returns their names and namespaces. The selector is the list of the \<open>matchLabels\<close>
  pairs, all of which a selected pod carries; \<open>matchExpressions\<close> are not modelled.
  \<open>metav1.FormatLabelSelector\<close> prints a selector without requirements (and a \<open>nil\<close>
  selector) as \<open><none>\<close>, which is not a selector that the server parses: for such a
  deployment the list fails and no pods are returned.
\<close>

section \<open>Definitions\<close>

record Pod =
  Name :: string
  Namespace_pod :: string

definition pod_of :: "pod \<Rightarrow> Pod" where
  "pod_of p = \<lparr>Name = pod_name p, Namespace_pod = pod_namespace p\<rparr>"

fun podList :: "pod list \<Rightarrow> Pod list \<Rightarrow> Pod list" where
  "podList [] acc = acc"
| "podList (p # ps) acc = podList ps (acc @ [pod_of p])"

definition FormatLabelSelector :: "(string \<times> string) list \<Rightarrow> (string \<times> string) list option" where
  "FormatLabelSelector sel = (if sel = [] then None else Some sel)"

definition GetPodsForDeployment :: "string \<Rightarrow> string \<Rightarrow> world \<Rightarrow> Pod list result \<times> world" where
  "GetPodsForDeployment deploymentName namespace w =
     (case get_deployment namespace deploymentName w of
        (Inl err, w1) \<Rightarrow> (Inl err, w1)
      | (Inr d, w1) \<Rightarrow>
          (case list_pods namespace (FormatLabelSelector (spec_selector d)) w1 of
             (Inl err, w2) \<Rightarrow> (Inl err, w2)
           | (Inr ps, w2) \<Rightarrow> (Inr (podList ps []), w2)))"

text \<open>The pods of a namespace that belong to a deployment.\<close>

definition pods_of :: "world \<Rightarrow> string \<Rightarrow> deployment \<Rightarrow> pod list" where
  "pods_of w ns d = filter (\<lambda>p. selects (spec_selector d) (pod_labels p)) (pods w ns)"

section \<open>Lemmas\<close>

lemma podList_eq: "podList ps acc = acc @ map pod_of ps"
  by (induction ps arbitrary: acc) simp_all

lemma selects_iff: "selects sel ls \<longleftrightarrow> (\<forall>(k, v) \<in> set sel. ls k = Some v)"
  by (auto simp: selects_def list_all_iff)

lemma GetPodsForDeployment_eq:
  "GetPodsForDeployment n ns w =
     (case fault_of w of
        Some e \<Rightarrow> (Inl (Api e), called (GetDeployment ns n) w)
      | None \<Rightarrow>
          (case find_named dep_name n (deployments w ns) of
             None \<Rightarrow> (Inl (Api NotFound), called (GetDeployment ns n) w)
           | Some d \<Rightarrow>
               (case fault_of (called (GetDeployment ns n) w) of
                  Some e \<Rightarrow> (Inl (Api e), called (ListPods ns) (called (GetDeployment ns n) w))
                | None \<Rightarrow>
                    (if spec_selector d = [] then Inl (Api BadRequest)
                     else Inr (map pod_of (pods_of w ns d)),
                     called (ListPods ns) (called (GetDeployment ns n) w)))))"
  by (simp add: GetPodsForDeployment_def get_deployment_def list_pods_def api_read_def
      FormatLabelSelector_def podList_eq pods_of_def split: option.split)

lemma GetPodsForDeployment_frame [simp, frame]:
  "namespaces (snd (GetPodsForDeployment n ns w)) = namespaces w"
  "deployments (snd (GetPodsForDeployment n ns w)) = deployments w"
  "pvcs (snd (GetPodsForDeployment n ns w)) = pvcs w"
  "pods (snd (GetPodsForDeployment n ns w)) = pods w"
  "timeline (snd (GetPodsForDeployment n ns w)) = timeline w"
  "now (snd (GetPodsForDeployment n ns w)) = now w"
  "logs (snd (GetPodsForDeployment n ns w)) = logs w"
  by (simp_all add: GetPodsForDeployment_eq split: option.split)

lemma wf_world_GetPodsForDeployment [simp, wf_intros]:
  "wf_world (snd (GetPodsForDeployment n ns w)) = wf_world w"
  by (simp add: wf_world_def)

lemma world0_selector [simp]: "spec_selector web \<noteq> []"
  by (simp add: web_def)

lemma world0_pods: "map pod_of (pods_of world0 ''ns1'' web) = [\<lparr>Name = ''web-0'', Namespace_pod = ''ns1''\<rparr>]"
  by (simp add: pods_of_def pod_of_def selects_def world0_defs)

section \<open>Properties\<close>

text \<open>
  C40 (functional). When both reads go through, \<open>GetPodsForDeployment\<close> returns, in the order
  of the list, the name and namespace of exactly the pods of the namespace that carry
  every label of the deployment's selector, after one read of the deployment and one list
  of pods. For a deployment whose selector has no labels the list is refused instead and
  the error of the API is returned.
\<close>

theorem GetPodsForDeployment_selected:
  assumes "no_fault 2 w" and "find_named dep_name n (deployments w ns) = Some d"
  shows "fst (GetPodsForDeployment n ns w) =
           (if spec_selector d = [] then Inl (Api BadRequest)
            else Inr (map pod_of (pods_of w ns d))) \<and>
         calls_since w (snd (GetPodsForDeployment n ns w)) = [GetDeployment ns n, ListPods ns] \<and>
         (p \<in> set (pods_of w ns d) \<longleftrightarrow>
            p \<in> set (pods w ns) \<and> (\<forall>(k, v) \<in> set (spec_selector d). pod_labels p k = Some v))"
proof -
  have "fault_of w = None" "fault_of (called (GetDeployment ns n) w) = None"
    using assms(1) no_fault_Suc [of 1 w "GetDeployment ns n"]
      no_fault_Suc [of 0 "called (GetDeployment ns n) w" "GetDeployment ns n"]
    by (simp_all add: numeral_2_eq_2)
  with assms(2) show ?thesis
    by (simp add: GetPodsForDeployment_eq pods_of_def selects_iff)
qed

theorem GetPodsForDeployment_selected_witness:
  "fst (GetPodsForDeployment ''web'' ''ns1'' world0) =
     Inr [\<lparr>Name = ''web-0'', Namespace_pod = ''ns1''\<rparr>]"
  using GetPodsForDeployment_selected [of world0 "''web''" "''ns1''" web web_pod] world0_pods
  by simp

text \<open>
  When the deployment cannot be read, because the call fails or the deployment
  does not exist, \<open>GetPodsForDeployment\<close> returns that error and does not list the pods.
\<close>

theorem GetPodsForDeployment_unreadable:
  assumes "fault_of w = Some e \<or> (fault_of w = None \<and> find_named dep_name n (deployments w ns) = None)"
  shows "fst (GetPodsForDeployment n ns w) = Inl (Api (case fault_of w of Some e \<Rightarrow> e | None \<Rightarrow> NotFound)) \<and>
         calls_since w (snd (GetPodsForDeployment n ns w)) = [GetDeployment ns n]"
  using assms by (auto simp: GetPodsForDeployment_eq)

theorem GetPodsForDeployment_unreadable_witness:
  "fst (GetPodsForDeployment ''api'' ''ns1'' world0) = Inl (Api NotFound)"
  using GetPodsForDeployment_unreadable [of world0 _ "''api''" "''ns1''"]
  by (simp add: world0_defs)

end
