(* ===== verification/Metrics.thy ===== *)
theory Metrics
  imports Cluster
begin

text \<open>
  The metrics gateway, \<open>src/pkg/kubernetes/metrics/fetch.go\<close>: \<open>ReplacePlaceholders\<close>,
  \<open>FetchDiskUsage\<close> and \<open>FetchNetworkUsage\<close>.

  What lies outside the program is a value of \<open>metrics_env\<close>: the outcome of reading and
  parsing \<open>config.yaml\<close>, the answer of Prometheus to a query at a time (a failed request,
  an unreadable body, a body that is not JSON, or the decoded response), and the number
  that \<open>fmt.Sscanf\<close> reads from a string, if any. A request is identified by the base URL
  and the query before escaping. The nested struct \<open>Data\<close> of a response and the nested
  structs of the configuration are flattened into their fields.

  Two things of the source are kept as they are. \<open>Result[0].Value[1]\<close> is indexed without
  a check of the length, so a sample with fewer than two entries is a run-time panic.
  And in \<open>FetchNetworkUsage\<close> a value that is not a string is skipped in silence: the usage
  stays 0 and no error is returned, where \<open>FetchDiskUsage\<close> reports an unexpected format.
\<close>

section \<open>Definitions\<close>

datatype json_value = JString string | JNumber real | JOther

record sample =
  Metric :: "string \<rightharpoonup> string"
  Value :: "json_value list"

record PrometheusResponse =
  Status :: string
  ResultType :: string
  Result :: "sample list"

record Config =
  DiskUsageQuery :: string
  Ingress :: string
  Egress :: string

datatype http_reply = GetFailed | ReadFailed | BadJson | Reply PrometheusResponse

record metrics_env =
  config_file :: "Config file_outcome"
  prometheus :: "nat \<Rightarrow> string \<Rightarrow> string \<Rightarrow> http_reply"
  scan_float :: "string \<Rightarrow> float64 option"

definition LoadConfig :: "metrics_env \<Rightarrow> Config result" where
  "LoadConfig env =
     (case config_file env of
        Unreadable \<Rightarrow> Inl ConfigReadError
      | Unparsable \<Rightarrow> Inl ConfigParseError
      | Parsed config \<Rightarrow> Inr config)"

definition ReplacePlaceholders :: "string \<Rightarrow> string \<Rightarrow> string \<Rightarrow> string \<Rightarrow> string" where
  "ReplacePlaceholders query pvcName namespace podName =
     replace_all ''{{pod_name}}'' podName
       (replace_all ''{{namespace}}'' namespace
          (replace_all ''{{pvc_name}}'' pvcName query))"

text \<open>\<open>Result[0].Value[1]\<close> of a response with at least one result.\<close>

definition first_value :: "PrometheusResponse \<Rightarrow> json_value result" where
  "first_value r =
     (if length (Value (hd (Result r))) \<le> 1 then Inl (Panic ''index out of range'')
      else Inr (Value (hd (Result r)) ! 1))"

definition FetchDiskUsage ::
  "metrics_env \<Rightarrow> string \<Rightarrow> string \<Rightarrow> string \<Rightarrow> world \<Rightarrow> float64 result \<times> world" where
  "FetchDiskUsage env prometheusURL pvcName namespace w =
     (case LoadConfig env of
        Inl err \<Rightarrow> (Inl err, w)
      | Inr config \<Rightarrow>
          (let query = ReplacePlaceholders (DiskUsageQuery config) pvcName namespace '''';
               w1 = info ''Fetching disk usage from Prometheus at URL: %s'' w
           in case prometheus env (now w1) prometheusURL query of
                GetFailed \<Rightarrow> (Inl HttpError, snd (error_nil ''Error querying Prometheus: %v'' w1))
              | ReadFailed \<Rightarrow>
                  (Inl BodyReadError, snd (error_nil ''Error reading response from Prometheus: %v'' w1))
              | BadJson \<Rightarrow>
                  (Inl JsonError, snd (error_nil ''Error unmarshalling Prometheus response: %v'' w1))
              | Reply r \<Rightarrow>
                  if Status r \<noteq> ''success'' \<or> length (Result r) = 0
                  then (Inl (NoData query), w1)
                  else (case first_value r of
                          Inl p \<Rightarrow> (Inl p, w1)
                        | Inr (JString v) \<Rightarrow>
                            (case scan_float env v of
                               None \<Rightarrow>
                                 (Inl ScanError,
                                  snd (error_nil ''Error parsing disk usage percentage: %v'' w1))
                             | Some diskUsagePercentage \<Rightarrow> (Inr diskUsagePercentage, w1))
                        | Inr _ \<Rightarrow> (Inl UnexpectedFormat, w1))))"

text \<open>
  The two halves of \<open>FetchNetworkUsage\<close> are the same code with different log lines and a
  different error for a response without data; \<open>fetch_direction\<close> is that code.
\<close>

datatype direction = ingress | egress

fun msg_query :: "direction \<Rightarrow> string" where
  "msg_query ingress = ''Error querying Prometheus for ingress: %v''"
| "msg_query egress = ''Error querying Prometheus for egress: %v''"

fun msg_read :: "direction \<Rightarrow> string" where
  "msg_read ingress = ''Error reading ingress response from Prometheus: %v''"
| "msg_read egress = ''Error reading egress response from Prometheus: %v''"

fun msg_json :: "direction \<Rightarrow> string" where
  "msg_json ingress = ''Error unmarshalling ingress Prometheus response: %v''"
| "msg_json egress = ''Error unmarshalling egress Prometheus response: %v''"

fun msg_parse :: "direction \<Rightarrow> string" where
  "msg_parse ingress = ''Error parsing ingress network usage: %v''"
| "msg_parse egress = ''Error parsing egress network usage: %v''"

fun msg_none :: "direction \<Rightarrow> string" where
  "msg_none ingress = ''No successful ingress data returned from Prometheus.''"
| "msg_none egress = ''No successful egress data returned from Prometheus.''"

fun no_data :: "direction \<Rightarrow> error" where
  "no_data ingress = NoIngressData"
| "no_data egress = NoEgressData"

definition fetch_direction ::
  "metrics_env \<Rightarrow> direction \<Rightarrow> string \<Rightarrow> string \<Rightarrow> world \<Rightarrow> float64 result \<times> world" where
  "fetch_direction env dir prometheusURL query w =
     (case prometheus env (now w) prometheusURL query of
        GetFailed \<Rightarrow> (Inl HttpError, snd (error_nil (msg_query dir) w))
      | ReadFailed \<Rightarrow> (Inl BodyReadError, snd (error_nil (msg_read dir) w))
      | BadJson \<Rightarrow> (Inl JsonError, snd (error_nil (msg_json dir) w))
      | Reply r \<Rightarrow>
          if Status r = ''success'' \<and> length (Result r) > 0
          then (case first_value r of
                  Inl p \<Rightarrow> (Inl p, w)
                | Inr (JString v) \<Rightarrow>
                    (case scan_float env v of
                       None \<Rightarrow> (Inl ScanError, snd (error_nil (msg_parse dir) w))
                     | Some x \<Rightarrow> (Inr x, w))
                | Inr _ \<Rightarrow> (Inr 0, w))
          else (Inl (no_data dir), snd (error_nil (msg_none dir) w)))"

definition FetchNetworkUsage ::
  "metrics_env \<Rightarrow> string \<Rightarrow> string \<Rightarrow> string \<Rightarrow> world \<Rightarrow>
     (float64 \<times> float64 \<times> error option) \<times> world" where
  "FetchNetworkUsage env prometheusURL podName namespace w =
     (case LoadConfig env of
        Inl err \<Rightarrow> ((0, 0, Some err), w)
      | Inr config \<Rightarrow>
          (let ingressQuery = ReplacePlaceholders (Ingress config) '''' namespace podName;
               egressQuery = ReplacePlaceholders (Egress config) '''' namespace podName;
               w1 = info (CHR 0x0A # ''Fetching ingress network usage from Prometheus at URL: %s'') w;
               w2 = info (CHR 0x0A # ''Fetching egress network usage from Prometheus at URL: %s'') w1
           in case fetch_direction env ingress prometheusURL ingressQuery w2 of
                (Inl err, w3) \<Rightarrow> ((0, 0, Some err), w3)
              | (Inr ingressValue, w3) \<Rightarrow>
                  (case fetch_direction env egress prometheusURL egressQuery w3 of
                     (Inl err, w4) \<Rightarrow> ((ingressValue, 0, Some err), w4)
                   | (Inr egressValue, w4) \<Rightarrow> ((ingressValue, egressValue, None), w4))))"

section \<open>What a response is worth\<close>

text \<open>
  The number that a response carries for \<open>FetchDiskUsage\<close>: the scanned second entry of
  the first result of a successful response.
\<close>

definition reading :: "metrics_env \<Rightarrow> http_reply \<Rightarrow> float64 option" where
  "reading env rep =
     (case rep of
        Reply r \<Rightarrow>
          if Status r = ''success'' \<and> Result r \<noteq> [] \<and> 1 < length (Value (hd (Result r)))
          then (case Value (hd (Result r)) ! 1 of
                  JString v \<Rightarrow> scan_float env v
                | _ \<Rightarrow> None)
          else None
      | _ \<Rightarrow> None)"

section \<open>Example environment\<close>

text \<open>
  A configuration with the queries of the repository's \<open>config.yaml\<close> in short, and a
  Prometheus that reports 85.5 percent for the claim \<open>data-pvc\<close> of \<open>ns1\<close>, 2000 bytes per
  second of ingress and 100 of egress for the pod \<open>web-0\<close>.
\<close>

definition config0 :: Config where
  "config0 = \<lparr>DiskUsageQuery = ''disk{pvc=\"{{pvc_name}}\",ns=\"{{namespace}}\"}'',
              Ingress = ''rx{pod=\"{{pod_name}}\",ns=\"{{namespace}}\"}'',
              Egress = ''tx{pod=\"{{pod_name}}\",ns=\"{{namespace}}\"}''\<rparr>"

definition vector :: "string \<Rightarrow> http_reply" where
  "vector v = Reply \<lparr>Status = ''success'', ResultType = ''vector'',
                      Result = [\<lparr>Metric = Map.empty, Value = [JNumber 1700000000, JString v]\<rparr>]\<rparr>"

definition no_result :: http_reply where
  "no_result = Reply \<lparr>Status = ''success'', ResultType = ''vector'', Result = []\<rparr>"

definition prom0 :: "nat \<Rightarrow> string \<Rightarrow> string \<Rightarrow> http_reply" where
  "prom0 t url q =
     (if q = ''disk{pvc=\"data-pvc\",ns=\"ns1\"}'' then vector ''85.5''
      else if q = ''rx{pod=\"web-0\",ns=\"ns1\"}'' then vector ''2000''
      else if q = ''tx{pod=\"web-0\",ns=\"ns1\"}'' then vector ''100''
      else no_result)"

definition scan0 :: "string \<Rightarrow> float64 option" where
  "scan0 = [''85.5'' \<mapsto> 85.5, ''2000'' \<mapsto> 2000, ''100'' \<mapsto> 100, ''42'' \<mapsto> 42]"

definition env0 :: metrics_env where
  "env0 = \<lparr>config_file = Parsed config0, prometheus = prom0, scan_float = scan0\<rparr>"

lemmas env0_defs = env0_def config0_def prom0_def scan0_def vector_def no_result_def

section \<open>Placeholders\<close>

lemma ReplacePlaceholders_plain:
  assumes "\<not> occurs ''{{pvc_name}}'' q" and "\<not> occurs ''{{namespace}}'' q"
    and "\<not> occurs ''{{pod_name}}'' q"
  shows "ReplacePlaceholders q pvcName namespace podName = q"
  using assms by (simp add: ReplacePlaceholders_def replace_all_absent)

lemma ReplacePlaceholders_disk0:
  "ReplacePlaceholders (DiskUsageQuery config0) ''data-pvc'' ''ns1'' '''' =
     ''disk{pvc=\"data-pvc\",ns=\"ns1\"}''"
  by (simp add: ReplacePlaceholders_def config0_def)

lemma ReplacePlaceholders_net0:
  "ReplacePlaceholders (Ingress config0) '''' ''ns1'' ''web-0'' = ''rx{pod=\"web-0\",ns=\"ns1\"}''"
  "ReplacePlaceholders (Egress config0) '''' ''ns1'' ''web-0'' = ''tx{pod=\"web-0\",ns=\"ns1\"}''"
  by (simp_all add: ReplacePlaceholders_def config0_def)

lemma ReplacePlaceholders_one:
  assumes "CHR ''{'' \<notin> set a" and "CHR ''{'' \<notin> set b" and "CHR ''{'' \<notin> set new"
  shows "replace_all (CHR ''{'' # old) new (a @ (CHR ''{'' # old) @ b) = a @ new @ b"
    and "replace_all (CHR ''{'' # old) new' (a @ new @ b) = a @ new @ b"
proof -
  have fresh: "\<not> occurs (CHR ''{'' # old) s" if "CHR ''{'' \<notin> set s" for s
    using that by (induction s) (auto simp: prefix_Cons)
  show "replace_all (CHR ''{'' # old) new (a @ (CHR ''{'' # old) @ b) = a @ new @ b"
    using assms replace_all_append [of "CHR ''{'' # old" a new b] occurs_fresh [of "CHR ''{'' # old" a]
    by (simp add: replace_all_absent fresh)
  show "replace_all (CHR ''{'' # old) new' (a @ new @ b) = a @ new @ b"
    using assms by (intro replace_all_absent fresh) simp
qed

section \<open>The fetches\<close>

lemma LoadConfig_simps [simp]:
  "config_file env = Parsed config \<Longrightarrow> LoadConfig env = Inr config"
  "config_file env = Unreadable \<Longrightarrow> LoadConfig env = Inl ConfigReadError"
  "config_file env = Unparsable \<Longrightarrow> LoadConfig env = Inl ConfigParseError"
  by (simp_all add: LoadConfig_def)

lemma LoadConfig_never_aborts: "LoadConfig env = Inl e \<Longrightarrow> \<not> aborts e"
  by (auto simp: LoadConfig_def split: file_outcome.splits)

lemma fetch_direction_frame [simp, frame]:
  "namespaces (snd (fetch_direction env dir url q w)) = namespaces w"
  "deployments (snd (fetch_direction env dir url q w)) = deployments w"
  "pvcs (snd (fetch_direction env dir url q w)) = pvcs w"
  "pods (snd (fetch_direction env dir url q w)) = pods w"
  "faults (snd (fetch_direction env dir url q w)) = faults w"
  "timeline (snd (fetch_direction env dir url q w)) = timeline w"
  "now (snd (fetch_direction env dir url q w)) = now w"
  "calls (snd (fetch_direction env dir url q w)) = calls w"
  by (simp_all add: fetch_direction_def
      split: http_reply.split sum.split json_value.split option.split)

lemma FetchDiskUsage_frame [simp, frame]:
  "namespaces (snd (FetchDiskUsage env url p ns w)) = namespaces w"
  "deployments (snd (FetchDiskUsage env url p ns w)) = deployments w"
  "pvcs (snd (FetchDiskUsage env url p ns w)) = pvcs w"
  "pods (snd (FetchDiskUsage env url p ns w)) = pods w"
  "faults (snd (FetchDiskUsage env url p ns w)) = faults w"
  "timeline (snd (FetchDiskUsage env url p ns w)) = timeline w"
  "now (snd (FetchDiskUsage env url p ns w)) = now w"
  "calls (snd (FetchDiskUsage env url p ns w)) = calls w"
  by (simp_all add: FetchDiskUsage_def Let_def
      split: http_reply.split sum.split json_value.split option.split)

lemma FetchNetworkUsage_frame [simp, frame]:
  "namespaces (snd (FetchNetworkUsage env url p ns w)) = namespaces w"
  "deployments (snd (FetchNetworkUsage env url p ns w)) = deployments w"
  "pvcs (snd (FetchNetworkUsage env url p ns w)) = pvcs w"
  "pods (snd (FetchNetworkUsage env url p ns w)) = pods w"
  "faults (snd (FetchNetworkUsage env url p ns w)) = faults w"
  "timeline (snd (FetchNetworkUsage env url p ns w)) = timeline w"
  "now (snd (FetchNetworkUsage env url p ns w)) = now w"
  "calls (snd (FetchNetworkUsage env url p ns w)) = calls w"
  by (simp_all add: FetchNetworkUsage_def Let_def result_case split: sum.split cong: sum.case_cong)

lemma wf_world_fetch [simp, wf_intros]:
  "wf_world (snd (FetchDiskUsage env url p ns w)) = wf_world w"
  "wf_world (snd (FetchNetworkUsage env url p ns w)) = wf_world w"
  by (simp_all add: wf_world_def)

lemma fetch_direction_result:
  "fst (fetch_direction env dir url q w) =
     (case prometheus env (now w) url q of
        GetFailed \<Rightarrow> Inl HttpError
      | ReadFailed \<Rightarrow> Inl BodyReadError
      | BadJson \<Rightarrow> Inl JsonError
      | Reply r \<Rightarrow>
          if Status r = ''success'' \<and> Result r \<noteq> []
          then (case first_value r of
                  Inl p \<Rightarrow> Inl p
                | Inr (JString v) \<Rightarrow> (case scan_float env v of None \<Rightarrow> Inl ScanError | Some x \<Rightarrow> Inr x)
                | Inr _ \<Rightarrow> Inr 0)
          else Inl (no_data dir))"
  by (simp add: fetch_direction_def
      split: http_reply.split sum.split json_value.split option.split)

lemma FetchNetworkUsage_result:
  assumes "config_file env = Parsed config"
  shows "fst (FetchNetworkUsage env url podName namespace w) =
     (case fst (fetch_direction env ingress url
                 (ReplacePlaceholders (Ingress config) [] namespace podName) w) of
        Inl err \<Rightarrow> (0, 0, Some err)
      | Inr x \<Rightarrow>
          (case fst (fetch_direction env egress url
                      (ReplacePlaceholders (Egress config) [] namespace podName) w) of
             Inl err \<Rightarrow> (x, 0, Some err)
           | Inr y \<Rightarrow> (x, y, None)))"
  using assms
  by (simp add: FetchNetworkUsage_def Let_def result_case fetch_direction_result
      split: sum.split cong: sum.case_cong)

lemma FetchDiskUsage_result:
  assumes "config_file env = Parsed config"
  shows "fst (FetchDiskUsage env url pvcName namespace w) =
     (case prometheus env (now w) url (ReplacePlaceholders (DiskUsageQuery config) pvcName namespace []) of
        GetFailed \<Rightarrow> Inl HttpError
      | ReadFailed \<Rightarrow> Inl BodyReadError
      | BadJson \<Rightarrow> Inl JsonError
      | Reply r \<Rightarrow>
          if Status r \<noteq> ''success'' \<or> Result r = []
          then Inl (NoData (ReplacePlaceholders (DiskUsageQuery config) pvcName namespace []))
          else (case first_value r of
                  Inl p \<Rightarrow> Inl p
                | Inr (JString v) \<Rightarrow> (case scan_float env v of None \<Rightarrow> Inl ScanError | Some x \<Rightarrow> Inr x)
                | Inr _ \<Rightarrow> Inl UnexpectedFormat))"
  using assms
  by (simp add: FetchDiskUsage_def Let_def
      split: http_reply.split sum.split json_value.split option.split)

text \<open>What a fetch returns depends on the world through the clock only.\<close>

lemma FetchDiskUsage_clock:
  "now w' = now w \<Longrightarrow>
   fst (FetchDiskUsage env url pvcName namespace w') = fst (FetchDiskUsage env url pvcName namespace w)"
  by (simp add: FetchDiskUsage_def Let_def
      split: http_reply.split sum.split json_value.split option.split)

lemma FetchNetworkUsage_clock:
  "now w' = now w \<Longrightarrow>
   fst (FetchNetworkUsage env url podName namespace w') =
   fst (FetchNetworkUsage env url podName namespace w)"
  by (simp add: FetchNetworkUsage_def Let_def result_case fetch_direction_result
      split: sum.split cong: sum.case_cong)

lemma env0_fields [simp]:
  "config_file env0 = Parsed config0" "prometheus env0 = prom0" "scan_float env0 = scan0"
  by (simp_all add: env0_def)

lemma prom0_simps [simp]:
  "prom0 t url ''disk{pvc=\"data-pvc\",ns=\"ns1\"}'' = vector ''85.5''"
  "prom0 t url ''rx{pod=\"web-0\",ns=\"ns1\"}'' = vector ''2000''"
  "prom0 t url ''tx{pod=\"web-0\",ns=\"ns1\"}'' = vector ''100''"
  by (simp_all add: prom0_def)

lemma reading_vector [simp]: "reading env (vector v) = scan_float env v"
  by (simp add: reading_def vector_def)

lemma scan0_simps [simp]:
  "scan0 ''85.5'' = Some 85.5" "scan0 ''2000'' = Some 2000" "scan0 ''100'' = Some 100"
  by (simp_all add: scan0_def)

lemma FetchDiskUsage_env0:
  "fst (FetchDiskUsage env0 url ''data-pvc'' ''ns1'' w) = Inr 85.5"
  by (simp add: FetchDiskUsage_result [of env0 config0] ReplacePlaceholders_disk0 vector_def
      first_value_def)

lemma FetchNetworkUsage_env0:
  "fst (FetchNetworkUsage env0 url ''web-0'' ''ns1'' w) = (2000, 100, None)"
  by (simp add: FetchNetworkUsage_result [of env0 config0] fetch_direction_result
      ReplacePlaceholders_net0 vector_def first_value_def)

section \<open>Properties\<close>

text \<open>
  C24 (functional). With a readable configuration, \<open>FetchDiskUsage\<close> returns a value exactly
  when Prometheus answers the query for the claim with a successful response whose first
  result has a string as its second entry that scans as a number, and the value is that
  number; in every other case it returns an error. It changes nothing but the log.
\<close>

theorem FetchDiskUsage_reading:
  assumes "config_file env = Parsed config"
  shows "(fst (FetchDiskUsage env url pvcName namespace w) = Inr x \<longleftrightarrow>
            reading env (prometheus env (now w) url
              (ReplacePlaceholders (DiskUsageQuery config) pvcName namespace [])) = Some x) \<and>
         calls (snd (FetchDiskUsage env url pvcName namespace w)) = calls w \<and>
         pvcs (snd (FetchDiskUsage env url pvcName namespace w)) = pvcs w"
  by (auto simp: FetchDiskUsage_result [OF assms] reading_def first_value_def
      split: http_reply.splits json_value.splits option.splits if_splits)

theorem FetchDiskUsage_reading_witness:
  "fst (FetchDiskUsage env0 ''http://prom'' ''data-pvc'' ''ns1'' world0) = Inr 85.5"
  using FetchDiskUsage_reading [of env0 config0 "''http://prom''" "''data-pvc''" "''ns1''" world0 "85.5"]
  by (simp add: ReplacePlaceholders_disk0)

text \<open>
  C32 (error). \<open>FetchDiskUsage\<close> indexes the second entry of the first result without
  checking its length: a successful response whose first result has fewer than two
  entries is a run-time panic, not an error value.
\<close>

theorem FetchDiskUsage_short_sample_panics:
  assumes "config_file env = Parsed config"
    and "prometheus env (now w) url
           (ReplacePlaceholders (DiskUsageQuery config) pvcName namespace []) = Reply r"
    and "Status r = ''success''" and "Result r \<noteq> []" and "length (Value (hd (Result r))) < 2"
  shows "fst (FetchDiskUsage env url pvcName namespace w) = Inl (Panic ''index out of range'')"
  using assms(2-5) by (simp add: FetchDiskUsage_result [OF assms(1)] first_value_def)

theorem FetchDiskUsage_short_sample_panics_witness:
  "fst (FetchDiskUsage
         (env0\<lparr>prometheus := \<lambda>t u q. Reply \<lparr>Status = ''success'', ResultType = ''vector'',
                    Result = [\<lparr>Metric = Map.empty, Value = []\<rparr>]\<rparr>\<rparr>)
         ''http://prom'' ''data-pvc'' ''ns1'' world0) = Inl (Panic ''index out of range'')"
  using FetchDiskUsage_short_sample_panics
    [of "env0\<lparr>prometheus := \<lambda>t u q. Reply \<lparr>Status = ''success'', ResultType = ''vector'',
                    Result = [\<lparr>Metric = Map.empty, Value = []\<rparr>]\<rparr>\<rparr>"
        config0 world0 "''http://prom''" "''data-pvc''" "''ns1''"]
  by simp

text \<open>
  C25 (error). The partial-success contract of \<open>FetchNetworkUsage\<close>: when the ingress query
  yields a value and the egress query fails, the ingress value is returned together with
  0 for egress and the error of the egress query.
\<close>

theorem FetchNetworkUsage_partial:
  assumes "config_file env = Parsed config"
    and "fst (fetch_direction env ingress url
                (ReplacePlaceholders (Ingress config) [] namespace podName) w) = Inr x"
    and "fst (fetch_direction env egress url
                (ReplacePlaceholders (Egress config) [] namespace podName) w) = Inl err"
  shows "fst (FetchNetworkUsage env url podName namespace w) = (x, 0, Some err)"
  using assms(2,3) by (simp add: FetchNetworkUsage_result [OF assms(1)])

theorem FetchNetworkUsage_partial_witness:
  "fst (FetchNetworkUsage (env0\<lparr>config_file := Parsed (config0\<lparr>Egress := ''tx''\<rparr>)\<rparr>)
          ''http://prom'' ''web-0'' ''ns1'' world0) = (2000, 0, Some NoEgressData)"
  using FetchNetworkUsage_partial
    [of "env0\<lparr>config_file := Parsed (config0\<lparr>Egress := ''tx''\<rparr>)\<rparr>" "config0\<lparr>Egress := ''tx''\<rparr>"
        "''http://prom''" "''ns1''" "''web-0''" world0 2000 NoEgressData]
    ReplacePlaceholders_net0
  by (simp add: fetch_direction_result vector_def first_value_def config0_def
      ReplacePlaceholders_def prom0_def no_result_def)

text \<open>
  When both queries are answered with values, \<open>FetchNetworkUsage\<close> returns
  the ingress value, the egress value and no error, and changes nothing but the log.
\<close>

theorem FetchNetworkUsage_both:
  assumes "config_file env = Parsed config"
    and "reading env (prometheus env (now w) url
           (ReplacePlaceholders (Ingress config) [] namespace podName)) = Some x"
    and "reading env (prometheus env (now w) url
           (ReplacePlaceholders (Egress config) [] namespace podName)) = Some y"
  shows "fst (FetchNetworkUsage env url podName namespace w) = (x, y, None) \<and>
         calls (snd (FetchNetworkUsage env url podName namespace w)) = calls w"
  using assms(2,3)
  by (auto simp: FetchNetworkUsage_result [OF assms(1)] fetch_direction_result reading_def
      first_value_def split: http_reply.splits json_value.splits option.splits if_splits)

theorem FetchNetworkUsage_both_witness:
  "fst (FetchNetworkUsage env0 ''http://prom'' ''web-0'' ''ns1'' world0) = (2000, 100, None)"
  using FetchNetworkUsage_both [of env0 config0 world0 "''http://prom''" "''ns1''" "''web-0''" 2000 100]
  by (simp add: ReplacePlaceholders_net0)

text \<open>
  C33 (error). In \<open>FetchNetworkUsage\<close> a value that is not a string is skipped without an
  error: when the second entry of the first ingress result is a number, the ingress usage
  is reported as 0 and the fetch goes on to the egress query.
\<close>

theorem FetchNetworkUsage_number_reads_as_zero:
  assumes "config_file env = Parsed config"
    and "prometheus env (now w) url
           (ReplacePlaceholders (Ingress config) [] namespace podName) = Reply r"
    and "Status r = ''success''" and "Result r \<noteq> []"
    and "Value (hd (Result r)) = [t, JNumber v]"
    and "reading env (prometheus env (now w) url
           (ReplacePlaceholders (Egress config) [] namespace podName)) = Some y"
  shows "fst (FetchNetworkUsage env url podName namespace w) = (0, y, None)"
  using assms(2-6)
  by (auto simp: FetchNetworkUsage_result [OF assms(1)] fetch_direction_result reading_def
      first_value_def split: http_reply.splits json_value.splits option.splits if_splits)

theorem FetchNetworkUsage_number_reads_as_zero_witness:
  "fst (FetchNetworkUsage
         (env0\<lparr>prometheus := \<lambda>t u q. Reply \<lparr>Status = ''success'', ResultType = ''vector'',
                    Result = [\<lparr>Metric = Map.empty, Value = [JNumber 1, JNumber 5000]\<rparr>]\<rparr>\<rparr>)
         ''http://prom'' ''web-0'' ''ns1'' world0) = (0, 0, None)"
  using FetchNetworkUsage_number_reads_as_zero
    [of "env0\<lparr>prometheus := \<lambda>t u q. Reply \<lparr>Status = ''success'', ResultType = ''vector'',
                    Result = [\<lparr>Metric = Map.empty, Value = [JNumber 1, JNumber 5000]\<rparr>]\<rparr>\<rparr>"
        config0 world0 "''http://prom''" "''ns1''" "''web-0''" _ "JNumber 1" 5000 0]
  by (simp add: fetch_direction_result FetchNetworkUsage_result [of _ config0] first_value_def reading_def)

text \<open>
  C39 (functional). \<open>ReplacePlaceholders\<close> on a query that names the claim and the namespace
  once each, where neither the rest of the query nor the names contain an opening brace:
  the placeholders are replaced by the names and nothing else changes.
\<close>

theorem ReplacePlaceholders_substitutes:
  assumes "CHR ''{'' \<notin> set a \<union> set b \<union> set c \<union> set pvcName \<union> set namespace"
  shows "ReplacePlaceholders (a @ ''{{pvc_name}}'' @ b @ ''{{namespace}}'' @ c) pvcName namespace podName
           = a @ pvcName @ b @ namespace @ c"
proof -
  have "replace_all ''{{pvc_name}}'' pvcName (a @ ''{{pvc_name}}'' @ b @ ''{{namespace}}'' @ c)
          = a @ pvcName @ replace_all ''{{pvc_name}}'' pvcName (b @ ''{{namespace}}'' @ c)"
    using assms by (intro replace_all_append occurs_fresh) simp_all
  also have "replace_all ''{{pvc_name}}'' pvcName (b @ ''{{namespace}}'' @ c) = b @ ''{{namespace}}'' @ c"
    using assms by (simp add: replace_all_skip replace_all_fresh)
  finally have pvc: "replace_all ''{{pvc_name}}'' pvcName (a @ ''{{pvc_name}}'' @ b @ ''{{namespace}}'' @ c)
          = (a @ pvcName @ b) @ ''{{namespace}}'' @ c"
    by simp
  have "replace_all ''{{namespace}}'' namespace ((a @ pvcName @ b) @ ''{{namespace}}'' @ c)
          = (a @ pvcName @ b) @ namespace @ replace_all ''{{namespace}}'' namespace c"
    using assms by (intro replace_all_append occurs_fresh) simp_all
  also have "replace_all ''{{namespace}}'' namespace c = c"
    using assms by (simp add: replace_all_fresh)
  finally have ns: "replace_all ''{{namespace}}'' namespace ((a @ pvcName @ b) @ ''{{namespace}}'' @ c)
          = a @ pvcName @ b @ namespace @ c"
    by simp
  have "replace_all ''{{pod_name}}'' podName (a @ pvcName @ b @ namespace @ c)
          = a @ pvcName @ b @ namespace @ c"
    using assms by (simp add: replace_all_fresh)
  with pvc ns show ?thesis
    by (simp only: ReplacePlaceholders_def)
qed

theorem ReplacePlaceholders_substitutes_witness:
  "ReplacePlaceholders ''disk(pvc={{pvc_name}},ns={{namespace}})'' ''data-pvc'' ''ns1'' []
     = ''disk(pvc=data-pvc,ns=ns1)''"
  using ReplacePlaceholders_substitutes [of "''disk(pvc=''" "'',ns=''" "'')''" "''data-pvc''" "''ns1''" "[]"]
  by simp

text \<open>
  The three substitutions of \<open>ReplacePlaceholders\<close> run one after the
  other over the whole string, so placeholder text inside a name is substituted too: a
  claim named \<open>{{namespace}}\<close> is replaced by the namespace.
\<close>

theorem ReplacePlaceholders_resubstitutes:
  "ReplacePlaceholders ''disk(pvc={{pvc_name}})'' ''{{namespace}}'' ''prod'' [] = ''disk(pvc=prod)''"
  by (simp add: ReplacePlaceholders_def)

end
