(* ===== verification/Control.thy ===== *)
theory Control
  imports Settings PVC Waiter Discovery Pods Metrics
begin

text \<open>
  The control loop and the decisions, \<open>src/main.go\<close>, with the connection to the cluster
  of \<open>src/pkg/kubernetes/connection/connect.go\<close>.

  \<open>main\<close> starts the logger, checks the mode, loads the configuration (\<open>Settings\<close>),
  connects, and then runs monitoring cycles for ever. What it finds when it starts (the
  log file, \<open>config.yaml\<close>, the kubeconfig) is the record \<open>boot\<close>. One cycle is \<open>cycle\<close>:
  discovery, then the claims of every result in PVC mode (\<open>check_pvc\<close> is the body of the
  innermost loop), then the pods of every result in ingress mode (\<open>check_pod\<close>), then a
  sleep of \<open>Interval\<close> minutes, which \<open>interval_seconds\<close> computes as Go's \<open>Duration\<close> does.
  A cycle ends the program with \<open>return\<close> when discovery fails or finds nothing. An error
  inside a loop is logged and the loop goes on (\<open>continue_after\<close>), unless the callee has
  ended the process (\<open>log.Fatal\<close>) or panicked, which nothing in \<open>main\<close> recovers from.

  The endless \<open>for\<close> is \<open>main_loop\<close> with fuel: the number of cycles it may still run.
  With no fuel left the result is \<open>Running\<close>; every other result is an end of the program
  that the source reaches too. The integers of the configuration are Go's \<open>int\<close>,
  modelled as \<open>int\<close>; \<open>int32_of_int\<close> is the conversion \<open>int32(..)\<close>, which wraps.

  The lemmas give the result of every branch of \<open>check_pvc\<close> and \<open>check_pod\<close>, the cycle
  over one target and over targets that share a claim, the start of \<open>main\<close> on every
  outcome of \<open>boot\<close>, and the preservation of \<open>wf_world\<close>.

  The call of \<open>ScalePod\<close> passes the deployment's name where \<open>ScalePod\<close> expects the
  namespace and the namespace where it expects the name; the model passes them the same
  way.
\<close>

section \<open>Definitions\<close>

datatype run_end = Returned | Ended error | Running

datatype cycle_end = Continue | Return | Abort error

text \<open>
  What \<open>main\<close> finds when it starts: the outcomes of \<open>os.Remove\<close> and \<open>os.OpenFile\<close> in
  \<open>log.Init\<close>, the outcome of reading \<open>config.yaml\<close>, the environment variable
  \<open>KUBECONFIG\<close>, the path \<open>clientcmd.RecommendedHomeFile\<close>, the paths from which a client
  configuration can be built, and whether a client can be created from it.
\<close>

record boot =
  log_removed :: "error option"
  log_opened :: "error option"
  settings_file :: "(AutoscalerConfig \<Rightarrow> AutoscalerConfig) file_outcome"
  KUBECONFIG :: string
  RecommendedHomeFile :: string
  config_builds :: "string \<Rightarrow> bool"
  client_created :: bool

text \<open>\<open>ConnectToCluster\<close>: a failure is logged and the result is \<open>nil\<close> (\<open>False\<close>).\<close>

definition kubeconfig :: "boot \<Rightarrow> string" where
  "kubeconfig b = (if KUBECONFIG b = [] then RecommendedHomeFile b else KUBECONFIG b)"

definition ConnectToCluster :: "boot \<Rightarrow> world \<Rightarrow> bool \<times> world" where
  "ConnectToCluster b w =
     (if \<not> config_builds b (kubeconfig b)
      then (False, snd (error_nil ''Error building kubeconfig: %v'' w))
      else if \<not> client_created b
      then (False, snd (error_nil ''Error creating Kubernetes clientset: %v'' w))
      else (True, w))"

text \<open>
  The seconds that \<open>time.Sleep(time.Duration(config.Interval) * time.Minute)\<close> sleeps: a
  \<open>Duration\<close> is an \<open>int64\<close> of nanoseconds, the product wraps, and a duration that is not
  positive does not sleep. The clock of the model counts whole seconds.
\<close>

definition interval_seconds :: "int \<Rightarrow> nat" where
  "interval_seconds i = nat (sint (word_of_int i * 60000000000 :: int64) div 1000000000)"

definition runPVC :: "string \<Rightarrow> bool" where
  "runPVC mode = occurs ''pvc'' mode"

definition runIngress :: "string \<Rightarrow> bool" where
  "runIngress mode = occurs ''ingress'' mode"

text \<open>\<open>log.Error(...); continue\<close> after a call that returned \<open>err\<close>.\<close>

definition continue_after :: "string \<Rightarrow> error \<Rightarrow> world \<Rightarrow> unit result \<times> world" where
  "continue_after msg err w =
     (if aborts err then (Inl err, w) else (Inr (), snd (error_nil msg w)))"

definition check_pvc ::
  "metrics_env \<Rightarrow> AutoscalerConfig \<Rightarrow> DeploymentResult \<Rightarrow> string \<Rightarrow> world \<Rightarrow> unit result \<times> world" where
  "check_pvc env config result pvcName w =
     (case FetchDiskUsage env (Prometheus_URL config) pvcName (Namespace result) w of
        (Inl err, w1) \<Rightarrow>
          continue_after ''Error fetching disk usage for PVC %s in namespace %s: %v'' err w1
      | (Inr diskUsagePercentage, w1) \<Rightarrow>
          (let w2 = info ''Disk usage for PVC %s in namespace %s: %.2f%%'' w1 in
           if go_int diskUsagePercentage > DiskUsage_Resize config
           then (case ResizePVC pvcName (Namespace result) w2 of
                   (Inl err, w3) \<Rightarrow>
                     continue_after ''Error resizing PVC %s in namespace %s: %v'' err w3
                 | (Inr u, w3) \<Rightarrow>
                     (case WaitForPVCReady pvcName (Namespace result)
                             (info ''Resized PVC %s in namespace %s successfully.'' w3) of
                        (Inl err, w4) \<Rightarrow>
                          continue_after ''Error waiting for PVC %s to be ready: %v'' err w4
                      | (Inr u, w4) \<Rightarrow> (Inr (), info ''PVC %s is ready.'' w4)))
           else (Inr (),
                 info ''Disk usage for PVC %s is below threshold, no resizing needed.'' w2)))"

text \<open>The worlds that \<open>check_pvc\<close> passes through.\<close>

definition measured ::
  "metrics_env \<Rightarrow> AutoscalerConfig \<Rightarrow> DeploymentResult \<Rightarrow> string \<Rightarrow> world \<Rightarrow> world" where
  "measured env config result pvcName w =
     info ''Disk usage for PVC %s in namespace %s: %.2f%%''
       (snd (FetchDiskUsage env (Prometheus_URL config) pvcName (Namespace result) w))"

definition resized ::
  "metrics_env \<Rightarrow> AutoscalerConfig \<Rightarrow> DeploymentResult \<Rightarrow> string \<Rightarrow> world \<Rightarrow> world" where
  "resized env config result pvcName w =
     info ''Resized PVC %s in namespace %s successfully.''
       (snd (ResizePVC pvcName (Namespace result) (measured env config result pvcName w)))"

definition waited ::
  "metrics_env \<Rightarrow> AutoscalerConfig \<Rightarrow> DeploymentResult \<Rightarrow> string \<Rightarrow> world \<Rightarrow> world" where
  "waited env config result pvcName w =
     snd (WaitForPVCReady pvcName (Namespace result) (resized env config result pvcName w))"

text \<open>The worlds that \<open>check_pod\<close> passes through.\<close>

definition probed ::
  "metrics_env \<Rightarrow> AutoscalerConfig \<Rightarrow> DeploymentResult \<Rightarrow> Pod \<Rightarrow> world \<Rightarrow> world" where
  "probed env config result pod w =
     snd (FetchNetworkUsage env (Prometheus_URL config) (Name pod) (Namespace result)
            (info ''Checking network usage for pod %s in namespace %s'' w))"

definition alarmed ::
  "metrics_env \<Rightarrow> AutoscalerConfig \<Rightarrow> DeploymentResult \<Rightarrow> Pod \<Rightarrow> world \<Rightarrow> world" where
  "alarmed env config result pod w =
     info ''Ingress bandwidth for pod %s exceeds threshold. Scaling deployment %s in namespace %s to %d replicas...''
       (info (CHR 0x0A # '' Ingress Bandwidth: %.2f bytes/sec, Egress Bandwidth: %.2f bytes/sec for pod %s in namespace %s'')
          (probed env config result pod w))"

definition pvc_mode ::
  "metrics_env \<Rightarrow> AutoscalerConfig \<Rightarrow> DeploymentResult list \<Rightarrow> world \<Rightarrow> unit result \<times> world" where
  "pvc_mode env config results w =
     for_each
       (\<lambda>result w1.
          for_each (check_pvc env config result) (PVCNames result)
            (info ''Checking PVCs for deployment %s in namespace %s'' w1))
       results (info ''Running in PVC resizing mode...'' w)"

definition check_pod ::
  "metrics_env \<Rightarrow> AutoscalerConfig \<Rightarrow> DeploymentResult \<Rightarrow> Pod \<Rightarrow> world \<Rightarrow> unit result \<times> world" where
  "check_pod env config result pod w =
     (let fetched = FetchNetworkUsage env (Prometheus_URL config) (Name pod) (Namespace result)
                      (info ''Checking network usage for pod %s in namespace %s'' w);
          ingressBandwidth = fst (fst fetched);
          w1 = snd fetched
      in case snd (snd (fst fetched)) of
           Some err \<Rightarrow>
             continue_after ''Error fetching network usage for pod %s in namespace %s: %v'' err w1
         | None \<Rightarrow>
             (let w2 = info (CHR 0x0A # '' Ingress Bandwidth: %.2f bytes/sec, Egress Bandwidth: %.2f bytes/sec for pod %s in namespace %s'') w1 in
              if go_int ingressBandwidth > Ingress_Scale config
              then (case ScalePod (Deployment result) (Namespace result)
                           (int32_of_int (DesiredReplicaCount config))
                           (info ''Ingress bandwidth for pod %s exceeds threshold. Scaling deployment %s in namespace %s to %d replicas...'' w2) of
                      (Inl err, w3) \<Rightarrow>
                        continue_after ''Error scaling deployment %s in namespace %s: %v'' err w3
                    | (Inr u, w3) \<Rightarrow> (Inr (), w3))
              else (Inr (), w2)))"

definition check_deployment ::
  "metrics_env \<Rightarrow> AutoscalerConfig \<Rightarrow> DeploymentResult \<Rightarrow> world \<Rightarrow> unit result \<times> world" where
  "check_deployment env config result w =
     (case GetPodsForDeployment (Deployment result) (Namespace result)
             (info ''Checking network usage for deployment %s in namespace %s'' w) of
        (Inl err, w1) \<Rightarrow>
          continue_after ''Error fetching pods for deployment %s in namespace %s: %v'' err w1
      | (Inr found_pods, w1) \<Rightarrow> for_each (check_pod env config result) found_pods w1)"

definition ingress_mode ::
  "metrics_env \<Rightarrow> AutoscalerConfig \<Rightarrow> DeploymentResult list \<Rightarrow> world \<Rightarrow> unit result \<times> world" where
  "ingress_mode env config results w =
     for_each (check_deployment env config) results (info ''Running in ingress scaling mode...'' w)"

definition log_results :: "DeploymentResult list \<Rightarrow> world \<Rightarrow> world" where
  "log_results results w =
     fold (\<lambda>result. info ''Deployment: %s, Namespace: %s, PVCs: %v'') results
       (info ''Found %d deployments with annotations.'' w)"

definition pvc_phase ::
  "metrics_env \<Rightarrow> AutoscalerConfig \<Rightarrow> string \<Rightarrow> DeploymentResult list \<Rightarrow> world \<Rightarrow> unit result \<times> world" where
  "pvc_phase env config mode results w =
     (if runPVC mode then pvc_mode env config results w else (Inr (), w))"

definition ingress_phase ::
  "metrics_env \<Rightarrow> AutoscalerConfig \<Rightarrow> string \<Rightarrow> DeploymentResult list \<Rightarrow> world \<Rightarrow> unit result \<times> world" where
  "ingress_phase env config mode results w =
     (if runIngress mode then ingress_mode env config results w else (Inr (), w))"

definition cycle ::
  "metrics_env \<Rightarrow> AutoscalerConfig \<Rightarrow> string \<Rightarrow> world \<Rightarrow> cycle_end \<times> world" where
  "cycle env config mode w =
     (case IsAnnotation (info ''Starting new monitoring cycle...'' w) of
        (Inl err, w1) \<Rightarrow> (Return, snd (error_nil ''Error checking annotations: %v'' w1))
      | (Inr (results, annotationFound), w1) \<Rightarrow>
          if \<not> annotationFound
          then (Return, snd (error_nil ''No deployments with the specified annotation found.'' w1))
          else (case pvc_phase env config mode results (log_results results w1) of
                  (Inl err, w2) \<Rightarrow> (Abort err, w2)
                | (Inr u, w2) \<Rightarrow>
                    (case ingress_phase env config mode results w2 of
                       (Inl err, w3) \<Rightarrow> (Abort err, w3)
                     | (Inr u, w3) \<Rightarrow>
                         (Continue,
                          sleep (interval_seconds (Interval config))
                            (info ''Monitoring cycle complete. Waiting for %d minutes before the next cycle.'' w3)))))"

fun main_loop ::
  "nat \<Rightarrow> metrics_env \<Rightarrow> AutoscalerConfig \<Rightarrow> string \<Rightarrow> world \<Rightarrow> run_end \<times> world" where
  "main_loop 0 env config mode w = (Running, w)"
| "main_loop (Suc fuel) env config mode w =
     (case cycle env config mode w of
        (Continue, w1) \<Rightarrow> main_loop fuel env config mode w1
      | (Return, w1) \<Rightarrow> (Returned, w1)
      | (Abort err, w1) \<Rightarrow> (Ended err, w1))"

text \<open>
  \<open>main\<close>. When \<open>log.Init\<close> has returned early the two loggers are still \<open>nil\<close>, and the
  first \<open>log.Info\<close> dereferences one. With a \<open>nil\<close> client the first call of the API in
  the first cycle dereferences it. A successful \<open>log.Init\<close> starts a new log file.
\<close>

definition nil_client :: error where
  "nil_client = Panic ''invalid memory address or nil pointer dereference''"

definition valid_mode :: "string \<Rightarrow> bool" where
  "valid_mode mode \<longleftrightarrow> \<not> (mode \<noteq> ''pvc'' \<and> mode \<noteq> ''ingress'' \<and> mode \<noteq> ''pvc,ingress'')"

definition main ::
  "string \<Rightarrow> boot \<Rightarrow> metrics_env \<Rightarrow> nat \<Rightarrow> world \<Rightarrow> run_end \<times> world" where
  "main mode b env fuel w =
     (case fst (log_Init (log_removed b) (log_opened b)) of
        None \<Rightarrow> (Ended nil_client, w)
      | Some lg \<Rightarrow>
          (let w0 = info ''Starting Kubernetes Resource Autoscaler...'' (w\<lparr>logs := lg\<rparr>) in
           if \<not> valid_mode mode then (Ended (ProcessExit 1), w0)
           else (case config_LoadConfig (settings_file b) of
                   Inl err \<Rightarrow>
                     (Ended (ProcessExit 1), snd (error_nil ''Error loading config: %v'' w0))
                 | Inr config \<Rightarrow>
                     (case ConnectToCluster b w0 of
                        (False, w1) \<Rightarrow>
                          if fuel = 0 then (Running, w1)
                          else (Ended nil_client,
                                info ''Checking annotations......''
                                  (info ''Starting new monitoring cycle...'' w1))
                      | (True, w1) \<Rightarrow> main_loop fuel env config mode w1))))"

section \<open>Example start\<close>

text \<open>
  The cluster of \<open>world0\<close> without its deployment, and a start at which everything is in
  place, with the configuration \<open>settings\<close>.
\<close>

definition bare :: world where
  "bare = world0\<lparr>deployments := \<lambda>ns. []\<rparr>"

definition boot0 :: boot where
  "boot0 = \<lparr>log_removed = Some FileNotExist, log_opened = None,
             settings_file = Parsed settings_yaml, KUBECONFIG = [],
             RecommendedHomeFile = ''/home/user/.kube/config'',
             config_builds = (\<lambda>path. path = ''/home/user/.kube/config''),
             client_created = True\<rparr>"

section \<open>Modes\<close>

lemma mode_flags [simp]:
  "runPVC ''pvc''" "\<not> runIngress ''pvc''"
  "\<not> runPVC ''ingress''" "runIngress ''ingress''"
  "runPVC ''pvc,ingress''" "runIngress ''pvc,ingress''"
  by (simp_all add: runPVC_def runIngress_def)

section \<open>Errors inside the loops\<close>

lemma continue_after_simps [simp]:
  "\<not> aborts err \<Longrightarrow> continue_after msg err w = (Inr (), snd (error_nil msg w))"
  "aborts err \<Longrightarrow> continue_after msg err w = (Inl err, w)"
  by (simp_all add: continue_after_def)

lemma continue_after_frame [simp, frame]:
  "namespaces (snd (continue_after msg err w)) = namespaces w"
  "deployments (snd (continue_after msg err w)) = deployments w"
  "pvcs (snd (continue_after msg err w)) = pvcs w"
  "pods (snd (continue_after msg err w)) = pods w"
  "faults (snd (continue_after msg err w)) = faults w"
  "timeline (snd (continue_after msg err w)) = timeline w"
  "now (snd (continue_after msg err w)) = now w"
  "calls (snd (continue_after msg err w)) = calls w"
  by (simp_all add: continue_after_def)

lemma wf_world_continue_after [simp, wf_intros]:
  "wf_world (snd (continue_after msg err w)) = wf_world w"
  by (simp add: wf_world_def)

lemma continue_after_result:
  "fst (continue_after msg err w) = (if aborts err then Inl err else Inr ())"
  by (simp add: continue_after_def)

section \<open>One claim\<close>

lemmas pvc_worlds = measured_def resized_def waited_def

lemma check_pvc_eq:
  "check_pvc env config result pvcName w =
     (case fst (FetchDiskUsage env (Prometheus_URL config) pvcName (Namespace result) w) of
        Inl err \<Rightarrow>
          continue_after ''Error fetching disk usage for PVC %s in namespace %s: %v'' err
            (snd (FetchDiskUsage env (Prometheus_URL config) pvcName (Namespace result) w))
      | Inr x \<Rightarrow>
          if DiskUsage_Resize config < go_int x
          then (case fst (ResizePVC pvcName (Namespace result) (measured env config result pvcName w)) of
                  Inl err \<Rightarrow>
                    continue_after ''Error resizing PVC %s in namespace %s: %v'' err
                      (snd (ResizePVC pvcName (Namespace result) (measured env config result pvcName w)))
                | Inr u \<Rightarrow>
                    (case fst (WaitForPVCReady pvcName (Namespace result)
                                 (resized env config result pvcName w)) of
                       Inl err \<Rightarrow>
                         continue_after ''Error waiting for PVC %s to be ready: %v'' err
                           (waited env config result pvcName w)
                     | Inr u \<Rightarrow> (Inr (), info ''PVC %s is ready.'' (waited env config result pvcName w))))
          else (Inr (),
                info ''Disk usage for PVC %s is below threshold, no resizing needed.''
                  (measured env config result pvcName w)))"
  by (simp add: check_pvc_def pvc_worlds result_case Let_def cong: sum.case_cong if_cong)

lemma pvc_worlds_wf [wf_intros]:
  assumes "wf_world w"
  shows "wf_world (measured env config result pvcName w)"
    and "wf_world (resized env config result pvcName w)"
    and "wf_world (waited env config result pvcName w)"
  using assms by (simp_all add: pvc_worlds wf_world_ResizePVC wf_world_waiters)

lemma wf_world_check_pvc [wf_intros]:
  "wf_world w \<Longrightarrow> wf_world (snd (check_pvc env config result pvcName w))"
  by (simp add: check_pvc_eq wf_world_ResizePVC pvc_worlds_wf split: sum.split)

lemma measured_frame [simp, frame]:
  "namespaces (measured env config result pvcName w) = namespaces w"
  "deployments (measured env config result pvcName w) = deployments w"
  "pvcs (measured env config result pvcName w) = pvcs w"
  "pods (measured env config result pvcName w) = pods w"
  "faults (measured env config result pvcName w) = faults w"
  "timeline (measured env config result pvcName w) = timeline w"
  "now (measured env config result pvcName w) = now w"
  "calls (measured env config result pvcName w) = calls w"
  by (simp_all add: measured_def)

lemma resized_fields:
  "namespaces (resized env config result pvcName w) = namespaces w"
  "deployments (resized env config result pvcName w) = deployments w"
  "pods (resized env config result pvcName w) = pods w"
  "timeline (resized env config result pvcName w) = timeline w"
  "now (resized env config result pvcName w) = now w"
  by (simp_all add: resized_def)

lemma check_pvc_fetch_failed:
  assumes "fst (FetchDiskUsage env (Prometheus_URL config) pvcName (Namespace result) w) = Inl err"
    and "\<not> aborts err"
  shows "check_pvc env config result pvcName w =
           (Inr (), snd (error_nil ''Error fetching disk usage for PVC %s in namespace %s: %v''
                     (snd (FetchDiskUsage env (Prometheus_URL config) pvcName (Namespace result) w))))"
  using assms by (simp add: check_pvc_eq)

lemma check_pvc_below:
  assumes "fst (FetchDiskUsage env (Prometheus_URL config) pvcName (Namespace result) w) = Inr x"
    and "go_int x \<le> DiskUsage_Resize config"
  shows "check_pvc env config result pvcName w =
           (Inr (), info ''Disk usage for PVC %s is below threshold, no resizing needed.''
                      (measured env config result pvcName w))"
  using assms by (simp add: check_pvc_eq)

lemma check_pvc_above_calls:
  assumes "fst (FetchDiskUsage env (Prometheus_URL config) pvcName (Namespace result) w) = Inr x"
    and "DiskUsage_Resize config < go_int x"
  shows "\<exists>cs. calls (snd (check_pvc env config result pvcName w)) =
               calls w @ GetPVC (Namespace result) pvcName # cs"
proof -
  let ?w2 = "measured env config result pvcName w"
  let ?w3 = "resized env config result pvcName w"
  obtain cs where cs: "calls (snd (ResizePVC pvcName (Namespace result) ?w2)) =
      calls w @ GetPVC (Namespace result) pvcName # cs"
    using ResizePVC_calls [of pvcName "Namespace result" ?w2] by auto
  then have "\<exists>k. calls (waited env config result pvcName w) =
      calls w @ GetPVC (Namespace result) pvcName # cs @ replicate k (GetPVC (Namespace result) pvcName)"
    using WaitForPVCReady_polled [of pvcName "Namespace result" ?w3]
    by (auto simp: waited_def resized_def)
  with cs assms show ?thesis
    by (auto simp: check_pvc_eq continue_after_def split: sum.split)
qed

lemma put_pvc_fields [simp]:
  "faults (put_pvc ns p w) = faults w" "timeline (put_pvc ns p w) = timeline w"
  "now (put_pvc ns p w) = now w" "calls (put_pvc ns p w) = calls w"
  by (simp_all add: put_pvc_def)

text \<open>
  The path of a bound claim above the threshold through \<open>check_pvc\<close>, in a quiet cluster
  whose API does not fail: the claim that is stored afterwards, and what the run has cost.
\<close>

lemma check_pvc_resizes:
  assumes "wf_world w" and "faults w = []" and "timeline w = []"
    and "pvcs w (Namespace result, pvcName) = Some p" and "phase p = ClaimBound"
    and "fst (FetchDiskUsage env (Prometheus_URL config) pvcName (Namespace result) w) = Inr x"
    and "DiskUsage_Resize config < go_int x"
  shows "fst (check_pvc env config result pvcName w) = Inr ()"
    and "\<exists>p'. pvcs (snd (check_pvc env config result pvcName w)) (Namespace result, pvcName) = Some p' \<and>
              storage_request p' = new_size (storage_request p) \<and> phase p' = ClaimBound"
    and "now (snd (check_pvc env config result pvcName w)) = now w + 1"
    and "timeline (snd (check_pvc env config result pvcName w)) = []"
    and "faults (snd (check_pvc env config result pvcName w)) = []"
    and "calls (snd (check_pvc env config result pvcName w)) =
           calls w @ [GetPVC (Namespace result) pvcName, UpdatePVC (Namespace result) pvcName,
                      GetPVC (Namespace result) pvcName]"
proof -
  let ?ns = "Namespace result"
  let ?w2 = "measured env config result pvcName w"
  let ?w3 = "resized env config result pvcName w"
  have w2: "wf_world ?w2" "no_fault 2 ?w2" "pvcs ?w2 (?ns, pvcName) = Some p"
    using assms(1,2,4) by (simp_all add: pvc_worlds_wf)
  then obtain m where m: "requests p = Some m"
    and rs: "ResizePVC pvcName ?ns ?w2 =
               (Inr (), put_pvc ?ns (with_storage (new_size (storage_request p)) p m)
                          (called (UpdatePVC ?ns pvcName) (called (GetPVC ?ns pvcName) ?w2)))"
    by (rule ResizePVC_stored)
  from assms(1,4) have nm: "pvc_name p = pvcName"
    by (rule wf_world_pvcD)
  let ?p' = "(with_storage (new_size (storage_request p)) p m)\<lparr>phase := phase p\<rparr>"
  have w3: "faults ?w3 = []" "timeline ?w3 = []" "pvcs ?w3 (?ns, pvcName) = Some ?p'"
    "now ?w3 = now w" "calls ?w3 = calls w @ [GetPVC ?ns pvcName, UpdatePVC ?ns pvcName]"
    using assms(2,3,4) nm by (simp_all add: resized_def rs pvcs_put_pvc)
  have ph: "phase ?p' = ClaimBound"
    using assms(5) by simp
  note wait = WaitForPVCReady_bound_already [OF w3(1,2,3) ph]
    WaitForPVCReady_quiet [OF w3(2), of pvcName ?ns]
  from wait w3 assms(6,7) rs
  show "fst (check_pvc env config result pvcName w) = Inr ()"
    and "now (snd (check_pvc env config result pvcName w)) = now w + 1"
    and "timeline (snd (check_pvc env config result pvcName w)) = []"
    and "faults (snd (check_pvc env config result pvcName w)) = []"
    and "calls (snd (check_pvc env config result pvcName w)) =
           calls w @ [GetPVC ?ns pvcName, UpdatePVC ?ns pvcName, GetPVC ?ns pvcName]"
    by (simp_all add: check_pvc_eq waited_def)
  from wait w3 assms(5,6,7) rs
  show "\<exists>p'. pvcs (snd (check_pvc env config result pvcName w)) (?ns, pvcName) = Some p' \<and>
              storage_request p' = new_size (storage_request p) \<and> phase p' = ClaimBound"
    by (simp add: check_pvc_eq waited_def)
qed

section \<open>One pod\<close>

lemmas pod_worlds = probed_def alarmed_def

lemma check_pod_eq:
  "check_pod env config result pod w =
     (case snd (snd (fst (FetchNetworkUsage env (Prometheus_URL config) (Name pod) (Namespace result)
                            (info ''Checking network usage for pod %s in namespace %s'' w)))) of
        Some err \<Rightarrow>
          continue_after ''Error fetching network usage for pod %s in namespace %s: %v'' err
            (probed env config result pod w)
      | None \<Rightarrow>
          if Ingress_Scale config
               < go_int (fst (fst (FetchNetworkUsage env (Prometheus_URL config) (Name pod)
                                     (Namespace result)
                                     (info ''Checking network usage for pod %s in namespace %s'' w))))
          then (case fst (ScalePod (Deployment result) (Namespace result)
                            (int32_of_int (DesiredReplicaCount config))
                            (alarmed env config result pod w)) of
                  Inl err \<Rightarrow>
                    continue_after ''Error scaling deployment %s in namespace %s: %v'' err
                      (snd (ScalePod (Deployment result) (Namespace result)
                              (int32_of_int (DesiredReplicaCount config))
                              (alarmed env config result pod w)))
                | Inr u \<Rightarrow>
                    (Inr (), snd (ScalePod (Deployment result) (Namespace result)
                                    (int32_of_int (DesiredReplicaCount config))
                                    (alarmed env config result pod w))))
          else (Inr (),
                info (CHR 0x0A # '' Ingress Bandwidth: %.2f bytes/sec, Egress Bandwidth: %.2f bytes/sec for pod %s in namespace %s'')
                  (probed env config result pod w)))"
  by (simp add: check_pod_def pod_worlds result_case Let_def split: option.split
      cong: sum.case_cong if_cong)

lemma pod_worlds_frame [simp, frame]:
  "namespaces (probed env config result pod w) = namespaces w"
  "deployments (probed env config result pod w) = deployments w"
  "pvcs (probed env config result pod w) = pvcs w"
  "pods (probed env config result pod w) = pods w"
  "faults (probed env config result pod w) = faults w"
  "timeline (probed env config result pod w) = timeline w"
  "now (probed env config result pod w) = now w"
  "calls (probed env config result pod w) = calls w"
  "namespaces (alarmed env config result pod w) = namespaces w"
  "deployments (alarmed env config result pod w) = deployments w"
  "pvcs (alarmed env config result pod w) = pvcs w"
  "pods (alarmed env config result pod w) = pods w"
  "faults (alarmed env config result pod w) = faults w"
  "timeline (alarmed env config result pod w) = timeline w"
  "now (alarmed env config result pod w) = now w"
  "calls (alarmed env config result pod w) = calls w"
  by (simp_all add: pod_worlds)

lemma pod_worlds_wf [simp, wf_intros]:
  "wf_world (probed env config result pod w) = wf_world w"
  "wf_world (alarmed env config result pod w) = wf_world w"
  by (simp_all add: wf_world_def)

lemma wf_world_check_pod [wf_intros]:
  "wf_world w \<Longrightarrow> wf_world (snd (check_pod env config result pod w))"
  by (simp add: check_pod_eq wf_world_ScalePod split: option.split sum.split)

section \<open>The modes and the cycle\<close>

lemma wf_world_pvc_mode [wf_intros]:
  "wf_world w \<Longrightarrow> wf_world (snd (pvc_mode env config results w))"
  unfolding pvc_mode_def
  by (intro for_each_invariant [where P = wf_world]) (simp_all add: wf_world_check_pvc)

lemma pvc_mode_single:
  assumes "PVCNames r = [n]"
  shows "pvc_mode env config [r] w =
           (fst (check_pvc env config r n
                   (info ''Checking PVCs for deployment %s in namespace %s''
                      (info ''Running in PVC resizing mode...'' w))),
            snd (check_pvc env config r n
                   (info ''Checking PVCs for deployment %s in namespace %s''
                      (info ''Running in PVC resizing mode...'' w))))"
  using assms by (auto simp: pvc_mode_def for_each_Cons split: sum.split intro: prod_eqI)

lemma wf_world_check_deployment [wf_intros]:
  "wf_world w \<Longrightarrow> wf_world (snd (check_deployment env config result w))"
  by (simp add: check_deployment_def result_case cong: sum.case_cong split: sum.split)
    (auto intro!: for_each_invariant [where P = wf_world] wf_world_check_pod)

lemma wf_world_ingress_mode [wf_intros]:
  "wf_world w \<Longrightarrow> wf_world (snd (ingress_mode env config results w))"
  unfolding ingress_mode_def
  by (intro for_each_invariant [where P = wf_world]) (simp_all add: wf_world_check_deployment)

lemma fold_info_frame [simp, frame]:
  "namespaces (fold (\<lambda>x. info msg) xs w) = namespaces w"
  "deployments (fold (\<lambda>x. info msg) xs w) = deployments w"
  "pvcs (fold (\<lambda>x. info msg) xs w) = pvcs w"
  "pods (fold (\<lambda>x. info msg) xs w) = pods w"
  "faults (fold (\<lambda>x. info msg) xs w) = faults w"
  "timeline (fold (\<lambda>x. info msg) xs w) = timeline w"
  "now (fold (\<lambda>x. info msg) xs w) = now w"
  "calls (fold (\<lambda>x. info msg) xs w) = calls w"
  by (induction xs arbitrary: w; simp)+

lemma log_results_frame [simp, frame]:
  "namespaces (log_results results w) = namespaces w"
  "deployments (log_results results w) = deployments w"
  "pvcs (log_results results w) = pvcs w"
  "pods (log_results results w) = pods w"
  "faults (log_results results w) = faults w"
  "timeline (log_results results w) = timeline w"
  "now (log_results results w) = now w"
  "calls (log_results results w) = calls w"
  by (simp_all add: log_results_def)

lemma wf_world_log_results [simp, wf_intros]: "wf_world (log_results results w) = wf_world w"
  by (simp add: wf_world_def)

lemma cycle_discovery_failed:
  assumes "IsAnnotation (info ''Starting new monitoring cycle...'' w) = (Inl err, w1)"
  shows "cycle env config mode w = (Return, snd (error_nil ''Error checking annotations: %v'' w1))"
  using assms by (simp add: cycle_def)

lemma cycle_nothing_found:
  assumes "IsAnnotation (info ''Starting new monitoring cycle...'' w) = (Inr (rs, False), w1)"
  shows "cycle env config mode w =
           (Return, snd (error_nil ''No deployments with the specified annotation found.'' w1))"
  using assms by (simp add: cycle_def)

lemma cycle_without_targets:
  assumes "no_fault (Suc (length (namespaces w))) w" and "discovered w = []"
  shows "cycle env config mode w =
           (Return,
            snd (error_nil ''No deployments with the specified annotation found.''
                   (scanned (namespaces w)
                      (called ListNamespaces
                         (info ''Checking annotations......''
                            (info ''Starting new monitoring cycle...'' w))))))"
  using assms IsAnnotation_no_fault [of "info ''Starting new monitoring cycle...'' w"]
  by (simp add: cycle_nothing_found)

lemma cycle_found:
  assumes "IsAnnotation (info ''Starting new monitoring cycle...'' w) = (Inr (rs, True), w1)"
  shows "cycle env config mode w =
     (case fst (pvc_phase env config mode rs (log_results rs w1)) of
        Inl err \<Rightarrow> (Abort err, snd (pvc_phase env config mode rs (log_results rs w1)))
      | Inr u \<Rightarrow>
          (case fst (ingress_phase env config mode rs
                       (snd (pvc_phase env config mode rs (log_results rs w1)))) of
             Inl err \<Rightarrow>
               (Abort err,
                snd (ingress_phase env config mode rs
                       (snd (pvc_phase env config mode rs (log_results rs w1)))))
           | Inr u \<Rightarrow>
               (Continue,
                sleep (interval_seconds (Interval config))
                  (info ''Monitoring cycle complete. Waiting for %d minutes before the next cycle.''
                     (snd (ingress_phase env config mode rs
                             (snd (pvc_phase env config mode rs (log_results rs w1)))))))))"
  using assms by (simp add: cycle_def result_case cong: sum.case_cong)

lemma wf_world_phases [wf_intros]:
  "wf_world w \<Longrightarrow> wf_world (snd (pvc_phase env config mode rs w))"
  "wf_world w \<Longrightarrow> wf_world (snd (ingress_phase env config mode rs w))"
  by (simp_all add: pvc_phase_def ingress_phase_def wf_world_pvc_mode wf_world_ingress_mode)

lemma wf_world_cycle [wf_intros]:
  assumes "wf_world w"
  shows "wf_world (snd (cycle env config mode w))"
proof (cases "IsAnnotation (info ''Starting new monitoring cycle...'' w)")
  case (Pair r w1)
  then have w1: "wf_world w1"
    using assms wf_world_IsAnnotation [of "info ''Starting new monitoring cycle...'' w"] by simp
  show ?thesis
  proof (cases r)
    case (Inl err)
    with Pair w1 show ?thesis by (simp add: cycle_discovery_failed)
  next
    case (Inr found)
    obtain rs b where found: "found = (rs, b)" by (cases found)
    show ?thesis
    proof (cases b)
      case True
      with Pair Inr found w1 show ?thesis
        by (simp add: cycle_found wf_world_phases wf_world_sleep split: sum.split)
    next
      case False
      with Pair Inr found w1 show ?thesis by (simp add: cycle_nothing_found)
    qed
  qed
qed

lemma main_loop_Suc:
  "main_loop (Suc fuel) env config mode w =
     (case fst (cycle env config mode w) of
        Continue \<Rightarrow> main_loop fuel env config mode (snd (cycle env config mode w))
      | Return \<Rightarrow> (Returned, snd (cycle env config mode w))
      | Abort err \<Rightarrow> (Ended err, snd (cycle env config mode w)))"
  by (cases "cycle env config mode w") (simp split: cycle_end.split)

declare main_loop.simps(2) [simp del]

text \<open>
  The loop over the targets reads the cluster afresh for every claim name. A claim that
  several targets name is therefore measured and grown once for each of them, while the
  measurement, which follows the file system and not the request, stays above the threshold.
\<close>

lemma pvc_loop_shared_claim:
  assumes "\<forall>r \<in> set rs. PVCNames r = [n] \<and> Namespace r = ns"
    and "wf_world w" and "faults w = []" and "timeline w = []"
    and "pvcs w (ns, n) = Some p" and "phase p = ClaimBound"
    and "\<And>w'. fst (FetchDiskUsage env (Prometheus_URL config) n ns w') = Inr x"
    and "DiskUsage_Resize config < go_int x"
  shows "fst (for_each
                (\<lambda>result w1. for_each (check_pvc env config result) (PVCNames result)
                    (info ''Checking PVCs for deployment %s in namespace %s'' w1)) rs w) = Inr () \<and>
         claim_size (snd (for_each
                (\<lambda>result w1. for_each (check_pvc env config result) (PVCNames result)
                    (info ''Checking PVCs for deployment %s in namespace %s'' w1)) rs w)) ns n =
           Some ((new_size ^^ length rs) (storage_request p)) \<and>
         now (snd (for_each
                (\<lambda>result w1. for_each (check_pvc env config result) (PVCNames result)
                    (info ''Checking PVCs for deployment %s in namespace %s'' w1)) rs w)) =
           now w + length rs"
  using assms(1-6)
proof (induction rs arbitrary: w p)
  case Nil
  then show ?case by (simp add: claim_size_def)
next
  case (Cons r rs)
  let ?w0 = "info ''Checking PVCs for deployment %s in namespace %s'' w"
  let ?w1 = "snd (check_pvc env config r n ?w0)"
  from Cons.prems(1) have r: "PVCNames r = [n]" "Namespace r = ns" by simp_all
  have pre: "wf_world ?w0" "faults ?w0 = []" "timeline ?w0 = []"
    "pvcs ?w0 (Namespace r, n) = Some p"
    using Cons.prems r by simp_all
  note step = check_pvc_resizes [OF pre Cons.prems(6) assms(7) [unfolded r(2) [symmetric]] assms(8)]
  from step(2) obtain p' where p': "pvcs ?w1 (ns, n) = Some p'"
    "storage_request p' = new_size (storage_request p)" "phase p' = ClaimBound"
    using r(2) by auto
  have "wf_world ?w1" using pre(1) by (intro wf_intros)
  with Cons.prems(1) step(4,5) p'
  have "fst (for_each
                (\<lambda>result w1. for_each (check_pvc env config result) (PVCNames result)
                    (info ''Checking PVCs for deployment %s in namespace %s'' w1)) rs ?w1) = Inr () \<and>
         claim_size (snd (for_each
                (\<lambda>result w1. for_each (check_pvc env config result) (PVCNames result)
                    (info ''Checking PVCs for deployment %s in namespace %s'' w1)) rs ?w1)) ns n =
           Some ((new_size ^^ length rs) (storage_request p')) \<and>
         now (snd (for_each
                (\<lambda>result w1. for_each (check_pvc env config result) (PVCNames result)
                    (info ''Checking PVCs for deployment %s in namespace %s'' w1)) rs ?w1)) =
           now ?w1 + length rs"
    by (intro Cons.IH) simp_all
  with step(1,3) p'(2) r show ?case
    by (simp add: for_each_Cons [of _ r] for_each_single funpow_swap1)
qed

section \<open>The pause between two cycles\<close>

lemma interval_nanoseconds:
  assumes "- 153722867 \<le> i" and "i \<le> 153722867"
  shows "sint (word_of_int i * 60000000000 :: int64) = i * 60000000000"
proof -
  have "(word_of_int i * 60000000000 :: int64) = word_of_int (i * 60000000000)"
    by simp
  moreover have "sint (word_of_int (i * 60000000000) :: int64) = i * 60000000000"
    using assms by (intro sint_word_of_int_in_range) simp_all
  ultimately show ?thesis by simp
qed

lemma interval_seconds_minutes:
  assumes "0 \<le> i" and "i \<le> 153722867"
  shows "interval_seconds i = nat (60 * i)"
  using assms by (simp add: interval_seconds_def interval_nanoseconds)

lemma interval_seconds_not_positive:
  assumes "i \<le> 0" and "- 153722867 \<le> i"
  shows "interval_seconds i = 0"
  using assms by (simp add: interval_seconds_def interval_nanoseconds)

lemma interval_seconds_five [simp]: "interval_seconds 5 = 300"
  by (simp add: interval_seconds_minutes)

lemma interval_seconds_wraps: "interval_seconds 153722868 = 0"
  by (simp add: interval_seconds_def)

section \<open>The start\<close>

lemma valid_mode_iff [simp]:
  "valid_mode mode \<longleftrightarrow> mode = ''pvc'' \<or> mode = ''ingress'' \<or> mode = ''pvc,ingress''"
  by (auto simp: valid_mode_def)

lemma ConnectToCluster_result:
  "fst (ConnectToCluster b w) \<longleftrightarrow> config_builds b (kubeconfig b) \<and> client_created b"
  by (simp add: ConnectToCluster_def)

lemma ConnectToCluster_frame [simp, frame]:
  "namespaces (snd (ConnectToCluster b w)) = namespaces w"
  "deployments (snd (ConnectToCluster b w)) = deployments w"
  "pvcs (snd (ConnectToCluster b w)) = pvcs w"
  "pods (snd (ConnectToCluster b w)) = pods w"
  "faults (snd (ConnectToCluster b w)) = faults w"
  "timeline (snd (ConnectToCluster b w)) = timeline w"
  "now (snd (ConnectToCluster b w)) = now w"
  "calls (snd (ConnectToCluster b w)) = calls w"
  by (simp_all add: ConnectToCluster_def)

lemma ConnectToCluster_connected:
  "config_builds b (kubeconfig b) \<Longrightarrow> client_created b \<Longrightarrow> ConnectToCluster b w = (True, w)"
  by (simp add: ConnectToCluster_def)

text \<open>
  Without a client \<open>main\<close> goes on all the same: the first call of the API, in the
  discovery of the first cycle, dereferences the \<open>nil\<close> client.
\<close>

lemma main_without_client:
  assumes "fst (log_Init (log_removed b) (log_opened b)) \<noteq> None"
    and "valid_mode mode"
    and "settings_file b = Parsed fill"
    and "\<not> config_builds b (kubeconfig b) \<or> \<not> client_created b"
    and "0 < fuel"
  shows "fst (main mode b env fuel w) = Ended nil_client"
    and "calls (snd (main mode b env fuel w)) = calls w"
    and "logged ERROR ''Error building kubeconfig: %v'' (logs (snd (main mode b env fuel w))) \<or>
         logged ERROR ''Error creating Kubernetes clientset: %v'' (logs (snd (main mode b env fuel w)))"
  using assms
  by (cases "config_builds b (kubeconfig b)";
      auto simp: main_def ConnectToCluster_def log_Init_def Let_def simp del: valid_mode_iff
        split: if_splits)+

lemma main_started:
  assumes "fst (log_Init (log_removed b) (log_opened b)) \<noteq> None"
    and "valid_mode mode"
    and "settings_file b = Parsed fill"
    and "config_builds b (kubeconfig b)" and "client_created b"
  shows "main mode b env fuel w =
           main_loop fuel env (fill zero_config) mode
             (info ''Starting Kubernetes Resource Autoscaler...'' (w\<lparr>logs := []\<rparr>))"
  using assms
  by (auto simp: main_def ConnectToCluster_connected log_Init_def simp del: valid_mode_iff
      split: if_splits)

text \<open>The PVC mode on \<open>world0\<close>: the claim \<open>data-pvc\<close> is resized.\<close>

lemma pvc_mode_world0:
  "fst (pvc_mode env0 settings (discovered world0) world0) = Inr ()"
  "calls (snd (pvc_mode env0 settings (discovered world0) world0)) =
     [GetPVC ''ns1'' ''data-pvc'', UpdatePVC ''ns1'' ''data-pvc'', GetPVC ''ns1'' ''data-pvc'']"
proof -
  let ?r = "\<lparr>Namespace = ''ns1'', Deployment = ''web'', PVCNames = [''data-pvc'']\<rparr>"
  let ?W = "info ''Checking PVCs for deployment %s in namespace %s''
              (info ''Running in PVC resizing mode...'' world0)"
  have W: "wf_world ?W" "faults ?W = []" "timeline ?W = []"
    "pvcs ?W (Namespace ?r, ''data-pvc'') = Some data_pvc" "calls ?W = []"
    using wf_world0 by (simp_all add: wf_world_def)
  have "phase data_pvc = ClaimBound" "DiskUsage_Resize settings < go_int 85.5"
    by (simp_all add: data_pvc_def go_int_eval)
  note path = check_pvc_resizes [OF W(1-4) this(1) _ this(2), of env0]
  show "fst (pvc_mode env0 settings (discovered world0) world0) = Inr ()"
    "calls (snd (pvc_mode env0 settings (discovered world0) world0)) =
       [GetPVC ''ns1'' ''data-pvc'', UpdatePVC ''ns1'' ''data-pvc'', GetPVC ''ns1'' ''data-pvc'']"
    using path(1,6) W(5)
    by (simp_all add: world0_discovered pvc_mode_single [of ?r "''data-pvc''"] FetchDiskUsage_env0)
qed

lemma bare_fields [simp]:
  "namespaces bare = [''ns1'']" "faults bare = []" "calls bare = []" "now bare = 0"
  "discovered bare = []" "wf_world bare"
  by (simp_all add: bare_def world0_def discovered_def enabled_in_def wf_world_def
      wf_deployments_def wf_pvc_def data_pvc_def)

lemma bare_run:
  "fst (main_loop (Suc fuel) env config mode bare) = Returned"
  "calls (snd (main_loop (Suc fuel) env config mode bare)) = [ListNamespaces, ListDeployments ''ns1'']"
  by (simp_all add: main_loop_Suc cycle_without_targets scanned_def)

lemma boot0_fields [simp]:
  "fst (log_Init (log_removed boot0) (log_opened boot0)) = Some []"
  "config_LoadConfig (settings_file boot0) = Inr settings"
  "ConnectToCluster boot0 w = (True, w)"
  by (simp_all add: boot0_def log_Init_def settings_yaml_def ConnectToCluster_def kubeconfig_def)

text \<open>
  A usage of \<open>2\<^sup>6\<^sup>3\<close> or more does not fit the \<open>int\<close> it is converted to. With the value
  that amd64 gives the conversion, the comparison with any threshold of the configuration
  fails: the claim with the largest reported usage is not resized.
\<close>

lemma check_pvc_usage_out_of_range:
  assumes "fst (FetchDiskUsage env (Prometheus_URL config) pvcName (Namespace result) w) = Inr x"
    and "9223372036854775808 \<le> x" and "min_int64 \<le> DiskUsage_Resize config"
  shows "calls (snd (check_pvc env config result pvcName w)) = calls w"
  using assms by (simp add: check_pvc_below go_int_too_large)

section \<open>Properties\<close>

text \<open>
  C10 (functional). The resize decision: for a usage that is not negative and below
  \<open>2\<^sup>6\<^sup>3\<close>, where the conversion \<open>int(..)\<close> is defined, \<open>check_pvc\<close> calls the API exactly
  when the usage, cut to a whole number, is greater than the threshold, that is when the
  usage is at least the threshold plus one. A usage of 80.9 with a threshold of 80 resizes
  nothing.
\<close>

theorem check_pvc_threshold:
  assumes "fst (FetchDiskUsage env (Prometheus_URL config) pvcName (Namespace result) w) = Inr x"
    and "0 \<le> x" and "x < 9223372036854775808"
  shows "calls (snd (check_pvc env config result pvcName w)) = calls w \<longleftrightarrow>
           x < of_int (DiskUsage_Resize config) + 1"
proof (cases "go_int x \<le> DiskUsage_Resize config")
  case True
  then have "x < of_int (DiskUsage_Resize config) + 1"
    using assms(2,3) by (simp add: go_int_nonneg floor_le_iff)
  with True assms(1) show ?thesis
    by (simp add: check_pvc_below)
next
  case False
  then have "\<not> x < of_int (DiskUsage_Resize config) + 1"
    using assms(2,3) by (simp add: go_int_nonneg floor_le_iff)
  moreover have "calls (snd (check_pvc env config result pvcName w)) \<noteq> calls w"
    using check_pvc_above_calls [OF assms(1)] False by auto
  ultimately show ?thesis by simp
qed

theorem check_pvc_threshold_witness:
  "calls (snd (check_pvc env0 settings
                 \<lparr>Namespace = ''ns1'', Deployment = ''web'', PVCNames = [''data-pvc'']\<rparr>
                 ''data-pvc'' world0)) \<noteq> calls world0"
  using check_pvc_threshold
    [where env = env0 and config = settings and pvcName = "''data-pvc''" and w = world0
       and x = "85.5"
       and result = "\<lparr>Namespace = ''ns1'', Deployment = ''web'', PVCNames = [''data-pvc'']\<rparr>"]
  by (simp add: FetchDiskUsage_env0)

text \<open>
  C37 (error). When the disk usage of a claim cannot be fetched, \<open>check_pvc\<close> logs the
  error and goes on to the next claim: it makes no call of the API, leaves every claim as
  it is, and the loop continues.
\<close>

theorem check_pvc_fetch_error_skips:
  assumes "fst (FetchDiskUsage env (Prometheus_URL config) pvcName (Namespace result) w) = Inl err"
    and "\<not> aborts err"
  shows "fst (check_pvc env config result pvcName w) = Inr () \<and>
         calls (snd (check_pvc env config result pvcName w)) = calls w \<and>
         pvcs (snd (check_pvc env config result pvcName w)) = pvcs w \<and>
         logged ERROR ''Error fetching disk usage for PVC %s in namespace %s: %v''
           (logs (snd (check_pvc env config result pvcName w)))"
  using assms by (simp add: check_pvc_fetch_failed)

theorem check_pvc_fetch_error_skips_witness:
  "fst (check_pvc (env0\<lparr>prometheus := \<lambda>t u q. GetFailed\<rparr>) settings
          \<lparr>Namespace = ''ns1'', Deployment = ''web'', PVCNames = [''data-pvc'']\<rparr>
          ''data-pvc'' world0) = Inr ()"
  using check_pvc_fetch_error_skips
    [where env = "env0\<lparr>prometheus := \<lambda>t u q. GetFailed\<rparr>" and config = settings
       and pvcName = "''data-pvc''" and w = world0 and err = HttpError
       and result = "\<lparr>Namespace = ''ns1'', Deployment = ''web'', PVCNames = [''data-pvc'']\<rparr>"]
  by (simp add: FetchDiskUsage_result [of _ config0])

text \<open>
  C23 (termination). The monitoring loop is not endless: when discovery finds no enabled
  deployment, the first cycle logs an error and \<open>main\<close> returns, whatever the mode and
  however many cycles were still to run.
\<close>

theorem main_loop_ends_without_targets:
  assumes "no_fault (Suc (length (namespaces w))) w" and "discovered w = []"
  shows "fst (main_loop (Suc fuel) env config mode w) = Returned \<and>
         calls_since w (snd (main_loop (Suc fuel) env config mode w)) =
           ListNamespaces # map ListDeployments (namespaces w) \<and>
         logged ERROR ''No deployments with the specified annotation found.''
           (logs (snd (main_loop (Suc fuel) env config mode w)))"
  by (simp add: main_loop_Suc cycle_without_targets [OF assms])

theorem main_loop_ends_without_targets_witness:
  "fst (main_loop 10 env0 settings ''pvc'' bare) = Returned"
  using main_loop_ends_without_targets
    [where w = bare and fuel = 9 and env = env0 and config = settings and mode = "''pvc''"]
  by simp

text \<open>
  C38 (safety). \<open>main\<close> touches the cluster only after its checks: if a run has called the
  API at all, then the log file was opened, the mode was one of \<open>pvc\<close>, \<open>ingress\<close> and
  \<open>pvc,ingress\<close>, the configuration was loaded, and the client was connected.
\<close>

theorem main_checks_before_calling:
  assumes "calls (snd (main mode b env fuel w)) \<noteq> calls w"
  shows "fst (log_Init (log_removed b) (log_opened b)) \<noteq> None \<and>
         (mode = ''pvc'' \<or> mode = ''ingress'' \<or> mode = ''pvc,ingress'') \<and>
         is_ok (config_LoadConfig (settings_file b)) \<and>
         config_builds b (kubeconfig b) \<and> client_created b"
proof -
  have "calls (snd (ConnectToCluster b w')) = calls w'" for w'
    by simp
  with assms show ?thesis
    by (auto simp: main_def Let_def is_ok_def ConnectToCluster_def
        split: option.splits if_splits sum.splits)
qed

theorem main_checks_before_calling_witness:
  "calls (snd (main ''pvc'' boot0 env0 1 (world0\<lparr>deployments := \<lambda>ns. []\<rparr>)))
     \<noteq> calls (world0\<lparr>deployments := \<lambda>ns. []\<rparr>) \<and> client_created boot0"
  using main_checks_before_calling
    [where mode = "''pvc''" and b = boot0 and env = env0
       and fuel = 1 and w = "world0\<lparr>deployments := \<lambda>ns. []\<rparr>"]
    IsAnnotation_no_fault [of "info ''Starting new monitoring cycle...''
       (info ''Starting Kubernetes Resource Autoscaler...''
          (world0\<lparr>deployments := \<lambda>ns. [], logs := []\<rparr>))"]
  by (simp add: main_def main_loop_Suc [of 0] cycle_def discovered_def enabled_in_def world0_def)

text \<open>
  Every cycle keeps the cluster well formed: however many cycles run and
  whatever the API and Prometheus answer, the deployments of a namespace keep distinct
  names and a replica count, and every claim is stored under its own name with a request
  map.
\<close>

theorem main_loop_preserves_wf:
  assumes "wf_world w"
  shows "wf_world (snd (main_loop fuel env config mode w))"
  using assms
proof (induction fuel arbitrary: w)
  case 0
  then show ?case by simp
next
  case (Suc fuel)
  then have "wf_world (snd (cycle env config mode w))"
    by (simp add: wf_world_cycle)
  with Suc.IH show ?case
    by (simp add: main_loop_Suc split: cycle_end.split)
qed

theorem main_loop_preserves_wf_witness:
  "wf_world world0 \<and> wf_world (snd (main_loop 3 env0 settings ''pvc,ingress'' world0))"
  using main_loop_preserves_wf
    [OF wf_world0, where fuel = 3 and env = env0 and config = settings and mode = "''pvc,ingress''"]
    wf_world0
  by simp

text \<open>
  C31 (bounds). The pause between two cycles is \<open>Interval\<close> minutes as long as the product
  with the nanoseconds of a minute fits into an \<open>int64\<close>, that is up to 153722867 minutes.
  One minute more and the product wraps to a negative duration, for which \<open>time.Sleep\<close>
  returns at once: the loop does not pause at all.
\<close>

theorem interval_seconds_bounds:
  "(0 \<le> i \<and> i \<le> 153722867 \<longrightarrow> interval_seconds i = nat (60 * i)) \<and>
   interval_seconds 153722868 = 0"
  using interval_seconds_minutes [of i] by (simp add: interval_seconds_wraps)

theorem interval_seconds_bounds_witness:
  "interval_seconds 5 = 300 \<and> interval_seconds 153722868 = 0"
  using interval_seconds_bounds [of 5] by simp

text \<open>
  C30 (error). \<open>log.Init\<close> reports a log file that cannot be removed or opened on standard
  output and returns with both loggers unset; \<open>main\<close> does not notice, and its first
  \<open>log.Info\<close> dereferences a \<open>nil\<close> logger: the program panics before it has checked the
  mode, read the configuration or touched the cluster.
\<close>

theorem main_without_log_file_panics:
  assumes "log_opened b = Some e \<or> (\<exists>e. log_removed b = Some e \<and> e \<noteq> FileNotExist)"
  shows "main mode b env fuel w = (Ended nil_client, w)"
  using assms by (auto simp: main_def log_Init_def)

theorem main_without_log_file_panics_witness:
  "main ''pvc'' (boot0\<lparr>log_opened := Some FileError\<rparr>) env0 7 world0 = (Ended nil_client, world0)"
  using main_without_log_file_panics [of "boot0\<lparr>log_opened := Some FileError\<rparr>" FileError]
  by simp

text \<open>
  C20 (functional). The targets of one cycle are not independent when they share a claim: in
  a quiet cluster, with the disk usage of a bound claim above the threshold for the whole
  cycle, the storage mode grows a claim that \<open>k\<close> targets name \<open>k\<close> times, each time by one
  half of the size just written, and spends one second of waiting on each.
\<close>

theorem shared_claim_grows_per_target:
  assumes "\<forall>r \<in> set rs. PVCNames r = [n] \<and> Namespace r = ns"
    and "wf_world w" and "faults w = []" and "timeline w = []"
    and "pvcs w (ns, n) = Some p" and "phase p = ClaimBound"
    and "\<And>w'. fst (FetchDiskUsage env (Prometheus_URL config) n ns w') = Inr x"
    and "DiskUsage_Resize config < go_int x"
  shows "fst (pvc_mode env config rs w) = Inr () \<and>
         claim_size (snd (pvc_mode env config rs w)) ns n =
           Some ((new_size ^^ length rs) (storage_request p)) \<and>
         now (snd (pvc_mode env config rs w)) = now w + length rs"
  using pvc_loop_shared_claim
    [of rs n ns "info ''Running in PVC resizing mode...'' w" p env config x] assms
  by (simp add: pvc_mode_def)

theorem shared_claim_grows_per_target_witness:
  "claim_size world0 ''ns1'' ''data-pvc'' = Some 10737418240 \<and>
   claim_size
     (snd (pvc_mode env0 settings
        [\<lparr>Namespace = ''ns1'', Deployment = ''web'', PVCNames = [''data-pvc'']\<rparr>,
         \<lparr>Namespace = ''ns1'', Deployment = ''worker'', PVCNames = [''data-pvc'']\<rparr>] world0))
     ''ns1'' ''data-pvc'' = Some 24159191040"
  using shared_claim_grows_per_target
    [of "[\<lparr>Namespace = ''ns1'', Deployment = ''web'', PVCNames = [''data-pvc'']\<rparr>,
          \<lparr>Namespace = ''ns1'', Deployment = ''worker'', PVCNames = [''data-pvc'']\<rparr>]"
       "''data-pvc''" "''ns1''" world0 data_pvc env0 settings "85.5", OF _ wf_world0]
  by (simp add: FetchDiskUsage_env0 go_int_eval claim_size_def data_pvc_def ResourceStorage_def
      storage_request_def new_size_def go_quot_def signed_divide_int_def numeral_2_eq_2)

end
