(* ===== verification/History.thy ===== *)
theory History
  imports Control
begin

text \<open>
  What a run leaves behind, and which calls of the API an operation may make.

  Every operation of the program only moves the world forward: the clock does not go
  back, the trace of API calls and the log are only appended to, the script of faults and
  the timeline of the environment are only consumed, and the namespaces and the pods of
  the cluster are never changed. \<open>advances K w w'\<close> says that \<open>w'\<close> is a later
  world of a run that passed through \<open>w\<close> and that every call made in between is of a
  kind in \<open>K\<close>; \<open>extends\<close> is \<open>advances\<close> for all kinds. \<open>advances K\<close> is a preorder.

  \<open>call_kind\<close> sorts the calls of the API by what they touch. An operation has an
  \<^emph>\<open>effect\<close>: the kinds of calls it can make. The lemmas of this theory assign an effect to
  every operation, from the actuators up to a whole monitoring cycle, where the effect
  \<open>effects mode\<close> depends on the mode only: discovery lists, PVC mode reads and updates
  claims, ingress mode lists and reads deployments and reads and updates scales.

  The lemmas of the collection \<open>history\<close> have the form
  \<open>advances K w w1 \<Longrightarrow> advances K w (snd (f x w1))\<close> with the kinds of \<open>f\<close> as further
  premises, so that a world built by a sequence of operations is related to its start by
  applying them outside in.
\<close>

section \<open>Definitions\<close>

named_theorems history "operations that advance the world within their effect"

datatype call_kind =
  Listing | DeploymentRead | ScaleRead | ClaimRead | DeploymentUpdate | ScaleUpdate | ClaimUpdate

fun kind_of :: "api_call \<Rightarrow> call_kind" where
  "kind_of ListNamespaces = Listing"
| "kind_of (ListDeployments ns) = Listing"
| "kind_of (ListPods ns) = Listing"
| "kind_of (GetDeployment ns n) = DeploymentRead"
| "kind_of (UpdateDeployment ns n) = DeploymentUpdate"
| "kind_of (GetScale ns n) = ScaleRead"
| "kind_of (UpdateScale ns n r) = ScaleUpdate"
| "kind_of (GetPVC ns n) = ClaimRead"
| "kind_of (UpdatePVC ns n) = ClaimUpdate"

definition advances :: "call_kind set \<Rightarrow> world \<Rightarrow> world \<Rightarrow> bool" where
  "advances K w w' \<longleftrightarrow>
     now w \<le> now w' \<and>
     prefix (calls w) (calls w') \<and> kind_of ` set (calls_since w w') \<subseteq> K \<and>
     prefix (logs w) (logs w') \<and>
     suffix (faults w') (faults w) \<and> subseq (timeline w') (timeline w) \<and>
     namespaces w' = namespaces w \<and> pods w' = pods w"

abbreviation extends :: "world \<Rightarrow> world \<Rightarrow> bool" where
  "extends \<equiv> advances UNIV"

text \<open>The effect of a monitoring cycle in a mode.\<close>

definition storage_effect :: "call_kind set" where
  "storage_effect = {ClaimRead, ClaimUpdate}"

definition network_effect :: "call_kind set" where
  "network_effect = {Listing, DeploymentRead, ScaleRead, ScaleUpdate}"

definition effects :: "string \<Rightarrow> call_kind set" where
  "effects mode =
     {Listing} \<union> (if runPVC mode then storage_effect else {}) \<union>
     (if runIngress mode then network_effect else {})"

section \<open>A preorder\<close>

lemma advances_refl [simp, intro]: "advances K w w"
  by (simp add: advances_def)

lemma advances_calls:
  "advances K w w' \<longleftrightarrow>
     now w \<le> now w' \<and> (\<exists>cs. calls w' = calls w @ cs \<and> kind_of ` set cs \<subseteq> K) \<and>
     prefix (logs w) (logs w') \<and>
     suffix (faults w') (faults w) \<and> subseq (timeline w') (timeline w) \<and>
     namespaces w' = namespaces w \<and> pods w' = pods w"
  by (auto simp: advances_def prefix_def calls_since_def)

lemma advances_trans [trans]: "advances K w w1 \<Longrightarrow> advances K w1 w2 \<Longrightarrow> advances K w w2"
  unfolding advances_calls
  by (elim conjE exE) (auto intro: suffix_order.trans subseq_order.trans prefix_order.trans)

lemma advances_after: "advances K w1 w2 \<Longrightarrow> advances K w w1 \<Longrightarrow> advances K w w2"
  by (rule advances_trans)

lemma advances_mono: "advances K w w' \<Longrightarrow> K \<subseteq> L \<Longrightarrow> advances L w w'"
  by (auto simp: advances_def)

lemma advancesD:
  assumes "advances K w w'"
  shows "now w \<le> now w'" and "prefix (calls w) (calls w')" and "prefix (logs w) (logs w')"
    and "namespaces w' = namespaces w" and "pods w' = pods w"
    and "calls w' = calls w @ calls_since w w'"
    and "\<And>c. c \<in> set (calls_since w w') \<Longrightarrow> kind_of c \<in> K"
    and "faults w = [] \<Longrightarrow> faults w' = []" and "timeline w = [] \<Longrightarrow> timeline w' = []"
  using assms by (auto simp: advances_def calls_since_def prefix_def)

section \<open>Logging, the clock and the API\<close>

lemma advances_basic:
  "advances K w (info msg w)"
  "advances K w (warning msg w)"
  "advances K w (snd (error_nil msg w))"
  "advances K w (snd (fatal msg w))"
  "advances K w (sleep d w)"
  "advances K w (set_replicas ns n r w)"
  "advances K w (put_deployment ns dp w)"
  "advances K w (put_pvc ns p w)"
  by (simp_all add: advances_def sleep_def pending_def)

lemmas advances_basic_after [history] = advances_basic [THEN advances_after]

lemma advances_called: "kind_of c \<in> K \<Longrightarrow> advances K w (called c w)"
  by (simp add: advances_calls suffix_tl)

lemmas advances_called_after [history] = advances_called [THEN advances_after]

lemma advances_update:
  "ScaleUpdate \<in> K \<Longrightarrow> advances K w (snd (update_scale ns n sc w))"
  "DeploymentUpdate \<in> K \<Longrightarrow> advances K w (snd (update_deployment ns dp w))"
  "ClaimUpdate \<in> K \<Longrightarrow> advances K w (snd (update_pvc ns p w))"
  by (simp_all add: update_scale_def update_deployment_def update_pvc_def advances_called
      advances_basic_after split: option.split)

lemmas advances_update_after [history] = advances_update [THEN advances_after]

section \<open>Loops\<close>

lemma for_each_advances:
  assumes "\<And>x s. x \<in> set xs \<Longrightarrow> advances K s (snd (body x s))"
  shows "advances K w (snd (for_each body xs w))"
  by (rule for_each_invariant [where P = "advances K w"]) (auto intro: advances_trans assms)

lemma poll_loop_advances:
  assumes "\<And>s. advances K s (snd (tick s))"
  shows "advances K w (snd (poll_loop k tick msg w))"
proof (induction k arbitrary: w)
  case 0
  show ?case by (simp add: poll_loop.simps) (intro history advances_refl)
next
  case (Suc k)
  have "advances K w (snd (tick (sleep tickSeconds w)))"
    by (intro assms [THEN advances_after] history advances_refl)
  with Suc [of "snd (tick (sleep tickSeconds w))"] show ?case
    by (auto simp: poll_loop_Suc split: sum.split bool.split intro: advances_trans)
qed

section \<open>The storage actuator and its waiter\<close>

lemma ResizePVC_advances:
  assumes "ClaimRead \<in> K" and "ClaimUpdate \<in> K"
  shows "advances K w (snd (ResizePVC n ns w))"
  using assms
  by (simp add: ResizePVC_def result_case split: sum.split option.split cong: sum.case_cong)
    (intro conjI impI allI history advances_refl | simp)+

lemma CheckPVCExists_advances:
  assumes "ClaimRead \<in> K"
  shows "advances K w (snd (CheckPVCExists n ns w))"
  using assms
  by (simp add: CheckPVCExists_def result_case split: sum.split cong: sum.case_cong)
    (intro conjI impI allI history advances_refl | simp)+

lemma pvc_tick_advances:
  assumes "ClaimRead \<in> K"
  shows "advances K w (snd (pvc_tick n ns w))"
  using assms
  by (simp add: pvc_tick_def result_case split: sum.split cong: sum.case_cong)
    (intro conjI impI allI history advances_refl | simp)+

lemma WaitForPVCReady_advances:
  assumes "ClaimRead \<in> K"
  shows "advances K w (snd (WaitForPVCReady n ns w))"
  using assms by (simp add: WaitForPVCReady_def poll_loop_advances pvc_tick_advances)

section \<open>The replica actuator and its waiter\<close>

lemma adjust_desired_advances: "advances K w (snd (adjust_desired d x w))"
  by (simp add: adjust_desired_def split: option.split)
    (intro conjI impI allI history advances_refl)+

lemma attempt_worlds_advance:
  assumes "ScaleRead \<in> K" and "ScaleUpdate \<in> K"
  shows "advances K w (after_read_failure ns n w)"
    and "advances K w (after_update ns n x w)"
    and "advances K w (after_failed_update ns n x w)"
    and "advances K w (before_retry ns n x w)"
  using assms
  by (simp_all add: attempt_worlds before_retry_def after_failed_update_def)
    ((intro history advances_refl | simp)+)+

lemma scale_attempts_advances:
  assumes "ScaleRead \<in> K" and "ScaleUpdate \<in> K"
  shows "advances K w (snd (scale_attempts ns n x i w))"
  by (rule scale_attempts_induct [where P = "\<lambda>i w r. advances K w (snd r)"])
    (auto simp: attempt_worlds_advance [OF assms]
      intro: advances_trans [OF attempt_worlds_advance(4) [OF assms]])

lemma scale_each_advances:
  assumes "ScaleRead \<in> K" and "ScaleUpdate \<in> K"
  shows "advances K w (snd (scale_each ns ds x w))"
proof (induction ds arbitrary: x w)
  case Nil
  show ?case by simp
next
  case (Cons d ds)
  have "advances K w (snd (scale_attempts ns (dep_name d) y 0 (snd (adjust_desired d x w))))" for y
    by (intro scale_attempts_advances [OF assms, THEN advances_after] adjust_desired_advances)
  with Cons show ?case
    by (auto simp: scale_each_Cons adjust_desired_advances split: sum.split intro: advances_trans)
qed

lemma ScalePod_advances:
  assumes "Listing \<in> K" and "ScaleRead \<in> K" and "ScaleUpdate \<in> K"
  shows "advances K w (snd (ScalePod ns n x w))"
  using assms(1)
  by (simp add: ScalePod_eq split: option.split)
    (intro conjI impI allI history scale_each_advances [OF assms(2,3), THEN advances_after]
      advances_refl | simp)+

lemma ScaleDownOldPods_advances:
  assumes "DeploymentRead \<in> K" and "DeploymentUpdate \<in> K"
  shows "advances K w (snd (ScaleDownOldPods n ns w))"
  using assms
  by (simp add: ScaleDownOldPods_def result_case split: sum.split option.split cong: sum.case_cong)
    (intro conjI impI allI history advances_refl | simp)+

lemma scaling_tick_advances:
  assumes "DeploymentRead \<in> K"
  shows "advances K w (snd (scaling_tick n ns x w))"
  using assms
  by (simp add: scaling_tick_def result_case Let_def split: sum.split cong: sum.case_cong)
    (intro conjI impI allI history advances_refl | simp)+

lemma WaitForScaling_advances:
  assumes "DeploymentRead \<in> K"
  shows "advances K w (snd (WaitForScaling n ns x w))"
  using assms by (simp add: WaitForScaling_def poll_loop_advances scaling_tick_advances)

section \<open>Discovery, pods and metrics\<close>

lemma scan_namespaces_advances:
  assumes "Listing \<in> K"
  shows "advances K w (snd (scan_namespaces nss rs w))"
proof (induction nss arbitrary: rs w)
  case Nil
  show ?case by simp
next
  case (Cons ns nss)
  have "advances K w (called (ListDeployments ns) w)"
    using assms by (simp add: advances_called)
  with Cons show ?case
    by (auto simp: scan_namespaces_Cons split: option.split intro: advances_trans)
qed

lemma IsAnnotation_advances:
  assumes "Listing \<in> K"
  shows "advances K w (snd (IsAnnotation w))"
  using assms
  by (simp add: IsAnnotation_def result_case split: sum.split cong: sum.case_cong)
    (intro conjI impI allI history scan_namespaces_advances [THEN advances_after]
      advances_refl | simp)+

lemma GetPodsForDeployment_advances:
  assumes "DeploymentRead \<in> K" and "Listing \<in> K"
  shows "advances K w (snd (GetPodsForDeployment n ns w))"
  using assms
  by (simp add: GetPodsForDeployment_eq split: option.split)
    (intro conjI impI allI history advances_refl | simp)+

lemma fetch_direction_advances: "advances K w (snd (fetch_direction env dir url q w))"
  by (simp add: fetch_direction_def split: http_reply.split sum.split json_value.split option.split)
    (intro conjI impI allI history advances_refl)+

lemma FetchDiskUsage_advances: "advances K w (snd (FetchDiskUsage env url n ns w))"
  by (simp add: FetchDiskUsage_def Let_def
      split: http_reply.split sum.split json_value.split option.split)
    (intro conjI impI allI history advances_refl)+

lemma FetchNetworkUsage_advances: "advances K w (snd (FetchNetworkUsage env url p ns w))"
  by (simp add: FetchNetworkUsage_def Let_def result_case split: sum.split cong: sum.case_cong)
    (intro conjI impI allI history fetch_direction_advances [THEN advances_after] advances_refl)+

lemmas component_history [history] =
  ResizePVC_advances [THEN advances_after] CheckPVCExists_advances [THEN advances_after]
  WaitForPVCReady_advances [THEN advances_after]
  ScalePod_advances [THEN advances_after] ScaleDownOldPods_advances [THEN advances_after]
  WaitForScaling_advances [THEN advances_after] IsAnnotation_advances [THEN advances_after]
  GetPodsForDeployment_advances [THEN advances_after] FetchDiskUsage_advances [THEN advances_after]
  FetchNetworkUsage_advances [THEN advances_after]

section \<open>The control loop\<close>

lemma continue_after_advances: "advances K w (snd (continue_after msg err w))"
  by (simp add: continue_after_def) (intro impI history advances_refl)

lemma log_results_advances: "advances K w (log_results rs w)"
proof -
  have "advances K w (fold (\<lambda>r. info msg) rs w1)" if "advances K w w1" for msg w1
    using that by (induction rs arbitrary: w1) (auto intro: history)
  from this [OF advances_basic(1)] show ?thesis
    by (simp add: log_results_def)
qed

lemmas control_history [history] =
  continue_after_advances [THEN advances_after] log_results_advances [THEN advances_after]

lemma in_storage_effect [simp]: "ClaimRead \<in> storage_effect" "ClaimUpdate \<in> storage_effect"
  by (simp_all add: storage_effect_def)

lemma in_network_effect [simp]:
  "Listing \<in> network_effect" "DeploymentRead \<in> network_effect"
  "ScaleRead \<in> network_effect" "ScaleUpdate \<in> network_effect"
  by (simp_all add: network_effect_def)

lemma check_pvc_advances:
  "advances storage_effect w (snd (check_pvc env config result pvcName w))"
  by (simp add: check_pvc_eq pvc_worlds split: sum.split)
    (intro conjI impI allI history advances_refl | simp)+

lemma pvc_mode_advances: "advances storage_effect w (snd (pvc_mode env config rs w))"
  unfolding pvc_mode_def
  by (intro for_each_advances [THEN advances_after] check_pvc_advances history advances_refl)

lemma check_pod_advances:
  "advances network_effect w (snd (check_pod env config result pod w))"
  by (simp add: check_pod_eq pod_worlds split: sum.split option.split)
    (intro conjI impI allI history advances_refl | simp)+

lemma check_deployment_advances:
  "advances network_effect w (snd (check_deployment env config result w))"
  by (simp add: check_deployment_def result_case split: sum.split cong: sum.case_cong)
    (intro conjI impI allI for_each_advances [THEN advances_after] check_pod_advances history
      advances_refl | simp)+

lemma ingress_mode_advances: "advances network_effect w (snd (ingress_mode env config rs w))"
  unfolding ingress_mode_def
  by (intro for_each_advances [THEN advances_after] check_deployment_advances history
      advances_refl)

lemma effects_mono:
  "Listing \<in> effects mode"
  "runPVC mode \<Longrightarrow> storage_effect \<subseteq> effects mode"
  "runIngress mode \<Longrightarrow> network_effect \<subseteq> effects mode"
  by (auto simp: effects_def)

lemma phases_advance:
  "advances (effects mode) w (snd (pvc_phase env config mode rs w))"
  "advances (effects mode) w (snd (ingress_phase env config mode rs w))"
  by (auto simp: pvc_phase_def ingress_phase_def
      intro: advances_mono [OF pvc_mode_advances effects_mono(2)]
        advances_mono [OF ingress_mode_advances effects_mono(3)])

lemmas phase_history [history] = phases_advance [THEN advances_after]

lemma cycle_advances: "advances (effects mode) w (snd (cycle env config mode w))"
proof (cases "IsAnnotation (info ''Starting new monitoring cycle...'' w)")
  case (Pair r w1)
  have "advances (effects mode) w (snd (IsAnnotation (info ''Starting new monitoring cycle...'' w)))"
    by (intro history advances_refl effects_mono)
  with Pair have w1: "advances (effects mode) w w1"
    by simp
  show ?thesis
  proof (cases r)
    case (Inl err)
    with Pair w1 show ?thesis
      by (simp add: cycle_discovery_failed) (intro history)
  next
    case (Inr found)
    obtain rs b where "found = (rs, b)" by (cases found)
    with Pair Inr w1 show ?thesis
      by (cases b; simp add: cycle_found cycle_nothing_found split: sum.split)
        (intro conjI impI allI history | assumption)+
  qed
qed

lemma main_loop_advances:
  "advances (effects mode) w (snd (main_loop fuel env config mode w))"
proof (induction fuel arbitrary: w)
  case 0
  show ?case by simp
next
  case (Suc fuel)
  from Suc [of "snd (cycle env config mode w)"] cycle_advances [of mode w env config]
  show ?case
    by (auto simp: main_loop_Suc split: cycle_end.split intro: advances_trans)
qed

section \<open>The effects of the modes\<close>

lemma effects_modes:
  "effects ''pvc'' = {Listing, ClaimRead, ClaimUpdate}"
  "effects ''ingress'' = {Listing, DeploymentRead, ScaleRead, ScaleUpdate}"
  "effects ''pvc,ingress'' =
     {Listing, ClaimRead, ClaimUpdate, DeploymentRead, ScaleRead, ScaleUpdate}"
  by (auto simp: effects_def storage_effect_def network_effect_def)

lemma DeploymentUpdate_no_effect [simp]: "DeploymentUpdate \<notin> effects mode"
  by (simp add: effects_def storage_effect_def network_effect_def)

section \<open>Properties\<close>

text \<open>
  C16 (type). Every operation keeps to its effect. Whatever the cluster, the API and
  Prometheus do, an operation moves the world forward and makes only the calls of its
  kinds: the storage actuator reads and updates claims, its waiter reads claims, the
  replica actuator lists and reads and updates scales, discovery lists, the pod lookup
  reads a deployment and lists, the metrics gateway calls nothing, and a whole cycle makes
  the calls of its mode.
\<close>

theorem operations_keep_to_their_effects:
  "advances {ClaimRead, ClaimUpdate} w (snd (ResizePVC n ns w)) \<and>
   advances {ClaimRead} w (snd (WaitForPVCReady n ns w)) \<and>
   advances {Listing, ScaleRead, ScaleUpdate} w (snd (ScalePod ns n x w)) \<and>
   advances {DeploymentRead} w (snd (WaitForScaling n ns x w)) \<and>
   advances {DeploymentRead, DeploymentUpdate} w (snd (ScaleDownOldPods n ns w)) \<and>
   advances {Listing} w (snd (IsAnnotation w)) \<and>
   advances {DeploymentRead, Listing} w (snd (GetPodsForDeployment n ns w)) \<and>
   advances {} w (snd (FetchDiskUsage env url n ns w)) \<and>
   advances {} w (snd (FetchNetworkUsage env url n ns w)) \<and>
   advances (effects mode) w (snd (cycle env config mode w))"
  by (simp add: ResizePVC_advances WaitForPVCReady_advances ScalePod_advances
      WaitForScaling_advances ScaleDownOldPods_advances IsAnnotation_advances
      GetPodsForDeployment_advances FetchDiskUsage_advances FetchNetworkUsage_advances
      cycle_advances)

text \<open>
  The two modes keep to their own objects. Whatever happens, a run of the
  loop that does not include the ingress mode makes no call about a deployment or a scale
  other than the lists of discovery, a run that does not include the PVC mode makes no call
  about a claim, and no run at all updates a deployment object.
\<close>

theorem modes_are_separate:
  "(\<not> runIngress mode \<longrightarrow>
      (\<forall>c \<in> set (calls_since w (snd (main_loop fuel env config mode w))).
         kind_of c \<in> {Listing, ClaimRead, ClaimUpdate})) \<and>
   (\<not> runPVC mode \<longrightarrow>
      (\<forall>c \<in> set (calls_since w (snd (main_loop fuel env config mode w))).
         kind_of c \<in> {Listing, DeploymentRead, ScaleRead, ScaleUpdate})) \<and>
   (\<forall>c \<in> set (calls_since w (snd (main_loop fuel env config mode w))).
      kind_of c \<noteq> DeploymentUpdate)"
  using advancesD(7) [OF main_loop_advances [of mode w fuel env config]]
  by (cases "runPVC mode"; cases "runIngress mode")
    (fastforce simp: effects_def storage_effect_def network_effect_def)+

theorem modes_are_separate_witness:
  "\<forall>c \<in> set (calls_since world0 (snd (main_loop 2 env0 settings ''pvc'' world0))).
     kind_of c \<in> {Listing, ClaimRead, ClaimUpdate}"
  using modes_are_separate [of "''pvc''" world0 2 env0 settings] by simp

end
