(* ===== verification/Machine.thy ===== *)
theory Machine
  imports History
begin

text \<open>
  The control loop of \<open>src/main.go\<close> as a state machine. A state is a program point of
  the loop together with the world: \<open>Discover\<close> is the head of the \<open>for\<close>, \<open>Storage\<close> the
  point before the PVC mode with the results of discovery, \<open>Network\<close> the point before the
  ingress mode, \<open>Pause\<close> the point before the sleep; \<open>Stopped\<close> is \<open>main\<close> after a \<open>return\<close>
  and \<open>Crashed\<close> the process after \<open>log.Fatal\<close> or a panic.

  \<open>step\<close> is the transition relation, one rule for each way a phase can end; \<open>next_state\<close>
  is the same machine as a function and \<open>exec\<close> runs it for a number of steps. The machine
  translates no code that \<open>cycle\<close> and \<open>main_loop\<close> of \<open>Control\<close> do not translate already:
  it cuts the same lines at the program points, so that what holds between two phases can
  be stated and proved by induction over the runs. The lemmas that tie the two together
  show that the relation is the graph of the function (so it is deterministic and only
  the two final states are stuck), that four steps are one \<open>cycle\<close>, and that \<open>main_loop\<close>
  with fuel \<open>n\<close> is the machine after \<open>4 * n\<close> steps (\<open>main_loop_exec\<close>, \<open>main_loop_reaches\<close>,
  \<open>halted_reached\<close>).
\<close>

section \<open>Definitions\<close>

datatype pc =
    Discover
  | Storage "DeploymentResult list"
  | Network "DeploymentResult list"
  | Pause
  | Stopped
  | Crashed error

type_synonym machine = "pc \<times> world"

fun halted :: "pc \<Rightarrow> bool" where
  "halted Stopped = True"
| "halted (Crashed err) = True"
| "halted p = False"

inductive step :: "metrics_env \<Rightarrow> AutoscalerConfig \<Rightarrow> string \<Rightarrow> machine \<Rightarrow> machine \<Rightarrow> bool"
  for env :: metrics_env and config :: AutoscalerConfig and mode :: string where
  discovery_failed:
    "IsAnnotation (info ''Starting new monitoring cycle...'' w) = (Inl err, w1) \<Longrightarrow>
     step env config mode (Discover, w)
       (Stopped, snd (error_nil ''Error checking annotations: %v'' w1))"
| nothing_found:
    "IsAnnotation (info ''Starting new monitoring cycle...'' w) = (Inr (rs, False), w1) \<Longrightarrow>
     step env config mode (Discover, w)
       (Stopped, snd (error_nil ''No deployments with the specified annotation found.'' w1))"
| found:
    "IsAnnotation (info ''Starting new monitoring cycle...'' w) = (Inr (rs, True), w1) \<Longrightarrow>
     step env config mode (Discover, w) (Storage rs, log_results rs w1)"
| storage_crashed:
    "pvc_phase env config mode rs w = (Inl err, w1) \<Longrightarrow>
     step env config mode (Storage rs, w) (Crashed err, w1)"
| storage_done:
    "pvc_phase env config mode rs w = (Inr u, w1) \<Longrightarrow>
     step env config mode (Storage rs, w) (Network rs, w1)"
| network_crashed:
    "ingress_phase env config mode rs w = (Inl err, w1) \<Longrightarrow>
     step env config mode (Network rs, w) (Crashed err, w1)"
| network_done:
    "ingress_phase env config mode rs w = (Inr u, w1) \<Longrightarrow>
     step env config mode (Network rs, w) (Pause, w1)"
| paused:
    "step env config mode (Pause, w)
       (Discover,
        sleep (interval_seconds (Interval config))
          (info ''Monitoring cycle complete. Waiting for %d minutes before the next cycle.'' w))"

fun next_state :: "metrics_env \<Rightarrow> AutoscalerConfig \<Rightarrow> string \<Rightarrow> machine \<Rightarrow> machine option" where
  "next_state env config mode (Discover, w) =
     Some (case IsAnnotation (info ''Starting new monitoring cycle...'' w) of
             (Inl err, w1) \<Rightarrow> (Stopped, snd (error_nil ''Error checking annotations: %v'' w1))
           | (Inr (rs, annotationFound), w1) \<Rightarrow>
               if \<not> annotationFound
               then (Stopped,
                     snd (error_nil ''No deployments with the specified annotation found.'' w1))
               else (Storage rs, log_results rs w1))"
| "next_state env config mode (Storage rs, w) =
     Some (case pvc_phase env config mode rs w of
             (Inl err, w1) \<Rightarrow> (Crashed err, w1)
           | (Inr u, w1) \<Rightarrow> (Network rs, w1))"
| "next_state env config mode (Network rs, w) =
     Some (case ingress_phase env config mode rs w of
             (Inl err, w1) \<Rightarrow> (Crashed err, w1)
           | (Inr u, w1) \<Rightarrow> (Pause, w1))"
| "next_state env config mode (Pause, w) =
     Some (Discover,
           sleep (interval_seconds (Interval config))
             (info ''Monitoring cycle complete. Waiting for %d minutes before the next cycle.'' w))"
| "next_state env config mode (Stopped, w) = None"
| "next_state env config mode (Crashed err, w) = None"

fun exec :: "nat \<Rightarrow> metrics_env \<Rightarrow> AutoscalerConfig \<Rightarrow> string \<Rightarrow> machine \<Rightarrow> machine" where
  "exec 0 env config mode s = s"
| "exec (Suc n) env config mode s =
     (case next_state env config mode s of
        None \<Rightarrow> s
      | Some t \<Rightarrow> exec n env config mode t)"

abbreviation reaches ::
  "metrics_env \<Rightarrow> AutoscalerConfig \<Rightarrow> string \<Rightarrow> machine \<Rightarrow> machine \<Rightarrow> bool" where
  "reaches env config mode \<equiv> (step env config mode)\<^sup>*\<^sup>*"

text \<open>The program point at which a cycle and a run of \<open>main_loop\<close> end.\<close>

fun after_cycle :: "cycle_end \<Rightarrow> pc" where
  "after_cycle Continue = Discover"
| "after_cycle Return = Stopped"
| "after_cycle (Abort err) = Crashed err"

fun pc_of :: "run_end \<Rightarrow> pc" where
  "pc_of Running = Discover"
| "pc_of Returned = Stopped"
| "pc_of (Ended err) = Crashed err"

text \<open>
  The calls that a step from a program point can make, and the results that a program
  point carries from discovery to the two modes.
\<close>

fun phase_effect :: "string \<Rightarrow> pc \<Rightarrow> call_kind set" where
  "phase_effect mode Discover = {Listing}"
| "phase_effect mode (Storage rs) = (if runPVC mode then storage_effect else {})"
| "phase_effect mode (Network rs) = (if runIngress mode then network_effect else {})"
| "phase_effect mode p = {}"

fun carried :: "pc \<Rightarrow> DeploymentResult list option" where
  "carried (Storage rs) = Some rs"
| "carried (Network rs) = Some rs"
| "carried p = None"

section \<open>The relation and the function\<close>

inductive_cases step_DiscoverE: "step env config mode (Discover, w) t"
inductive_cases step_StorageE: "step env config mode (Storage rs, w) t"
inductive_cases step_NetworkE: "step env config mode (Network rs, w) t"
inductive_cases step_PauseE: "step env config mode (Pause, w) t"
inductive_cases step_StoppedE: "step env config mode (Stopped, w) t"
inductive_cases step_CrashedE: "step env config mode (Crashed err, w) t"

lemmas step_elims = step_DiscoverE step_StorageE step_NetworkE step_PauseE step_StoppedE
  step_CrashedE

lemma next_state_step:
  assumes "next_state env config mode s = Some t"
  shows "step env config mode s t"
proof -
  obtain p w where s: "s = (p, w)" by (cases s)
  show ?thesis
  proof (cases p)
    case Discover
    with assms s show ?thesis
      by (auto split: prod.splits sum.splits bool.splits if_splits intro: step.intros)
  next
    case (Storage rs)
    with assms s show ?thesis
      by (auto split: prod.splits sum.splits intro: step.intros)
  next
    case (Network rs)
    with assms s show ?thesis
      by (auto split: prod.splits sum.splits intro: step.intros)
  qed (use assms s in \<open>auto intro: step.intros\<close>)
qed

lemma step_next_state:
  assumes "step env config mode s t"
  shows "next_state env config mode s = Some t"
  using assms by (induction rule: step.induct) simp_all

lemma step_iff: "step env config mode s t \<longleftrightarrow> next_state env config mode s = Some t"
  by (blast intro: next_state_step step_next_state)

lemma step_deterministic:
  "step env config mode s t \<Longrightarrow> step env config mode s t' \<Longrightarrow> t = t'"
  by (simp add: step_iff)

lemma next_state_halted: "next_state env config mode (p, w) = None \<longleftrightarrow> halted p"
  by (cases p) simp_all

lemma step_progress: "\<not> halted p \<Longrightarrow> \<exists>t. step env config mode (p, w) t"
  using next_state_halted [of env config mode p w] by (auto simp: step_iff)

lemma halted_stuck: "halted p \<Longrightarrow> \<not> step env config mode (p, w) t"
  by (simp add: step_iff next_state_halted [THEN iffD2])

section \<open>Runs\<close>

lemma exec_halted [simp]: "halted p \<Longrightarrow> exec n env config mode (p, w) = (p, w)"
  by (cases n) (simp_all add: next_state_halted [THEN iffD2])

lemma exec_add:
  "exec (m + n) env config mode s = exec n env config mode (exec m env config mode s)"
proof (induction m arbitrary: s)
  case 0
  show ?case by simp
next
  case (Suc m)
  obtain p w where s: "s = (p, w)" by (cases s)
  show ?case
  proof (cases "next_state env config mode s")
    case None
    with s have "halted p" by (simp add: next_state_halted)
    with None s show ?thesis by simp
  next
    case (Some t)
    with Suc show ?thesis by simp
  qed
qed

lemma exec_reaches: "reaches env config mode s (exec n env config mode s)"
proof (induction n arbitrary: s)
  case 0
  show ?case by simp
next
  case (Suc n)
  show ?case
  proof (cases "next_state env config mode s")
    case None
    then show ?thesis by simp
  next
    case (Some t)
    then have "step env config mode s t" by (rule next_state_step)
    with Suc [of t] Some show ?thesis
      by (simp add: converse_rtranclp_into_rtranclp)
  qed
qed

lemma reaches_exec:
  assumes "reaches env config mode s t"
  shows "\<exists>n. exec n env config mode s = t"
  using assms
proof (induction rule: converse_rtranclp_induct)
  case base
  have "exec 0 env config mode t = t" by simp
  then show ?case by blast
next
  case (step s u)
  then obtain n where "exec n env config mode u = t" by blast
  with step.hyps(1) have "exec (Suc n) env config mode s = t"
    by (simp add: step_next_state)
  then show ?case by blast
qed

lemma reaches_iff_exec:
  "reaches env config mode s t \<longleftrightarrow> (\<exists>n. exec n env config mode s = t)"
  using exec_reaches reaches_exec by blast

section \<open>Four steps are a cycle\<close>

lemma exec_cycle:
  "exec 4 env config mode (Discover, w) =
     (after_cycle (fst (cycle env config mode w)), snd (cycle env config mode w))"
proof (cases "IsAnnotation (info ''Starting new monitoring cycle...'' w)")
  case (Pair r w1)
  show ?thesis
  proof (cases r)
    case (Inl err)
    with Pair show ?thesis
      by (simp add: cycle_discovery_failed eval_nat_numeral)
  next
    case (Inr found)
    obtain rs b where found: "found = (rs, b)" by (cases found)
    show ?thesis
    proof (cases b)
      case False
      with Pair Inr found show ?thesis
        by (simp add: cycle_nothing_found eval_nat_numeral)
    next
      case True
      with Pair Inr found show ?thesis
        by (simp add: cycle_found eval_nat_numeral result_case split: sum.split
            cong: sum.case_cong)
    qed
  qed
qed

lemma main_loop_exec:
  "exec (4 * fuel) env config mode (Discover, w) =
     (pc_of (fst (main_loop fuel env config mode w)), snd (main_loop fuel env config mode w))"
proof (induction fuel arbitrary: w)
  case 0
  show ?case by simp
next
  case (Suc fuel)
  have "exec (4 * Suc fuel) env config mode (Discover, w) =
          exec (4 * fuel) env config mode (exec 4 env config mode (Discover, w))"
    using exec_add [of 4 "4 * fuel"] by simp
  with Suc show ?case
    by (simp add: exec_cycle main_loop_Suc split: cycle_end.split)
qed

lemma pc_of_halted [simp]: "halted (pc_of r) \<longleftrightarrow> r \<noteq> Running"
  by (cases r) simp_all

lemma main_loop_reaches:
  "reaches env config mode (Discover, w)
     (pc_of (fst (main_loop fuel env config mode w)), snd (main_loop fuel env config mode w))"
  using exec_reaches [of env config mode "(Discover, w)" "4 * fuel"] by (simp add: main_loop_exec)

lemma halted_reached:
  assumes "reaches env config mode (Discover, w) (pc_of r, w')" and "r \<noteq> Running"
  shows "\<exists>fuel. main_loop fuel env config mode w = (r, w')"
proof -
  from assms(1) obtain n where n: "exec n env config mode (Discover, w) = (pc_of r, w')"
    using reaches_exec by blast
  have "exec (4 * n) env config mode (Discover, w) =
          exec (3 * n) env config mode (exec n env config mode (Discover, w))"
    using exec_add [of n "3 * n"] by simp
  with n assms(2) have "exec (4 * n) env config mode (Discover, w) = (pc_of r, w')"
    by simp
  then have "pc_of (fst (main_loop n env config mode w)) = pc_of r"
    and "snd (main_loop n env config mode w) = w'"
    by (simp_all add: main_loop_exec)
  moreover have "pc_of a = pc_of b \<Longrightarrow> a = b" for a b
    by (cases a; cases b) simp_all
  ultimately have "main_loop n env config mode w = (r, w')"
    by (metis prod.collapse)
  then show ?thesis ..
qed

section \<open>Invariants of the reachable states\<close>

lemma discovery_world:
  assumes "IsAnnotation (info msg w) = (r, w1)"
  shows "advances {Listing} w w1" and "wf_world w1 \<longleftrightarrow> wf_world w"
proof -
  have "advances {Listing} w (snd (IsAnnotation (info msg w)))"
    by (intro history advances_refl) simp
  with assms show "advances {Listing} w w1" by simp
  from assms wf_world_IsAnnotation [of "info msg w"] show "wf_world w1 \<longleftrightarrow> wf_world w"
    by simp
qed

lemma phase_worlds:
  "pvc_phase env config mode rs w = (r, w1) \<Longrightarrow>
     advances (if runPVC mode then storage_effect else {}) w w1"
  "pvc_phase env config mode rs w = (r, w1) \<Longrightarrow> wf_world w \<Longrightarrow> wf_world w1"
  "ingress_phase env config mode rs w = (r, w1) \<Longrightarrow>
     advances (if runIngress mode then network_effect else {}) w w1"
  "ingress_phase env config mode rs w = (r, w1) \<Longrightarrow> wf_world w \<Longrightarrow> wf_world w1"
  using pvc_mode_advances [of w env config rs] ingress_mode_advances [of w env config rs]
    wf_world_phases [of w env config mode rs]
  by (auto simp: pvc_phase_def ingress_phase_def)

lemma step_effect:
  assumes "step env config mode s t"
  shows "advances (phase_effect mode (fst s)) (snd s) (snd t)"
  using assms
  by (induction rule: step.induct)
    (auto dest: discovery_world(1) phase_worlds(1,3) intro: history advances_refl)

lemma phase_effect_subset: "phase_effect mode p \<subseteq> effects mode"
  by (cases p) (auto simp: effects_def)

lemma step_advances:
  assumes "step env config mode s t"
  shows "advances (effects mode) (snd s) (snd t)"
  using step_effect [OF assms] phase_effect_subset by (rule advances_mono)

lemma step_wf:
  assumes "step env config mode s t" and "wf_world (snd s)"
  shows "wf_world (snd t)"
  using assms
  by (induction rule: step.induct)
    (auto simp: wf_world_sleep discovery_world(2) dest: phase_worlds(2,4))

lemma step_carried:
  assumes "step env config mode s t" and "carried (fst s) \<noteq> Some []"
  shows "carried (fst t) \<noteq> Some []"
  using assms
proof (induction rule: step.induct)
  case (found w rs w1)
  then have "fst (IsAnnotation (info ''Starting new monitoring cycle...'' w)) = Inr (rs, True)"
    by simp
  from IsAnnotation_ok(2) [OF this] show ?case by simp
qed simp_all

lemma reaches_advances:
  assumes "reaches env config mode s t"
  shows "advances (effects mode) (snd s) (snd t)"
  using assms
  by (induction rule: rtranclp_induct) (auto intro: advances_trans step_advances)

lemma reaches_wf:
  assumes "reaches env config mode s t" and "wf_world (snd s)"
  shows "wf_world (snd t)"
  using assms by (induction rule: rtranclp_induct) (auto intro: step_wf)

lemma reaches_carried:
  assumes "reaches env config mode s t" and "carried (fst s) \<noteq> Some []"
  shows "carried (fst t) \<noteq> Some []"
  using assms by (induction rule: rtranclp_induct) (use step_carried in \<open>fastforce+\<close>)

lemma exec_never_halts:
  assumes "\<And>fuel. fst (main_loop fuel env config mode w) = Running"
  shows "\<not> halted (fst (exec n env config mode (Discover, w)))"
proof
  assume h: "halted (fst (exec n env config mode (Discover, w)))"
  have "exec (4 * n) env config mode (Discover, w) =
          exec (3 * n) env config mode (exec n env config mode (Discover, w))"
    using exec_add [of n "3 * n"] by simp
  also have "\<dots> = exec n env config mode (Discover, w)"
    using h by (cases "exec n env config mode (Discover, w)") simp
  finally have "exec n env config mode (Discover, w) =
      (pc_of (fst (main_loop n env config mode w)), snd (main_loop n env config mode w))"
    by (simp add: main_loop_exec)
  with h assms [of n] show False by simp
qed

section \<open>Example runs\<close>

lemma bare_reaches:
  "reaches env config mode (Discover, bare)
     (Stopped, snd (main_loop 1 env config mode bare))"
  using main_loop_reaches [of env config mode bare 1] bare_run(1) [of 0 env config mode]
  by simp

lemma world0_storage_step:
  "step env0 settings ''pvc'' (Storage (discovered world0), world0)
     (Network (discovered world0), snd (pvc_mode env0 settings (discovered world0) world0))"
proof -
  have "pvc_phase env0 settings ''pvc'' (discovered world0) world0 =
          (Inr (), snd (pvc_mode env0 settings (discovered world0) world0))"
    using pvc_mode_world0(1) by (simp add: pvc_phase_def prod_eq_iff)
  then show ?thesis by (rule step.storage_done)
qed

section \<open>Properties\<close>

text \<open>
  C15 (invariant). In every state that the machine reaches from the head of the loop in a
  well-formed cluster, the cluster is well formed, the world is a later world of the
  start with calls of the mode's kinds only, and the results that the program carries
  from discovery into the two modes are not empty.
\<close>

theorem reachable_states_invariant:
  assumes "reaches env config mode (Discover, w) (p, w')" and "wf_world w"
  shows "wf_world w' \<and> advances (effects mode) w w' \<and> carried p \<noteq> Some []"
  using reaches_wf [OF assms(1)] reaches_advances [OF assms(1)] reaches_carried [OF assms(1)]
    assms(2)
  by simp

theorem reachable_states_invariant_witness:
  "reaches env0 settings ''pvc'' (Discover, bare)
     (Stopped, snd (main_loop 1 env0 settings ''pvc'' bare)) \<and>
   wf_world (snd (main_loop 1 env0 settings ''pvc'' bare)) \<and>
   advances (effects ''pvc'') bare (snd (main_loop 1 env0 settings ''pvc'' bare))"
  using reachable_states_invariant [OF bare_reaches, of env0 settings "''pvc''"] bare_reaches
  by simp

text \<open>
  C19 (safety). Writes happen in their phase only. In one step of the machine a claim is
  updated only by the step of the PVC mode and only when the mode includes \<open>pvc\<close>, a scale
  is updated only by the step of the ingress mode and only when the mode includes
  \<open>ingress\<close>, and discovery and the pause update nothing.
\<close>

theorem writes_only_in_their_phase:
  assumes "step env config mode (p, w) (q, w')" and "c \<in> set (calls_since w w')"
  shows "(kind_of c = ClaimUpdate \<longrightarrow> (\<exists>rs. p = Storage rs) \<and> runPVC mode) \<and>
         (kind_of c = ScaleUpdate \<longrightarrow> (\<exists>rs. p = Network rs) \<and> runIngress mode) \<and>
         kind_of c \<noteq> DeploymentUpdate"
proof -
  from step_effect [OF assms(1)] assms(2) have "kind_of c \<in> phase_effect mode p"
    by (auto dest: advancesD(7))
  then show ?thesis
    by (cases p) (auto simp: storage_effect_def network_effect_def split: if_splits)
qed

theorem writes_only_in_their_phase_witness:
  "UpdatePVC ''ns1'' ''data-pvc''
     \<in> set (calls_since world0 (snd (pvc_mode env0 settings (discovered world0) world0))) \<and>
   runPVC ''pvc''"
  using writes_only_in_their_phase
    [OF world0_storage_step, of "UpdatePVC ''ns1'' ''data-pvc''"]
  by (simp add: calls_since_def pvc_mode_world0(2))

end
