(* ===== verification/Progress.thy ===== *)
theory Progress
  imports Machine
begin

text \<open>
  What can and what cannot end the loop in PVC mode.

  \<open>well_shaped\<close> says of an answer of Prometheus that its first sample has the two entries
  that the program indexes. When every answer is well shaped, nothing in PVC mode ends the
  process: the errors of the metrics gateway, of \<open>ResizePVC\<close> on a well-formed cluster and
  of \<open>WaitForPVCReady\<close> are values that \<open>main\<close> logs before it goes on, so a run in PVC
  mode either returns from discovery or is still running.

  \<open>steady\<close> describes a cluster in which the loop has no reason to return either: the API
  answers, the environment does nothing, and discovery finds a deployment. In such a
  cluster a cycle in PVC mode ends in a steady cluster again, one pause later at the
  least, so the loop runs for ever and its clock passes every bound when the pause is
  positive.
\<close>

section \<open>Definitions\<close>

fun well_shaped :: "http_reply \<Rightarrow> bool" where
  "well_shaped (Reply r) \<longleftrightarrow> Result r = [] \<or> 1 < length (Value (hd (Result r)))"
| "well_shaped rep \<longleftrightarrow> True"

definition steady :: "world \<Rightarrow> bool" where
  "steady w \<longleftrightarrow> wf_world w \<and> faults w = [] \<and> timeline w = [] \<and> discovered w \<noteq> []"

section \<open>Errors that are values\<close>

lemma first_value_well_shaped:
  "well_shaped (Reply r) \<Longrightarrow> Result r \<noteq> [] \<Longrightarrow> first_value r = Inr (Value (hd (Result r)) ! 1)"
  by (simp add: first_value_def)

lemma FetchDiskUsage_no_abort:
  assumes "\<And>t u q. well_shaped (prometheus env t u q)"
    and "fst (FetchDiskUsage env url n ns w) = Inl err"
  shows "\<not> aborts err"
proof (cases "LoadConfig env")
  case (Inl e)
  with assms(2) LoadConfig_never_aborts [OF Inl] show ?thesis
    by (simp add: FetchDiskUsage_def)
next
  case (Inr config)
  then have parsed: "config_file env = Parsed config"
    by (auto simp: LoadConfig_def split: file_outcome.splits)
  let ?rep = "prometheus env (now w) url (ReplacePlaceholders (DiskUsageQuery config) n ns [])"
  from assms(1) have "well_shaped ?rep" .
  with assms(2) show ?thesis
    by (auto simp: FetchDiskUsage_result [OF parsed] first_value_def
        split: http_reply.splits if_splits sum.splits json_value.splits option.splits)
qed

lemma ResizePVC_no_abort:
  assumes "wf_world w" and "fst (ResizePVC n ns w) = Inl err"
  shows "\<not> aborts err"
proof (cases rule: ResizePVC_cases [where w = w and ns = ns and n = n])
  case (nil_map p)
  with assms(1) have False
    by (fastforce simp: wf_world_def wf_pvc_def)
  then show ?thesis ..
next
  case (stored p m)
  with assms(2) show ?thesis
    by (auto simp: ResizePVC_write update_pvc_def split: option.splits)
qed (use assms(2) in \<open>auto simp: ResizePVC_read_fault ResizePVC_missing split: if_splits\<close>)

lemma poll_loop_no_abort:
  assumes "\<And>w e. fst (tick w) = Inl e \<Longrightarrow> \<not> aborts e"
    and "fst (poll_loop k tick msg w) = Inl err"
  shows "\<not> aborts err"
  using assms(2)
proof (induction k arbitrary: w)
  case 0
  then show ?case by simp
next
  case (Suc k)
  then show ?case
    by (auto simp: poll_loop_Suc dest: assms(1) split: sum.splits bool.splits)
qed

lemma WaitForPVCReady_no_abort:
  assumes "fst (WaitForPVCReady n ns w) = Inl err"
  shows "\<not> aborts err"
proof -
  have "\<not> aborts e" if "fst (pvc_tick n ns v) = Inl e" for v e
    using that by (auto simp: pvc_tick_result pvc_obs_def split: option.splits if_splits)
  with assms show ?thesis
    unfolding WaitForPVCReady_def by (rule poll_loop_no_abort [rotated])
qed

section \<open>PVC mode goes on\<close>

lemma check_pvc_continues:
  assumes "\<And>t u q. well_shaped (prometheus env t u q)" and "wf_world w"
  shows "fst (check_pvc env config result pvcName w) = Inr ()"
proof -
  note quiet = FetchDiskUsage_no_abort [OF assms(1)] WaitForPVCReady_no_abort
    ResizePVC_no_abort [OF pvc_worlds_wf(1) [OF assms(2)]]
  show ?thesis
    by (auto simp: check_pvc_eq continue_after_result dest: quiet split: sum.split)
qed

lemma pvc_mode_continues:
  assumes "\<And>t u q. well_shaped (prometheus env t u q)" and "wf_world w"
  shows "fst (pvc_mode env config rs w) = Inr ()"
  unfolding pvc_mode_def
proof (rule for_each_continues [where P = wf_world])
  fix r v
  assume v: "wf_world v"
  let ?v1 = "info ''Checking PVCs for deployment %s in namespace %s'' v"
  have "fst (for_each (check_pvc env config r) (PVCNames r) ?v1) = Inr ()"
    using v by (intro for_each_continues [where P = wf_world])
      (simp_all add: check_pvc_continues [OF assms(1)] wf_world_check_pvc)
  moreover have "wf_world (snd (for_each (check_pvc env config r) (PVCNames r) ?v1))"
    using v by (intro for_each_invariant [where P = wf_world]) (simp_all add: wf_world_check_pvc)
  ultimately show "fst (for_each (check_pvc env config r) (PVCNames r) ?v1) = Inr () \<and>
      wf_world (snd (for_each (check_pvc env config r) (PVCNames r) ?v1))" ..
qed (simp add: assms(2))

lemma cycle_end_cases:
  obtains (failed) err w1 where
      "IsAnnotation (info ''Starting new monitoring cycle...'' w) = (Inl err, w1)"
  | (none_found) rs w1 where
      "IsAnnotation (info ''Starting new monitoring cycle...'' w) = (Inr (rs, False), w1)"
  | (found) rs w1 where
      "IsAnnotation (info ''Starting new monitoring cycle...'' w) = (Inr (rs, True), w1)"
proof (cases "IsAnnotation (info ''Starting new monitoring cycle...'' w)")
  case (Pair r w1)
  show ?thesis
  proof (cases r)
    case (Inl err)
    with Pair failed show ?thesis by simp
  next
    case (Inr found')
    obtain rs b where "found' = (rs, b)" by (cases found')
    with Pair Inr
    have "IsAnnotation (info ''Starting new monitoring cycle...'' w) = (Inr (rs, b), w1)"
      by simp
    then show ?thesis
      by (cases b) (auto intro: none_found found)
  qed
qed

lemma cycle_pvc_only:
  assumes "\<not> runIngress mode" and "runPVC mode"
    and "IsAnnotation (info ''Starting new monitoring cycle...'' w) = (Inr (rs, True), w1)"
    and "fst (pvc_mode env config rs (log_results rs w1)) = Inr ()"
  shows "cycle env config mode w =
           (Continue,
            sleep (interval_seconds (Interval config))
              (info ''Monitoring cycle complete. Waiting for %d minutes before the next cycle.''
                 (snd (pvc_mode env config rs (log_results rs w1)))))"
  using assms by (simp add: cycle_found pvc_phase_def ingress_phase_def)

lemma cycle_never_aborts:
  assumes "\<And>t u q. well_shaped (prometheus env t u q)" and "wf_world w" and "\<not> runIngress mode"
  shows "fst (cycle env config mode w) \<noteq> Abort err"
proof (cases rule: cycle_end_cases [of w])
  case (found rs w1)
  then have "wf_world (log_results rs w1)"
    using assms(2) discovery_world(2) by simp
  from pvc_mode_continues [OF assms(1) this] found assms(3) show ?thesis
    by (simp add: cycle_found pvc_phase_def ingress_phase_def)
qed (simp_all add: cycle_discovery_failed cycle_nothing_found)

lemma main_loop_never_ends:
  assumes "\<And>t u q. well_shaped (prometheus env t u q)" and "wf_world w" and "\<not> runIngress mode"
  shows "fst (main_loop fuel env config mode w) \<noteq> Ended err"
  using assms(2)
proof (induction fuel arbitrary: w)
  case 0
  show ?case by simp
next
  case (Suc fuel)
  from Suc.prems have "wf_world (snd (cycle env config mode w))"
    by (rule wf_world_cycle)
  with Suc.IH cycle_never_aborts [OF assms(1) Suc.prems assms(3)] show ?case
    by (simp add: main_loop_Suc split: cycle_end.split)
qed

section \<open>A steady cluster stays steady\<close>

lemma discovered_cong:
  "namespaces w' = namespaces w \<Longrightarrow> deployments w' = deployments w \<Longrightarrow>
   discovered w' = discovered w"
  by (simp add: discovered_def enabled_in_def [abs_def])

lemma check_pvc_quiet:
  assumes "timeline w = []"
  shows "deployments (snd (check_pvc env config result pvcName w)) = deployments w"
proof -
  have "timeline (resized env config result pvcName w) = []"
    using assms by (simp add: resized_fields)
  note WaitForPVCReady_quiet(2) [OF this, of pvcName "Namespace result"]
  then show ?thesis
    by (simp add: check_pvc_eq waited_def resized_fields split: sum.split)
qed

lemma pvc_mode_quiet:
  assumes "timeline w = []"
  shows "deployments (snd (pvc_mode env config rs w)) = deployments w"
proof -
  let ?P = "\<lambda>v. timeline v = [] \<and> deployments v = deployments w"
  have claim: "?P (snd (check_pvc env config r n v))" if "?P v" for r n v
    using that check_pvc_quiet [of v env config r n]
      advancesD(9) [OF check_pvc_advances [of v env config r n]] by simp
  have "?P (snd (pvc_mode env config rs w))"
    unfolding pvc_mode_def
    by (intro for_each_invariant [where P = ?P] claim) (simp_all add: assms)
  then show ?thesis ..
qed

lemma steady_cycle:
  assumes "\<And>t u q. well_shaped (prometheus env t u q)" and "steady w"
    and "runPVC mode" and "\<not> runIngress mode"
  shows "fst (cycle env config mode w) = Continue"
    and "steady (snd (cycle env config mode w))"
    and "now w + interval_seconds (Interval config) \<le> now (snd (cycle env config mode w))"
proof -
  let ?w0 = "info ''Starting new monitoring cycle...'' w"
  let ?w1 = "scanned (namespaces w) (called ListNamespaces (info ''Checking annotations......'' ?w0))"
  let ?rs = "discovered w"
  let ?w2 = "log_results ?rs ?w1"
  let ?w3 = "snd (pvc_mode env config ?rs ?w2)"
  let ?w4 = "info ''Monitoring cycle complete. Waiting for %d minutes before the next cycle.'' ?w3"
  from assms(2) have w: "wf_world w" "faults w = []" "timeline w = []" "discovered w \<noteq> []"
    by (simp_all add: steady_def)
  have found: "IsAnnotation ?w0 = (Inr (?rs, True), ?w1)"
    using IsAnnotation_no_fault [of ?w0] w(2,4) by simp
  have w2: "wf_world ?w2" "timeline ?w2 = []" "deployments ?w2 = deployments w" "now ?w2 = now w"
    using w(1,3) by (simp_all add: wf_world_def)
  have eq: "cycle env config mode w = (Continue, sleep (interval_seconds (Interval config)) ?w4)"
    using assms(4,3) found pvc_mode_continues [OF assms(1) w2(1), of config ?rs]
    by (rule cycle_pvc_only)
  then show "fst (cycle env config mode w) = Continue"
    by simp
  have adv: "advances (effects mode) w (snd (cycle env config mode w))"
    by (rule cycle_advances)
  have quiet: "timeline ?w4 = []"
    using advancesD(9) [OF pvc_mode_advances [of ?w2 env config ?rs]] w2(2) by simp
  have "deployments (snd (cycle env config mode w)) = deployments w"
    using pvc_mode_quiet [OF w2(2), of env config ?rs] w2(3) quiet by (simp add: eq)
  with advancesD(4) [OF adv] have "discovered (snd (cycle env config mode w)) = discovered w"
    by (intro discovered_cong)
  with w advancesD(8,9) [OF adv] wf_world_cycle [OF w(1), of env config mode]
  show "steady (snd (cycle env config mode w))"
    by (simp add: steady_def)
  have "now w \<le> now ?w3"
    using advancesD(1) [OF pvc_mode_advances [of ?w2 env config ?rs]] w2(4) by simp
  then show "now w + interval_seconds (Interval config) \<le> now (snd (cycle env config mode w))"
    by (simp add: eq)
qed

lemma steady_main_loop:
  assumes "\<And>t u q. well_shaped (prometheus env t u q)" and "steady w"
    and "runPVC mode" and "\<not> runIngress mode"
  shows "fst (main_loop fuel env config mode w) = Running \<and>
         steady (snd (main_loop fuel env config mode w)) \<and>
         now w + fuel * interval_seconds (Interval config)
           \<le> now (snd (main_loop fuel env config mode w))"
  using assms(2)
proof (induction fuel arbitrary: w)
  case 0
  then show ?case by simp
next
  case (Suc fuel)
  note c = steady_cycle [OF assms(1) Suc.prems assms(3,4), of config]
  from Suc.IH [OF c(2)] c(1,3) show ?case
    by (simp add: main_loop_Suc)
qed

section \<open>Example\<close>

lemma well_shaped_env0: "well_shaped (prometheus env0 t u q)"
  by (simp add: prom0_def vector_def no_result_def)

lemma steady_world0: "steady world0"
  using wf_world0 by (simp add: steady_def world0_discovered)

section \<open>Properties\<close>

text \<open>
  C18 (safety). PVC mode cannot crash. In a well-formed cluster, when every answer of
  Prometheus carries its two entries, no run of the loop without the ingress mode reaches
  the state of a process that has exited or panicked, whatever the API answers and
  whatever the timeline of the environment holds (claims that change their phase or are
  removed, deployments that change their ready replicas or are removed, while the program
  sleeps): every error on the way is logged and the loop goes on.
\<close>

theorem pvc_mode_never_crashes:
  assumes "\<And>t u q. well_shaped (prometheus env t u q)" and "wf_world w" and "\<not> runIngress mode"
    and "reaches env config mode (Discover, w) (p, w')"
  shows "p \<noteq> Crashed err"
proof
  assume "p = Crashed err"
  with assms(4) have "reaches env config mode (Discover, w) (pc_of (Ended err), w')"
    by simp
  then obtain fuel where "main_loop fuel env config mode w = (Ended err, w')"
    using halted_reached by blast
  with main_loop_never_ends [OF assms(1-3), of fuel config err] show False
    by simp
qed

theorem pvc_mode_never_crashes_witness:
  "fst (exec 6 env0 settings ''pvc'' (Discover, world0)) \<noteq> Crashed (Panic ''index out of range'')"
  using pvc_mode_never_crashes
    [where env = env0 and w = world0 and mode = "''pvc''" and config = settings
       and p = "fst (exec 6 env0 settings ''pvc'' (Discover, world0))"
       and w' = "snd (exec 6 env0 settings ''pvc'' (Discover, world0))",
     OF well_shaped_env0 wf_world0]
    exec_reaches [of env0 settings "''pvc''" "(Discover, world0)" 6]
  by simp

text \<open>
  C13 (liveness). A steady cluster is monitored for ever. When the API answers, the
  environment is quiet, discovery finds a deployment and every answer of Prometheus is
  well shaped, the loop in PVC mode never ends: the machine is in no final state after any
  number of steps, \<open>main_loop\<close> is still running after any number of cycles, and each cycle
  takes at least the configured pause.
\<close>

theorem steady_cluster_is_monitored_for_ever:
  assumes "\<And>t u q. well_shaped (prometheus env t u q)" and "steady w"
    and "runPVC mode" and "\<not> runIngress mode"
  shows "\<not> halted (fst (exec n env config mode (Discover, w))) \<and>
         fst (main_loop fuel env config mode w) = Running \<and>
         now w + fuel * interval_seconds (Interval config)
           \<le> now (snd (main_loop fuel env config mode w))"
  using steady_main_loop [OF assms] exec_never_halts [of env config mode w n]
  by (simp add: steady_main_loop [OF assms])

theorem steady_cluster_is_monitored_for_ever_witness:
  "\<not> halted (fst (exec 7 env0 settings ''pvc'' (Discover, world0))) \<and>
   fst (main_loop 3 env0 settings ''pvc'' world0) = Running \<and>
   900 \<le> now (snd (main_loop 3 env0 settings ''pvc'' world0))"
  using steady_cluster_is_monitored_for_ever
    [where env = env0 and w = world0 and mode = "''pvc''" and config = settings
       and n = 7 and fuel = 3, OF well_shaped_env0 steady_world0]
  by simp

end
