(* ===== verification/Spec2Isabelle.thy ===== *)
theory Spec2Isabelle
  imports Progress
begin

text \<open>
  A verification development for the Kubernetes resource autoscaler
  (\<open>k8s-resource-autoscaler\<close>): a control loop that looks for deployments annotated
  \<open>autoscaler/enabled: "true"\<close>, asks Prometheus for the disk usage of their volume claims
  and the network usage of their pods, grows a claim by one half when its usage passes a
  threshold, and rescales the deployments of a namespace when a pod's ingress passes a
  threshold.

  \<^bold>\<open>The program and the theories.\<close>
  \<^item> \<open>Go_Prelude\<close>: the Go values the program computes with (\<open>int32\<close> and \<open>int64\<close> as
    words, \<open>float64\<close> as a real, truncating division, and the conversion \<open>go_int\<close> of a
    \<open>float64\<close> to the 64-bit \<open>int\<close>), its error values,
    \<open>strings.ReplaceAll\<close> and \<open>strings.Contains\<close>, the range loop \<open>for_each\<close>, and the
    shared lemmas.
  \<^item> \<open>Logger\<close>: \<open>src/pkg/log/logger.go\<close>. A log is a list of lines; \<open>log_Error\<close> returns
    \<open>nil\<close> and \<open>log_Fatal\<close> ends the process. \<open>msgFormatted\<close>, \<open>file_text\<close> and
    \<open>console_text\<close> give the characters of a line; a line determines its level, time stamp
    and message.
  \<^item> \<open>Cluster\<close>: the world the program acts on: the deployments, claims and pods of the
    cluster, the calls of the Kubernetes API that the sources make (each with a scripted
    fault and a trace entry), the clock, and the environment's own actions.
  \<^item> \<open>PVC\<close>: \<open>src/pkg/kubernetes/pvc/resize.go\<close> and \<open>check_exists.go\<close>: \<open>ResizePVC\<close>,
    \<open>CheckPVCExists\<close> and the arithmetic \<open>new_size\<close> of a resize.
  \<^item> \<open>Scale\<close>: \<open>ScalePod\<close> and \<open>ScaleDownOldPods\<close> of
    \<open>src/pkg/kubernetes/deployment/scale.go\<close>. \<open>scale_each\<close> is the loop over the
    deployments, \<open>adjust_desired\<close> the annotation-driven replica count, \<open>scale_attempts\<close>
    the retry loop. \<open>target\<close>, \<open>plan\<close> and \<open>scaled\<close> specify what a run without faults
    writes, and \<open>carried_count\<close> the value of \<open>desiredReplicaCount\<close> along the loop; the
    lemmas cover the numbers of attempts and sleeps, the exits, the preservation of
    \<open>wf_world\<close>, scaling up followed by scaling down, and where the two routines that
    scale down agree.
  \<^item> \<open>Waiter\<close>: \<open>WaitForScaling\<close> and \<open>WaitForPVCReady\<close> of the same file, over the
    shared loop \<open>poll_loop\<close>; \<open>wait_spec\<close> is their specification over the cluster alone
    and \<open>outcome\<close> the abstraction of a run that the refinement lemmas relate to it. The
    progress lemmas say when a wait ends with success.
  \<^item> \<open>Discovery\<close>: \<open>IsAnnotation\<close> of
    \<open>src/pkg/kubernetes/annotations/is_annotation.go\<close>, with \<open>discovered\<close> as its
    specification.
  \<^item> \<open>Pods\<close>: \<open>GetPodsForDeployment\<close> of \<open>src/pkg/kubernetes/deployment/deployment.go\<close>,
    with \<open>FormatLabelSelector\<close>, which turns a selector without labels into a request that
    the server refuses.
  \<^item> \<open>Metrics\<close>: \<open>ReplacePlaceholders\<close>, \<open>FetchDiskUsage\<close> and \<open>FetchNetworkUsage\<close> of
    \<open>src/pkg/kubernetes/metrics/fetch.go\<close>, over an environment \<open>metrics_env\<close> that holds
    the outcome of reading the query file, the answers of Prometheus and the scanner of
    numbers. \<open>reading\<close> says which number a response carries.
  \<^item> \<open>Settings\<close>: \<open>src/config/config.go\<close>: the nested structs of the configuration as
    records and \<open>config_LoadConfig\<close>, which fills the zero value \<open>zero_config\<close> with what
    the decoder found.
  \<^item> \<open>Control\<close>: \<open>main\<close> of \<open>src/main.go\<close>: \<open>check_pvc\<close> and \<open>check_pod\<close> are the bodies of
    the innermost loops with the threshold decisions, \<open>pvc_mode\<close> and \<open>ingress_mode\<close> the
    two modes, \<open>cycle\<close> one monitoring cycle, \<open>main_loop\<close> the endless loop, \<open>main\<close> the
    start: the logger, the mode, the configuration and \<open>ConnectToCluster\<close> of
    \<open>src/pkg/kubernetes/connection/connect.go\<close>, over the record \<open>boot\<close> of what the
    program finds on its machine. \<open>interval_seconds\<close> is the pause between two cycles as
    Go's \<open>Duration\<close> computes it.
  \<^item> \<open>History\<close>: the relation \<open>advances K\<close> between a world and a later world of the same
    run (the clock, the trace, the log, the fault script and the timeline move one way,
    and every call in between is of a kind in \<open>K\<close>), and for every operation of the
    program the kinds of calls it makes. The facts of the collection \<open>history\<close> are in
    continuation form, so that the effect of a composed operation follows by \<open>intro\<close>.
  \<^item> \<open>Machine\<close>: the loop of \<open>main\<close> as a transition system: \<open>step\<close> is the relation
    between the program points \<open>Discover\<close>, \<open>Storage\<close>, \<open>Network\<close>, \<open>Pause\<close>, \<open>Stopped\<close> and
    \<open>Crashed\<close>, \<open>next_state\<close> the same as a function, \<open>exec\<close> its iteration. It is a
    second presentation of the lines that \<open>cycle\<close> and \<open>main_loop\<close> translate, cut at the
    program points, and translates no further code; the lemmas \<open>main_loop_exec\<close> and
    \<open>main_loop_reaches\<close> tie it to \<open>main_loop\<close> (four steps are one cycle). What it adds are
    the invariants of the reachable states, by rule induction.
  \<^item> \<open>Progress\<close>: in PVC mode no answer of the metrics backend or of the API ends the
    process when the samples are \<open>well_shaped\<close>, and in a \<open>steady\<close> cluster the loop goes
    on for ever.
  \<^item> This theory: the properties that span the components, from a measurement to the
    state of the cluster after the actuators and waiters have run and the cycle has
    ended.

  \<^bold>\<open>How the model corresponds to the code.\<close> Every Go function is one definition with the
  function's name; it takes the world last and returns its result together with the
  world it leaves. A returned \<open>error\<close> is \<open>Inl\<close>, a returned value \<open>Inr\<close>. \<open>os.Exit\<close> and
  run-time panics are the error values \<open>ProcessExit\<close> and \<open>Panic\<close>, which every caller
  passes on. Loops over slices are recursion over lists, the bounded retry loop is a
  \<open>function\<close> with a measure, the polling loops recurse over the number of ticks left
  before the deadline. The worlds \<open>world0\<close>, \<open>bare\<close>, \<open>resizing\<close> and \<open>shop\<close>, the
  environment \<open>env0\<close>, the start \<open>boot0\<close> and the configuration \<open>settings\<close> are the examples
  at which the theorems are instantiated.

  \<^bold>\<open>Bounds and fuel.\<close> Time is counted in whole seconds. API calls take no time; \<open>sleep\<close>
  advances the clock and applies the environment's actions that have become due. The
  retry loop of \<open>ScalePod\<close> is a \<open>function\<close> whose measure is the number of attempts left
  of \<open>maxRetries = 3\<close>. A wait has a timer of 60 seconds and a ticker of one second; the
  ticks of seconds 1 to 59 are polled and the timer is taken at second 60, so \<open>poll_loop\<close>
  runs with \<open>polls = 59\<close> ticks, and its lemmas hold for every number of ticks. The loop
  of \<open>main\<close> has no exit condition of its own: \<open>main_loop\<close> takes the number of cycles it
  may run as fuel and answers \<open>Running\<close> when the fuel is used up; the theorem that \<open>main\<close>
  returns when nothing is discovered holds for every fuel of at least one cycle, and the
  invariant holds for every fuel. That the loop does not end in a steady cluster is
  proved for every fuel: \<open>main_loop\<close> answers \<open>Running\<close> however many cycles it is given,
  and the clock has then advanced by that many pauses. The machine of \<open>Machine\<close> needs
  no fuel of its own: \<open>reaches\<close> is the reflexive transitive closure of \<open>step\<close>, and
  \<open>exec\<close> with \<open>4 * fuel\<close> steps is \<open>main_loop\<close> with \<open>fuel\<close> cycles. Sizes are \<open>64 word\<close>
  and replica counts \<open>32 word\<close>; the theorems on \<open>new_size\<close> and \<open>scale_up_count\<close> say up
  to which value they do not wrap. The integers of the configuration are unbounded
  \<open>int\<close>; \<open>int32_of_int\<close> wraps them where the source converts, and \<open>interval_seconds\<close>
  wraps the pause at 64 bits of nanoseconds, which 153722867 minutes still fit. The
  conversion \<open>int(f)\<close> of a metric truncates where the result fits 64 bits, that is for
  \<open>- 2\<^sup>6\<^sup>3 - 1 < f < 2\<^sup>6\<^sup>3\<close>; outside, Go leaves the result to the implementation and
  \<open>go_int\<close> gives the smallest \<open>int64\<close>, as amd64 does. The theorem on the resize
  decision is stated for the usages that fit, and \<open>check_pvc_usage_out_of_range\<close> says
  what the model gives for the others.

  \<^bold>\<open>Not modelled.\<close> The arguments that \<open>fmt.Sprintf\<close> puts into a log line (a line keeps
  its format string) and the conversion of the clock to a calendar date; label selectors
  other than \<open>matchLabels\<close>; NaN and infinite metric values, and what other
  implementations than amd64 give for \<open>int(f)\<close> out of range; the time that a call of the
  API or of Prometheus takes (calls are instantaneous and return, so a slow or hanging
  call cannot be expressed, and a wait polls at all 59 ticks before its deadline); actions
  of the environment other than the four kinds of \<open>env_event\<close> (a claim changes its phase or
  is removed, a deployment changes its ready replicas or is removed), which take place
  while the program sleeps and never between two of its calls: what a theorem says
  of every environment is relative to these; URL escaping, the HTTP
  transport, reading files, JSON and YAML decoding and \<open>fmt.Sscanf\<close>, whose outcomes are
  given by the environment (\<open>metrics_env\<close>, \<open>boot\<close>); the parsing of the command line by
  \<open>flag\<close>, of which the model takes the value of \<open>-mode\<close>; the construction of the
  client by \<open>client-go\<close>, of which the model takes whether it succeeds; and the
  Kubernetes API server itself, of which \<open>Cluster\<close> is an environment model written from
  the calls the sources make. Nothing else of \<open>src/\<close> is left out: every function of the
  ten source files is a definition of one of the theories.
\<close>

section \<open>A resize from measurement to readiness\<close>

text \<open>
  C1 (functional). A whole monitoring cycle in PVC mode. In a well-formed cluster with a
  quiet environment and an API that does not fail, in which discovery finds one deployment
  with one bound claim whose measured usage, cut to a whole number, exceeds the threshold:
  the cycle goes on to the next one, the claim's request is one and a half times what it
  was, the clock has advanced by the second of the wait and the pause, and the API has
  seen the lists of discovery followed by one read and one update of the claim and one
  poll.
\<close>

theorem resize_end_to_end:
  assumes "wf_world w" and "faults w = []" and "timeline w = []"
    and "discovered w = [r]" and "PVCNames r = [pvcName]"
    and "pvcs w (Namespace r, pvcName) = Some p" and "phase p = ClaimBound"
    and "fst (FetchDiskUsage env (Prometheus_URL config) pvcName (Namespace r) w) = Inr x"
    and "DiskUsage_Resize config < go_int x"
    and "runPVC mode" and "\<not> runIngress mode"
  shows "fst (cycle env config mode w) = Continue \<and>
         claim_size (snd (cycle env config mode w)) (Namespace r) pvcName
           = Some (new_size (storage_request p)) \<and>
         now (snd (cycle env config mode w)) = now w + 1 + interval_seconds (Interval config) \<and>
         calls_since w (snd (cycle env config mode w)) =
           ListNamespaces # map ListDeployments (namespaces w) @
           [GetPVC (Namespace r) pvcName, UpdatePVC (Namespace r) pvcName,
            GetPVC (Namespace r) pvcName]"
proof -
  let ?w0 = "info ''Starting new monitoring cycle...'' w"
  let ?w1 = "scanned (namespaces w) (called ListNamespaces (info ''Checking annotations......'' ?w0))"
  let ?W = "info ''Checking PVCs for deployment %s in namespace %s''
              (info ''Running in PVC resizing mode...'' (log_results [r] ?w1))"
  let ?c = "check_pvc env config r pvcName ?W"
  have found: "IsAnnotation ?w0 = (Inr ([r], True), ?w1)"
    using IsAnnotation_no_fault [of ?w0] assms(2,4) by simp
  have W: "wf_world ?W" "faults ?W = []" "timeline ?W = []"
    "pvcs ?W (Namespace r, pvcName) = Some p" "now ?W = now w"
    "calls ?W = calls w @ ListNamespaces # map ListDeployments (namespaces w)"
    using assms(1,2,3,6) by (simp_all add: wf_world_def)
  have fetch: "fst (FetchDiskUsage env (Prometheus_URL config) pvcName (Namespace r) ?W) = Inr x"
    using assms(8) FetchDiskUsage_clock [OF W(5)] by simp
  note path = check_pvc_resizes [OF W(1,2,3,4) assms(7) fetch assms(9)]
  have "cycle env config mode w =
          (Continue,
           sleep (interval_seconds (Interval config))
             (info ''Monitoring cycle complete. Waiting for %d minutes before the next cycle.''
                (snd ?c)))"
    using assms(10,11) found path(1)
    by (simp add: cycle_found pvc_phase_def ingress_phase_def pvc_mode_single [OF assms(5)])
  with path W(5,6) show ?thesis
    by (auto simp: claim_size_def)
qed

theorem resize_end_to_end_witness:
  "fst (cycle env0 settings ''pvc'' world0) = Continue \<and>
   claim_size (snd (cycle env0 settings ''pvc'' world0)) ''ns1'' ''data-pvc'' = Some 16106127360 \<and>
   now (snd (cycle env0 settings ''pvc'' world0)) = 301 \<and>
   calls (snd (cycle env0 settings ''pvc'' world0)) =
     [ListNamespaces, ListDeployments ''ns1'', GetPVC ''ns1'' ''data-pvc'',
      UpdatePVC ''ns1'' ''data-pvc'', GetPVC ''ns1'' ''data-pvc'']"
proof -
  let ?r = "\<lparr>Namespace = ''ns1'', Deployment = ''web'', PVCNames = [''data-pvc'']\<rparr>"
  have size: "new_size (storage_request data_pvc) = 16106127360" "phase data_pvc = ClaimBound"
    by (simp_all add: data_pvc_def ResourceStorage_def storage_request_def new_size_def go_quot_def
        signed_divide_int_def)
  have hot: "DiskUsage_Resize settings < go_int 85.5"
    by (simp add: go_int_eval)
  have fetch: "fst (FetchDiskUsage env0 (Prometheus_URL settings) ''data-pvc'' (Namespace ?r) world0)
      = Inr 85.5"
    by (simp add: FetchDiskUsage_env0)
  from resize_end_to_end
    [where w = world0 and r = ?r and pvcName = "''data-pvc''" and p = data_pvc and env = env0
       and config = settings and x = "85.5" and mode = "''pvc''",
     OF wf_world0 _ _ world0_discovered _ _ size(2) fetch hot]
  show ?thesis
    by (simp add: size(1) calls_since_def)
qed

section \<open>The call that scales\<close>

text \<open>
  C11 (functional). In ingress mode \<open>main\<close> calls \<open>ScalePod\<close> with the deployment's name in
  the place of the namespace and the namespace in the place of the name. So when the
  ingress of a pod exceeds the threshold, the deployments that are listed and scaled are
  those of the namespace called like the deployment: if there is no such namespace,
  the call succeeds and no deployment of the cluster has changed.
\<close>

theorem scaling_lists_the_namespace_named_like_the_deployment:
  assumes "fst (FetchNetworkUsage env (Prometheus_URL config) (Name pod) (Namespace result)
                  (info ''Checking network usage for pod %s in namespace %s'' w)) = (x, y, None)"
    and "Ingress_Scale config < go_int x"
    and "fault_of w = None" and "deployments w (Deployment result) = []"
  shows "fst (check_pod env config result pod w) = Inr () \<and>
         deployments (snd (check_pod env config result pod w)) = deployments w \<and>
         calls_since w (snd (check_pod env config result pod w)) =
           [ListDeployments (Deployment result)]"
proof -
  let ?w2 = "alarmed env config result pod w"
  have "fault_of ?w2 = None" "deployments ?w2 (Deployment result) = []"
    using assms(3,4) by (simp_all add: fault_of_def)
  then have "ScalePod (Deployment result) (Namespace result)
               (int32_of_int (DesiredReplicaCount config)) ?w2 =
             (Inr (), called (ListDeployments (Deployment result)) ?w2)"
    by (rule ScalePod_empty)
  with assms(1,2) show ?thesis
    by (simp add: check_pod_eq)
qed

theorem scaling_lists_the_namespace_named_like_the_deployment_witness:
  "fst (cycle env0 settings ''ingress'' world0) = Continue \<and>
   replicas_of (snd (cycle env0 settings ''ingress'' world0)) ''ns1'' ''web'' = Some 2 \<and>
   calls (snd (cycle env0 settings ''ingress'' world0)) =
     [ListNamespaces, ListDeployments ''ns1'', GetDeployment ''ns1'' ''web'', ListPods ''ns1'',
      ListDeployments ''web'']"
proof -
  let ?r = "\<lparr>Namespace = ''ns1'', Deployment = ''web'', PVCNames = [''data-pvc'']\<rparr>"
  let ?pod = "\<lparr>Name = ''web-0'', Namespace_pod = ''ns1''\<rparr>"
  let ?w0 = "info ''Starting new monitoring cycle...'' world0"
  let ?w1 = "scanned (namespaces ?w0) (called ListNamespaces (info ''Checking annotations......'' ?w0))"
  let ?w2 = "info ''Checking network usage for deployment %s in namespace %s''
               (info ''Running in ingress scaling mode...'' (log_results [?r] ?w1))"
  let ?W = "called (ListPods ''ns1'') (called (GetDeployment ''ns1'' ''web'') ?w2)"
  have found: "IsAnnotation ?w0 = (Inr ([?r], True), ?w1)"
    using IsAnnotation_no_fault [of ?w0] world0_discovered by simp
  have pods: "GetPodsForDeployment ''web'' ''ns1'' ?w2 = (Inr [?pod], ?W)"
    using world0_pods by (simp add: GetPodsForDeployment_eq fault_of_def pods_of_def)
  have W: "fault_of ?W = None" "deployments ?W (Deployment ?r) = []" "timeline ?W = []"
    "calls ?W = [ListNamespaces, ListDeployments ''ns1'', GetDeployment ''ns1'' ''web'', ListPods ''ns1'']"
    "deployments ?W = deployments world0" "now ?W = 0"
    by (simp_all add: fault_of_def world0_def)
  have fetch: "fst (FetchNetworkUsage env0 (Prometheus_URL settings) (Name ?pod) (Namespace ?r)
                  (info ''Checking network usage for pod %s in namespace %s'' ?W)) = (2000, 100, None)"
    by (simp add: FetchNetworkUsage_env0)
  have hot: "Ingress_Scale settings < go_int 2000"
    by (simp add: go_int_eval)
  note step = scaling_lists_the_namespace_named_like_the_deployment [OF fetch hot W(1,2)]
  have quiet: "timeline (snd (check_pod env0 settings ?r ?pod ?W)) = []"
       "now (snd (check_pod env0 settings ?r ?pod ?W)) = 0"
       "calls (snd (check_pod env0 settings ?r ?pod ?W)) = calls ?W @ [ListDeployments ''web'']"
    using fetch hot W(1,2,3,6) ScalePod_empty [of "alarmed env0 settings ?r ?pod ?W" "''web''" "''ns1''" 3]
    by (simp_all add: check_pod_eq fault_of_def int32_of_int_def)
  have mode: "ingress_mode env0 settings [?r] (log_results [?r] ?w1) =
          (Inr (), snd (check_pod env0 settings ?r ?pod ?W))"
    using step pods by (simp add: ingress_mode_def check_deployment_def for_each_Cons)
  have "cycle env0 settings ''ingress'' world0 =
          (Continue, sleep (interval_seconds (Interval settings))
             (info ''Monitoring cycle complete. Waiting for %d minutes before the next cycle.''
                (snd (check_pod env0 settings ?r ?pod ?W))))"
    using found mode by (simp add: cycle_found pvc_phase_def ingress_phase_def)
  with quiet step W(4,5) show ?thesis
    by (simp add: replicas_of_def web_def)
qed

end
